(* ===== verification/Vault_Prelude.thy ===== *)
theory Vault_Prelude
  imports Main "HOL-Library.Word" "HOL-Library.Numeral_Type" "HOL-Library.List_Lexorder"
begin

text \<open>
  What the components share: results with early return (Rust's \<open>Result\<close>, \<open>?\<close> and Anchor's
  \<open>require!\<close>), the integer types of the program with their checked and saturating operations,
  fixed-size byte arrays \<open>[u8; N]\<close> (a \<open>Pubkey\<close> is \<open>[u8; 32]\<close>) and little-endian bytes.
  The collections \<open>result_simps\<close> and \<open>word_ops\<close> carry the proofs of the components.
\<close>

unbundle bit_operations_syntax

named_theorems result_simps \<comment> \<open>when a computation with early returns succeeds or fails\<close>
named_theorems word_ops \<comment> \<open>checked and saturating operations read over \<open>nat\<close> and \<open>int\<close>\<close>

section \<open>Results\<close>

text \<open>\<open>bind_res m f\<close> is \<open>let x = m?; f x\<close>; \<open>require c e k\<close> is \<open>require!(c, e); k\<close>;
  \<open>ok_or\<close> is \<open>Option::ok_or\<close>.\<close>

definition bind_res :: "'e + 'a \<Rightarrow> ('a \<Rightarrow> 'e + 'b) \<Rightarrow> 'e + 'b" where
  "bind_res m f = (case m of Inl e \<Rightarrow> Inl e | Inr x \<Rightarrow> f x)"

definition require :: "bool \<Rightarrow> 'e \<Rightarrow> 'e + 'a \<Rightarrow> 'e + 'a" where
  "require c e k = (if c then k else Inl e)"

definition ok_or :: "'a option \<Rightarrow> 'e \<Rightarrow> 'e + 'a" where
  "ok_or x e = (case x of None \<Rightarrow> Inl e | Some y \<Rightarrow> Inr y)"

definition is_ok :: "'e + 'a \<Rightarrow> bool" where
  "is_ok r = (case r of Inl _ \<Rightarrow> False | Inr _ \<Rightarrow> True)"

lemma bind_res_Inl [simp]: "bind_res (Inl e) f = Inl e"
  and bind_res_Inr [simp]: "bind_res (Inr x) f = f x"
  by (simp_all add: bind_res_def)

lemma require_True [simp]: "require True e k = k"
  and require_False [simp]: "require False e k = Inl e"
  by (simp_all add: require_def)

lemma ok_or_None [simp]: "ok_or None e = Inl e"
  and ok_or_Some [simp]: "ok_or (Some x) e = Inr x"
  by (simp_all add: ok_or_def)

lemma is_ok_Inl [simp]: "\<not> is_ok (Inl e)"
  and is_ok_Inr [simp]: "is_ok (Inr x)"
  by (simp_all add: is_ok_def)

lemma is_ok_iff: "is_ok r \<longleftrightarrow> (\<exists>x. r = Inr x)"
  by (cases r) auto

lemma bind_res_eq_Inr [result_simps]:
  "bind_res m f = Inr y \<longleftrightarrow> (\<exists>x. m = Inr x \<and> f x = Inr y)"
  by (cases m) auto

lemma bind_res_eq_Inl:
  "bind_res m f = Inl e \<longleftrightarrow> m = Inl e \<or> (\<exists>x. m = Inr x \<and> f x = Inl e)"
  by (cases m) auto

lemma require_eq_Inr [result_simps]: "require c e k = Inr y \<longleftrightarrow> c \<and> k = Inr y"
  by (simp add: require_def)

lemma require_eq_Inl: "require c e k = Inl e' \<longleftrightarrow> (\<not> c \<and> e' = e) \<or> (c \<and> k = Inl e')"
  by (auto simp: require_def)

lemma ok_or_eq_Inr [result_simps]: "ok_or x e = Inr y \<longleftrightarrow> x = Some y"
  by (cases x) auto

lemma ok_or_eq_Inl: "ok_or x e = Inl e' \<longleftrightarrow> x = None \<and> e' = e"
  by (cases x) auto

lemma if_eq_Inr [result_simps]:
  "(if c then a else Inl e) = Inr y \<longleftrightarrow> c \<and> a = Inr y"
  "(if c then Inl e else a) = Inr y \<longleftrightarrow> \<not> c \<and> a = Inr y"
  by simp_all

lemma bind_res_cong [fundef_cong]:
  assumes "m = m'" and "\<And>x. m' = Inr x \<Longrightarrow> f x = f' x"
  shows "bind_res m f = bind_res m' f'"
  using assms by (cases m') auto

lemma bind_res_assoc: "bind_res (bind_res m f) g = bind_res m (\<lambda>x. bind_res (f x) g)"
  by (cases m) auto

lemma replicate_2: "replicate 2 x = [x, x]"
  by (simp add: numeral_2_eq_2)

section \<open>Machine integers\<close>

text \<open>Unsigned integers are words. An \<open>i64\<close> is a 64-bit word read by \<open>sint\<close>. The release profile
  of the workspace sets \<open>overflow-checks = true\<close>, so plain \<open>+\<close> and \<open>-\<close> panic on overflow.\<close>

type_synonym u8 = "8 word"
type_synonym u16 = "16 word"
type_synonym u32 = "32 word"
type_synonym u64 = "64 word"
type_synonym i64 = "64 word"
type_synonym byte = "8 word"

definition checked_add :: "'a::len word \<Rightarrow> 'a word \<Rightarrow> 'a word option" where
  "checked_add a b = (if unat a + unat b < 2 ^ LENGTH('a) then Some (a + b) else None)"

definition checked_sub :: "'a::len word \<Rightarrow> 'a word \<Rightarrow> 'a word option" where
  "checked_sub a b = (if b \<le> a then Some (a - b) else None)"

definition saturating_add :: "'a::len word \<Rightarrow> 'a word \<Rightarrow> 'a word" where
  "saturating_add a b = (if unat a + unat b < 2 ^ LENGTH('a) then a + b else - 1)"

definition saturating_sub :: "'a::len word \<Rightarrow> 'a word \<Rightarrow> 'a word" where
  "saturating_sub a b = (if b \<le> a then a - b else 0)"

definition i64_fits :: "int \<Rightarrow> bool" where
  "i64_fits x \<longleftrightarrow> - (2 ^ 63) \<le> x \<and> x < 2 ^ 63"

definition i64_max :: i64 where
  "i64_max = 0x7FFFFFFFFFFFFFFF"

definition i64_min :: i64 where
  "i64_min = 0x8000000000000000"

definition checked_add_i64 :: "i64 \<Rightarrow> i64 \<Rightarrow> i64 option" where
  "checked_add_i64 a b = (if i64_fits (sint a + sint b) then Some (a + b) else None)"

definition checked_sub_i64 :: "i64 \<Rightarrow> i64 \<Rightarrow> i64 option" where
  "checked_sub_i64 a b = (if i64_fits (sint a - sint b) then Some (a - b) else None)"

definition saturating_sub_i64 :: "i64 \<Rightarrow> i64 \<Rightarrow> i64" where
  "saturating_sub_i64 a b =
     (if i64_fits (sint a - sint b) then a - b
      else if sint a < sint b then i64_min else i64_max)"

lemma checked_add_eq_Some [word_ops]:
  fixes a b c :: "'a::len word"
  shows "checked_add a b = Some c \<longleftrightarrow> unat c = unat a + unat b"
proof
  assume "checked_add a b = Some c"
  then show "unat c = unat a + unat b"
    by (auto simp: checked_add_def unat_word_ariths split: if_splits)
next
  assume h: "unat c = unat a + unat b"
  then have lt: "unat a + unat b < 2 ^ LENGTH('a)"
    by (metis unsigned_less)
  with h have "c = a + b"
    by (simp add: word_unat_eq_iff unat_word_ariths)
  with lt show "checked_add a b = Some c" by (simp add: checked_add_def)
qed

lemma checked_sub_eq_Some [word_ops]:
  fixes a b c :: "'a::len word"
  shows "checked_sub a b = Some c \<longleftrightarrow> unat a = unat b + unat c"
proof
  assume "checked_sub a b = Some c"
  then show "unat a = unat b + unat c"
    by (auto simp: checked_sub_def unat_sub word_le_nat_alt split: if_splits)
next
  assume h: "unat a = unat b + unat c"
  then have le: "b \<le> a" by (simp add: word_le_nat_alt)
  with h have "unat (a - b) = unat c" by (simp add: unat_sub)
  with le show "checked_sub a b = Some c" by (simp add: checked_sub_def word_unat_eq_iff)
qed

lemma checked_add_eq_None [word_ops]:
  fixes a b :: "'a::len word"
  shows "checked_add a b = None \<longleftrightarrow> 2 ^ LENGTH('a) \<le> unat a + unat b"
  by (simp add: checked_add_def not_less)

lemma checked_sub_eq_None [word_ops]: "checked_sub a b = None \<longleftrightarrow> unat a < unat b"
  by (simp add: checked_sub_def word_le_nat_alt not_le)

lemma unat_saturating_sub [simp]: "unat (saturating_sub a b) = unat a - unat b"
  by (simp add: saturating_sub_def unat_sub word_le_nat_alt)

lemma unat_saturating_add [word_ops]:
  fixes a b :: "'a::len word"
  shows "unat (saturating_add a b) = min (unat a + unat b) (2 ^ LENGTH('a) - 1)"
  by (auto simp: saturating_add_def unat_word_ariths unsigned_minus_1_eq_mask mask_eq_exp_minus_1)

lemma saturating_add_no_sat:
  fixes a b :: "'a::len word"
  assumes "unat a + unat b < 2 ^ LENGTH('a)"
  shows "unat (saturating_add a b) = unat a + unat b"
  using assms by (simp add: saturating_add_def unat_word_ariths)

lemma sint_i64_max [simp]: "sint i64_max = 2 ^ 63 - 1"
  and sint_i64_min [simp]: "sint i64_min = - (2 ^ 63)"
  by (simp_all add: i64_max_def i64_min_def)

lemma i64_range: "- (2 ^ 63) \<le> sint (a :: i64)" "sint (a :: i64) < 2 ^ 63"
  using sint_ge [of a] sint_lt [of a] by simp_all

lemma sint_plus_fits:
  fixes a b :: i64
  assumes "i64_fits (sint a + sint b)"
  shows "sint (a + b) = sint a + sint b"
  using assms by (simp add: i64_fits_def sint_word_ariths signed_take_bit_int_eq_self)

lemma sint_minus_fits:
  fixes a b :: i64
  assumes "i64_fits (sint a - sint b)"
  shows "sint (a - b) = sint a - sint b"
  using assms by (simp add: i64_fits_def sint_word_ariths signed_take_bit_int_eq_self)

lemma unat_less_2p: "unat w < 2 ^ LENGTH('a)" for w :: "'a::len word"
  by (rule unsigned_less)

lemma checked_sub_one:
  fixes w :: "'a::len word"
  assumes "0 < w"
  shows "checked_sub w 1 = Some (w - 1)"
  using assms by (simp add: checked_sub_def word_le_nat_alt word_less_nat_alt Suc_le_eq unat_gt_0)

lemma checked_add_i64_eq_Some [word_ops]:
  "checked_add_i64 a b = Some c \<longleftrightarrow> sint c = sint a + sint b"
proof
  assume "checked_add_i64 a b = Some c"
  then show "sint c = sint a + sint b"
    by (auto simp: checked_add_i64_def sint_plus_fits split: if_splits)
next
  assume c: "sint c = sint a + sint b"
  then have fits: "i64_fits (sint a + sint b)" using i64_range [of c] by (simp add: i64_fits_def)
  then have "sint (a + b) = sint c" using c by (simp add: sint_plus_fits)
  then have "a + b = c" by (rule signed_word_eqI)
  with fits show "checked_add_i64 a b = Some c" by (simp add: checked_add_i64_def)
qed

end
