(* ===== verification/Byte_Arrays.thy ===== *)
theory Byte_Arrays
  imports Vault_Prelude
begin

text \<open>
  Fixed-size byte arrays \<open>[u8; N]\<close> as a type indexed by its length, with equality, zero
  (\<open>Pubkey::default()\<close>, \<open>[0u8; N]\<close>) and the lexicographic order of \<open>Ord for [u8; N]\<close>;
  little-endian integers (\<open>to_le_bytes\<close>, \<open>from_le_bytes\<close>); base58 public-key literals.
\<close>

section \<open>Arrays of a fixed length\<close>

typedef (overloaded) ('n::len) bytes = "{xs :: byte list. length xs = LENGTH('n)}"
  morphisms to_list Abs_bytes
  by (rule exI [of _ "replicate LENGTH('n) 0"]) simp

type_synonym pubkey = "32 bytes"

text \<open>\<open>arr\<close> truncates and pads with zeros; on a list of the right length it is the list.\<close>

definition arr :: "byte list \<Rightarrow> ('n::len) bytes" where
  "arr xs = Abs_bytes (take LENGTH('n) (xs @ replicate LENGTH('n) 0))"

definition fill :: "byte \<Rightarrow> ('n::len) bytes" where
  "fill b = arr (replicate LENGTH('n) b)"

lemma length_to_list [simp]:
  fixes b :: "('n::len) bytes"
  shows "length (to_list b) = LENGTH('n)"
  using to_list [of b] by simp

lemma Abs_bytes_to_list [code abstype]: "Abs_bytes (to_list b) = b"
  by (rule to_list_inverse)

lemma arr_to_list [simp]: "arr (to_list b) = b"
  by (simp add: arr_def to_list_inverse)

lemma to_list_arr_pad [code abstract]:
  "to_list (arr xs :: ('n::len) bytes) = take LENGTH('n) (xs @ replicate LENGTH('n) 0)"
  by (simp add: arr_def Abs_bytes_inverse)

lemma to_list_arr [simp]:
  "length xs = LENGTH('n) \<Longrightarrow> to_list (arr xs :: ('n::len) bytes) = xs"
  by (simp add: to_list_arr_pad)

lemma to_list_fill [simp, code abstract]: "to_list (fill b :: ('n::len) bytes) = replicate LENGTH('n) b"
  by (simp add: fill_def)

lemma bytes_eq_iff: "a = b \<longleftrightarrow> to_list a = to_list b"
  by (simp add: to_list_inject)

lemma fill_eq_iff [simp]: "(fill a :: ('n::len) bytes) = fill b \<longleftrightarrow> a = b"
  by (simp add: bytes_eq_iff replicate_eq_replicate)

instantiation bytes :: (len) zero
begin
definition zero_bytes_def: "0 = fill 0"
instance by standard
end

lemma to_list_zero [simp, code abstract]: "to_list (0 :: ('n::len) bytes) = replicate LENGTH('n) 0"
  by (simp add: zero_bytes_def)

lemma fill_eq_zero [simp]:
  "(fill b :: ('n::len) bytes) = 0 \<longleftrightarrow> b = 0"
  "(0 :: ('n::len) bytes) = fill b \<longleftrightarrow> b = 0"
  by (auto simp: zero_bytes_def)

instantiation bytes :: (len) equal
begin
definition equal_bytes :: "'a bytes \<Rightarrow> 'a bytes \<Rightarrow> bool" where
  "equal_bytes a b \<longleftrightarrow> to_list a = to_list b"
instance by standard (simp add: equal_bytes_def bytes_eq_iff)
end

instantiation bytes :: (len) linorder
begin
definition less_eq_bytes :: "'a bytes \<Rightarrow> 'a bytes \<Rightarrow> bool" where
  "less_eq_bytes a b \<longleftrightarrow> to_list a \<le> to_list b"
definition less_bytes :: "'a bytes \<Rightarrow> 'a bytes \<Rightarrow> bool" where
  "less_bytes a b \<longleftrightarrow> to_list a < to_list b"
instance
  by standard (auto simp: less_eq_bytes_def less_bytes_def bytes_eq_iff)
end

lemma fill_less_iff [simp]: "(fill a :: ('n::len) bytes) < fill b \<longleftrightarrow> a < b"
proof -
  have "replicate n a < replicate n b \<longleftrightarrow> a < b" if "0 < n" for n
    using that by (induction n) auto
  from this [of "LENGTH('n)"] show ?thesis by (simp add: less_bytes_def)
qed

section \<open>Little-endian integers\<close>

primrec le_bytes :: "nat \<Rightarrow> 'a::len word \<Rightarrow> byte list" where
  "le_bytes 0 w = []"
| "le_bytes (Suc n) w = ucast w # le_bytes n (drop_bit 8 w)"

primrec le_word :: "byte list \<Rightarrow> 'a::len word" where
  "le_word [] = 0"
| "le_word (b # bs) = ucast b OR push_bit 8 (le_word bs)"

lemma le_bytes_numeral:
  "le_bytes (numeral k) w = ucast w # le_bytes (pred_numeral k) (drop_bit 8 w)"
  by (simp add: numeral_eq_Suc)

lemma length_le_bytes [simp]: "length (le_bytes n w) = n"
  by (induction n arbitrary: w) auto

lemma le_word_le_bytes_take: "le_word (le_bytes n w) = take_bit (8 * n) w"
proof (induction n arbitrary: w)
  case 0
  then show ?case by simp
next
  case (Suc n)
  show ?case
    by (rule bit_word_eqI)
      (auto simp: Suc.IH bit_or_iff bit_push_bit_iff bit_take_bit_iff bit_drop_bit_eq
        bit_ucast_iff not_less)
qed

lemma le_word_le_bytes:
  "LENGTH('a::len) \<le> 8 * n \<Longrightarrow> le_word (le_bytes n (w :: 'a word)) = w"
  by (simp add: le_word_le_bytes_take take_bit_word_eq_self)

lemma le_word_le_bytes_sized [simp]:
  "le_word (le_bytes 2 (a :: u16)) = a"
  "le_word (le_bytes 4 (b :: u32)) = b"
  "le_word (le_bytes 8 (c :: u64)) = c"
  by (simp_all add: le_word_le_bytes)

lemma le_bytes_inj:
  assumes "LENGTH('a::len) \<le> 8 * n"
  shows "le_bytes n (v :: 'a word) = le_bytes n w \<longleftrightarrow> v = w"
  using assms by (metis le_word_le_bytes)

lemma le_bytes_inj_sized [simp]:
  "le_bytes 2 (a :: u16) = le_bytes 2 a' \<longleftrightarrow> a = a'"
  "le_bytes 4 (b :: u32) = le_bytes 4 b' \<longleftrightarrow> b = b'"
  "le_bytes 8 (c :: u64) = le_bytes 8 c' \<longleftrightarrow> c = c'"
  by (simp_all add: le_bytes_inj)

lemma drop_bit_le_word_Cons:
  assumes "8 * Suc (length bs) \<le> LENGTH('a::len)"
  shows "drop_bit 8 (le_word (b # bs) :: 'a word) = take_bit (LENGTH('a) - 8) (le_word bs)"
  by (rule bit_word_eqI) (use assms in
    \<open>auto simp: bit_or_iff bit_push_bit_iff bit_drop_bit_eq bit_take_bit_iff bit_ucast_iff
      dest: bit_imp_le_length\<close>)

lemma bit_le_word_bound:
  "bit (le_word bs :: 'a::len word) n \<Longrightarrow> n < 8 * length bs"
proof (induction bs arbitrary: n)
  case Nil
  then show ?case by simp
next
  case (Cons b bs)
  then show ?case
    by (auto simp: bit_or_iff bit_push_bit_iff bit_ucast_iff dest!: bit_imp_le_length Cons.IH)
qed

lemma le_bytes_le_word:
  assumes "length bs = n" and "8 * n \<le> LENGTH('a::len)"
  shows "le_bytes n (le_word bs :: 'a word) = bs"
  using assms
proof (induction bs arbitrary: n)
  case Nil
  then show ?case by simp
next
  case (Cons b bs)
  have "ucast (le_word (b # bs) :: 'a word) = b"
    by (rule bit_word_eqI) (use Cons.prems in
      \<open>auto simp: bit_ucast_iff bit_or_iff bit_push_bit_iff dest: bit_imp_le_length\<close>)
  moreover have "drop_bit 8 (le_word (b # bs) :: 'a word) = le_word bs"
    by (rule bit_word_eqI) (use Cons.prems in
      \<open>auto simp: bit_or_iff bit_push_bit_iff bit_drop_bit_eq bit_ucast_iff
        dest: bit_imp_le_length bit_le_word_bound\<close>)
  ultimately show ?case using Cons by auto
qed

section \<open>ASCII and base58 literals\<close>

definition ascii :: "string \<Rightarrow> byte list" where
  "ascii s = map of_char s"

lemma length_ascii [simp]: "length (ascii s) = length s"
  by (simp add: ascii_def)

definition base58_alphabet :: string where
  "base58_alphabet = ''123456789ABCDEFGHJKLMNPQRSTUVWXYZabcdefghijkmnopqrstuvwxyz''"

fun index_of :: "'a \<Rightarrow> 'a list \<Rightarrow> int" where
  "index_of x [] = 0"
| "index_of x (y # ys) = (if x = y then 0 else 1 + index_of x ys)"

fun base58_value :: "int \<Rightarrow> string \<Rightarrow> int" where
  "base58_value acc [] = acc"
| "base58_value acc (c # cs) = base58_value (58 * acc + index_of c base58_alphabet) cs"

primrec be_bytes_of_int :: "nat \<Rightarrow> int \<Rightarrow> byte list" where
  "be_bytes_of_int 0 v = []"
| "be_bytes_of_int (Suc n) v = be_bytes_of_int n (v div 256) @ [word_of_int (v mod 256)]"

text \<open>Anchor's \<open>pubkey!("...")\<close>: the base58 numeral as 32 big-endian bytes.\<close>

definition pubkey_of :: "string \<Rightarrow> pubkey" where
  "pubkey_of s = arr (be_bytes_of_int 32 (base58_value 0 s))"

end
