(* ===== verification/Vault_Types.thy ===== *)
theory Vault_Types
  imports Byte_Arrays
begin

text \<open>
  The accounts and errors of the program: \<open>state.rs\<close> and \<open>constants.rs\<close>. Structs are records with
  the source's fields in the source's order; a field name that several structs share carries a
  prefix (\<open>sr_\<close> SessionRegistration, \<open>sa_\<close> SessionAccount, \<open>lc_\<close> LockedClaim, \<open>sb_\<close> StandbyBacker,
  \<open>pw_\<close> PendingWithdrawal); the fields of \<open>Vault\<close> keep their names.
\<close>

section \<open>Errors\<close>

datatype vault_error =
    CoolingOffNotElapsed
  | PendingVouchersExist
  | NoPendingWithdrawal
  | PasskeyVerificationFailed
  | InvalidVoucherSignature
  | ForceReleaseTooEarly
  | NothingToRelease
  | UnsupportedVaultVersion
  | SessionAlreadyActive
  | SessionExpiryInPast
  | SessionCapZero
  | NoActiveSession
  | SessionPubkeyMismatch
  | RevolvingCapacityExceeded
  | RevolvingCapacityZero
  | LockRangeAlreadyClaimed
  | LockWouldOvercommitVault
  | WithdrawalWouldViolateReservation
  | SessionWouldOvercommitVault
  | SessionAccountsNotSorted
  | SessionAccountForeign
  | SessionAccountMisderived
  | IncompleteSessionSet
  | SessionCountAtMax
  | RecoveryBeforeMaturity
  | StandbyCapZero
  | CreditWouldExceedStandbyCap
  | WithdrawalWouldViolatePin
  | BorrowRecoveryTooEarly
  | NoStandbyBacker
  | NothingBorrowed
  | StandbyWouldExceedReserve
  | ReserveBelowPromised
  | ResizeBelowBorrowed
  | StandbyStillBorrowed
  | NoStandbyBackerLedger
  | StandbyBackerMismatch
  | FinancierConsentMissing
  | SessionAccountNotWritable
  | SessionStillLive
  | NotALegacyVault

text \<open>Failures raised before a handler runs (Anchor's account constraints) or by the runtime.\<close>

datatype anchor_error =
    ConstraintSeeds
  | ConstraintAddress
  | ConstraintOwner
  | AccountNotSigner
  | AccountNotInitialized
  | AccountAlreadyInUse

datatype program_error = InvalidArgument | BorshIoError

datatype error =
    VaultError vault_error
  | AnchorError anchor_error
  | ProgramError program_error
  | Panic \<comment> \<open>a Rust panic aborts the transaction\<close>

section \<open>Constants\<close>

definition VAULT_VERSION_V2 :: u8 where "VAULT_VERSION_V2 = 2"
definition VAULT_VERSION_V3 :: u8 where "VAULT_VERSION_V3 = 3"
definition VAULT_VERSION_V4 :: u8 where "VAULT_VERSION_V4 = 4"
definition VAULT_VERSION_V5 :: u8 where "VAULT_VERSION_V5 = 5"
definition VAULT_VERSION_V6 :: u8 where "VAULT_VERSION_V6 = 6"
definition SESSION_VERSION_V1 :: u8 where "SESSION_VERSION_V1 = 1"
definition LOCKED_CLAIM_VERSION_V1 :: u8 where "LOCKED_CLAIM_VERSION_V1 = 1"
definition STANDBY_BACKER_VERSION_V1 :: u8 where "STANDBY_BACKER_VERSION_V1 = 1"

lemmas version_defs [simp] =
  VAULT_VERSION_V2_def VAULT_VERSION_V3_def VAULT_VERSION_V4_def VAULT_VERSION_V5_def
  VAULT_VERSION_V6_def SESSION_VERSION_V1_def LOCKED_CLAIM_VERSION_V1_def
  STANDBY_BACKER_VERSION_V1_def

definition SWIG_PROGRAM_ID :: pubkey where
  "SWIG_PROGRAM_ID = pubkey_of ''swigypWHEksbC64pWKwah1WTeh9JXwx8H1rJHLdbQMB''"

definition PROGRAM_ID :: pubkey where \<comment> \<open>\<open>crate::ID\<close>, \<open>declare_id!\<close>\<close>
  "PROGRAM_ID = pubkey_of ''Hg3wRaydFtJhYrdvYrKECacpJYDsC9Px7yKmpncj2fhc''"

definition SWIG_WALLET_ADDRESS_SEED :: "byte list" where
  "SWIG_WALLET_ADDRESS_SEED = ascii ''swig-wallet-address''"

definition SESSION_SEED :: "byte list" where "SESSION_SEED = ascii ''session''"
definition LOCKED_CLAIM_SEED :: "byte list" where "LOCKED_CLAIM_SEED = ascii ''locked-claim''"
definition STANDBY_BACKER_SEED :: "byte list" where
  "STANDBY_BACKER_SEED = ascii ''standby-backer''"

section \<open>Accounts\<close>

record pending_withdrawal =
  pw_amount :: u64
  pw_destination :: pubkey
  pw_requested_at :: i64

record vault =
  version :: u8
  bump :: u8
  passkey_pubkey :: "33 bytes"
  swig_address :: pubkey
  cooling_off_seconds :: u32
  pending_voucher_count :: u32
  pending_withdrawal :: "pending_withdrawal option"
  identity_claim :: "32 bytes"
  dexter_authority :: pubkey
  live_session_count :: u8
  outstanding_locked_amount :: u64
  total_crystallized_amount :: u64
  total_settled_amount :: u64
  borrowed :: u64
  standby_backer :: "pubkey option"
  standby_cap :: u64
  borrow_recovery_at :: "i64 option"

record session_registration =
  sr_session_pubkey :: "32 bytes"
  sr_max_amount :: u64
  sr_expires_at :: i64
  sr_allowed_counterparty :: pubkey
  sr_nonce :: u32
  sr_spent :: u64
  sr_current_outstanding :: u64
  sr_max_revolving_capacity :: u64
  sr_crystallized_cumulative :: u64
  sr_last_locked_sequence :: u32

record session_account =
  sa_version :: u8
  sa_bump :: u8
  sa_vault :: pubkey
  sa_session :: session_registration

datatype locked_claim_status = Pending | Settled | Abandoned

record locked_claim =
  lc_version :: u8
  lc_bump :: u8
  lc_vault :: pubkey
  lc_session_pubkey_at_lock :: "32 bytes"
  lc_voucher_hash :: "32 bytes"
  lc_amount :: u64
  lc_created_at :: i64
  lc_maturity_at :: "i64 option"
  lc_holder_recovery_at :: "i64 option"
  lc_current_holder :: pubkey
  lc_status :: locked_claim_status
  lc_settled_at :: "i64 option"
  lc_recovered_at :: "i64 option"

datatype reserve_kind = Declared | Locked

record standby_backer_ledger = \<comment> \<open>the struct \<open>StandbyBacker\<close>\<close>
  sb_version :: u8
  sb_bump :: u8
  sb_financier_swig :: pubkey
  sb_committed_reserve :: u64
  sb_aggregate_promised :: u64
  sb_reserve_kind :: reserve_kind

text \<open>The zeroed registration that revoke and the expiry sweep write.\<close>

definition zero_registration :: session_registration where
  "zero_registration =
     \<lparr> sr_session_pubkey = 0, sr_max_amount = 0, sr_expires_at = 0,
       sr_allowed_counterparty = 0, sr_nonce = 0, sr_spent = 0, sr_current_outstanding = 0,
       sr_max_revolving_capacity = 0, sr_crystallized_cumulative = 0,
       sr_last_locked_sequence = 0 \<rparr>"

text \<open>An account \<open>init\<close> has just created: zero bytes after the discriminator.\<close>

definition fresh_session_account :: session_account where
  "fresh_session_account = \<lparr> sa_version = 0, sa_bump = 0, sa_vault = 0,
     sa_session = zero_registration \<rparr>"

definition fresh_standby_backer :: standby_backer_ledger where
  "fresh_standby_backer = \<lparr> sb_version = 0, sb_bump = 0, sb_financier_swig = 0,
     sb_committed_reserve = 0, sb_aggregate_promised = 0, sb_reserve_kind = Declared \<rparr>"

text \<open>The version gate of the instructions that any vault generation may run.\<close>

definition any_supported_version :: "u8 \<Rightarrow> bool" where
  "any_supported_version v \<longleftrightarrow>
     v = VAULT_VERSION_V6 \<or> v = VAULT_VERSION_V5 \<or> v = VAULT_VERSION_V4 \<or>
     v = VAULT_VERSION_V3 \<or> v = VAULT_VERSION_V2"

definition credit_version :: "u8 \<Rightarrow> bool" where
  "credit_version v \<longleftrightarrow> v = VAULT_VERSION_V5 \<or> v = VAULT_VERSION_V6"

end
