(* ===== verification/Host.thy ===== *)
theory Host
  imports Vault_Types
begin

text \<open>
  What the program takes from its surroundings. \<open>host\<close> holds the functions of code that is not in
  the repository (the SHA-256 syscall, the derivation of program addresses, the rent sysvar);
  definitions that use them take a \<open>host\<close> as an argument, and the laws of derivation are
  hypotheses of the theorems that need them. \<open>tx_env\<close> is one instruction's view of its transaction:
  the clock, the instructions sysvar, the signing keys and the SPL token accounts.
\<close>

record host =
  sha256 :: "byte list \<Rightarrow> 32 bytes"
  create_program_address :: "byte list list \<Rightarrow> pubkey \<Rightarrow> pubkey option"
  find_program_address :: "byte list list \<Rightarrow> pubkey \<Rightarrow> (pubkey \<times> u8) option"
  rent_minimum_balance :: "nat \<Rightarrow> u64"

record tx_instruction =
  ti_program_id :: pubkey
  ti_data :: "byte list"

record instructions_sysvar =
  current_index :: u16
  tx_instructions :: "tx_instruction list"

record token_account =
  ta_mint :: pubkey
  ta_owner :: pubkey
  ta_amount :: u64

record tx_env =
  now :: i64
  sysvar :: instructions_sysvar
  signers :: "pubkey list"
  tokens :: "pubkey \<Rightarrow> token_account option"

section \<open>Addresses\<close>

text \<open>
  Documented behaviour of address derivation. \<open>find_program_address\<close> returns a bump for which
  \<open>create_program_address\<close> succeeds, or finds none; \<open>create_program_address\<close> hashes the concatenated
  seeds, so distinct concatenations give distinct addresses (collision resistance) or none.
\<close>

definition find_create_law :: "host \<Rightarrow> bool" where
  "find_create_law h \<longleftrightarrow>
     (\<forall>seeds pid k b. find_program_address h seeds pid = Some (k, b) \<longrightarrow>
        create_program_address h (seeds @ [[b]]) pid = Some k)"

definition address_injective :: "host \<Rightarrow> bool" where
  "address_injective h \<longleftrightarrow>
     (\<forall>s s' pid k. create_program_address h s pid = Some k \<longrightarrow>
        create_program_address h s' pid = Some k \<longrightarrow> concat s = concat s')"

definition pda_laws :: "host \<Rightarrow> bool" where
  "pda_laws h \<longleftrightarrow> find_create_law h \<and> address_injective h"

text \<open>Anchor's \<open>seeds = [...], bump = stored\<close>: re-derive with the stored bump.\<close>

definition seeds_with_bump :: "host \<Rightarrow> byte list list \<Rightarrow> u8 \<Rightarrow> pubkey \<Rightarrow> bool" where
  "seeds_with_bump h seeds b k \<longleftrightarrow> create_program_address h (seeds @ [[b]]) PROGRAM_ID = Some k"

text \<open>Anchor's \<open>seeds = [...], bump\<close>: derive the canonical address, under another program for
  \<open>seeds::program\<close>.\<close>

definition seeds_canonical :: "host \<Rightarrow> byte list list \<Rightarrow> pubkey \<Rightarrow> pubkey \<Rightarrow> bool" where
  "seeds_canonical h seeds pid k \<longleftrightarrow>
     map_option fst (find_program_address h seeds pid) = Some k"

definition vault_seeds :: "32 bytes \<Rightarrow> byte list list" where
  "vault_seeds claim = [ascii ''vault'', take 16 (to_list claim)]"

definition session_seeds :: "pubkey \<Rightarrow> pubkey \<Rightarrow> byte list list" where
  "session_seeds vault_key counterparty =
     [SESSION_SEED, to_list vault_key, to_list counterparty]"

definition claim_seeds :: "pubkey \<Rightarrow> 32 bytes \<Rightarrow> byte list list" where
  "claim_seeds vault_key voucher_hash =
     [LOCKED_CLAIM_SEED, to_list vault_key, to_list voucher_hash]"

definition standby_seeds :: "pubkey \<Rightarrow> byte list list" where
  "standby_seeds financier = [STANDBY_BACKER_SEED, to_list financier]"

definition swig_wallet_seeds :: "pubkey \<Rightarrow> byte list list" where
  "swig_wallet_seeds swig = [SWIG_WALLET_ADDRESS_SEED, to_list swig]"

text \<open>The swig pair of accounts that several instructions carry: \<open>swig\<close> has the vault's recorded
  address and \<open>swig_wallet_address\<close> is derived from it under the Swig program.\<close>

definition check_swig_pair ::
  "host \<Rightarrow> pubkey \<Rightarrow> pubkey \<Rightarrow> pubkey \<Rightarrow> error + unit" where
  "check_swig_pair h recorded swig swig_wallet =
     require (swig = recorded) (AnchorError ConstraintAddress) (
     require (seeds_canonical h (swig_wallet_seeds swig) SWIG_PROGRAM_ID swig_wallet)
       (AnchorError ConstraintSeeds) (
     Inr ()))"

definition check_signer :: "tx_env \<Rightarrow> pubkey \<Rightarrow> error + unit" where
  "check_signer e k = require (k \<in> set (signers e)) (AnchorError AccountNotSigner) (Inr ())"

lemma check_swig_pair_eq_Inr [result_simps]:
  "check_swig_pair h r s w = Inr u \<longleftrightarrow>
     s = r \<and> seeds_canonical h (swig_wallet_seeds s) SWIG_PROGRAM_ID w"
  by (auto simp: check_swig_pair_def result_simps)

lemma check_signer_eq_Inr [result_simps]:
  "check_signer e k = Inr u \<longleftrightarrow> k \<in> set (signers e)"
  by (simp add: check_signer_def result_simps)

section \<open>Session addresses\<close>

lemma concat_session_seeds_eq:
  "concat (session_seeds v c @ [[b]]) = concat (session_seeds v' c' @ [[b']]) \<longleftrightarrow>
     v = v' \<and> c = c' \<and> b = b'"
  by (auto simp: session_seeds_def append_eq_append_conv bytes_eq_iff)

lemma session_address_inj:
  assumes "address_injective h"
    and "create_program_address h (session_seeds v c @ [[b]]) pid = Some k"
    and "create_program_address h (session_seeds v' c' @ [[b']]) pid = Some k"
  shows "v = v' \<and> c = c' \<and> b = b'"
  using assms unfolding address_injective_def by (metis concat_session_seeds_eq)

end
