(* ===== verification/Precompile.thy ===== *)
theory Precompile
  imports Host
begin

text \<open>
  Introspection of a signature precompile: \<open>verify/ed25519.rs\<close> and the function
  \<open>introspect_simd_0075\<close> of \<open>verify/webauthn.rs\<close>, which are the same code up to the program id, the
  length of the public key and the error. The lemmas say exactly when it accepts, that the data the
  precompile layout prescribes is accepted, and what it does and does not prove about who signed.
\<close>

section \<open>The instructions sysvar\<close>

definition load_instruction_at_checked :: "nat \<Rightarrow> instructions_sysvar \<Rightarrow> error + tx_instruction" where
  "load_instruction_at_checked i sv =
     (if i < length (tx_instructions sv) then Inr (tx_instructions sv ! i)
      else Inl (ProgramError InvalidArgument))"

text \<open>\<open>data[a..b]\<close> and \<open>data[i]\<close>: out of bounds they panic.\<close>

definition slice :: "nat \<Rightarrow> nat \<Rightarrow> 'a list \<Rightarrow> 'a list" where
  "slice a b xs = take (b - a) (drop a xs)"

lemma length_slice [simp]: "b \<le> length xs \<Longrightarrow> length (slice a b xs) = b - a"
  by (auto simp: slice_def min_def)

lemma slice_append_middle [simp]:
  "length pre = a \<Longrightarrow> length mid = b - a \<Longrightarrow> slice a b (pre @ mid @ post) = mid"
  by (simp add: slice_def)

definition index_range :: "nat \<Rightarrow> nat \<Rightarrow> 'a list \<Rightarrow> error + 'a list" where
  "index_range a b xs = (if a \<le> b \<and> b \<le> length xs then Inr (slice a b xs) else Inl Panic)"

definition index_at :: "'a list \<Rightarrow> nat \<Rightarrow> error + 'a" where
  "index_at xs i = (if i < length xs then Inr (xs ! i) else Inl Panic)"

lemma index_range_eq_Inr [result_simps]:
  "index_range a b xs = Inr ys \<longleftrightarrow> a \<le> b \<and> b \<le> length xs \<and> ys = slice a b xs"
  by (auto simp: index_range_def)

lemma index_at_eq_Inr [result_simps]: "index_at xs i = Inr x \<longleftrightarrow> i < length xs \<and> x = xs ! i"
  by (auto simp: index_at_def)

lemma index_range_eq_Inl: "index_range a b xs = Inl x \<longleftrightarrow> \<not> (a \<le> b \<and> b \<le> length xs) \<and> x = Panic"
  by (auto simp: index_range_def)

lemma index_at_eq_Inl: "index_at xs i = Inl x \<longleftrightarrow> \<not> i < length xs \<and> x = Panic"
  by (auto simp: index_at_def)

section \<open>The offsets structure\<close>

definition SIGNATURE_OFFSETS_SERIALIZED_SIZE :: nat where
  "SIGNATURE_OFFSETS_SERIALIZED_SIZE = 14"
definition DATA_START :: nat where "DATA_START = 2"

lemmas layout_defs [simp] = SIGNATURE_OFFSETS_SERIALIZED_SIZE_def DATA_START_def

record signature_offsets =
  so_signature_offset :: u16
  so_signature_instruction_index :: u16
  so_public_key_offset :: u16
  so_public_key_instruction_index :: u16
  so_message_data_offset :: u16
  so_message_data_size :: u16
  so_message_instruction_index :: u16

definition u16_at :: "byte list \<Rightarrow> nat \<Rightarrow> u16" where
  "u16_at off i = le_word [off ! i, off ! (i + 1)]"

definition parse_offsets :: "byte list \<Rightarrow> signature_offsets" where
  "parse_offsets off =
     \<lparr> so_signature_offset = u16_at off 0,
       so_signature_instruction_index = u16_at off 2,
       so_public_key_offset = u16_at off 4,
       so_public_key_instruction_index = u16_at off 6,
       so_message_data_offset = u16_at off 8,
       so_message_data_size = u16_at off 10,
       so_message_instruction_index = u16_at off 12 \<rparr>"

definition offsets_bytes :: "signature_offsets \<Rightarrow> byte list" where
  "offsets_bytes o' =
     le_bytes 2 (so_signature_offset o') @
     le_bytes 2 (so_signature_instruction_index o') @
     le_bytes 2 (so_public_key_offset o') @
     le_bytes 2 (so_public_key_instruction_index o') @
     le_bytes 2 (so_message_data_offset o') @
     le_bytes 2 (so_message_data_size o') @
     le_bytes 2 (so_message_instruction_index o')"

lemma length_offsets_bytes [simp]: "length (offsets_bytes o') = 14"
  by (simp add: offsets_bytes_def)

lemma u16_at_skip:
  "i < length pre \<Longrightarrow> i + 1 < length pre \<Longrightarrow> u16_at (pre @ post) i = u16_at pre i"
  by (simp add: u16_at_def nth_append)

lemma le_bytes_2: "le_bytes 2 (w :: u16) = [ucast w, ucast (drop_bit 8 w)]"
  by (simp add: le_bytes_numeral)

lemma le_word_2: "le_word [ucast w, ucast (drop_bit 8 w)] = (w :: u16)"
  using le_word_le_bytes_sized(1) [of w] by (simp add: le_bytes_2)

lemma parse_offsets_bytes [simp]: "parse_offsets (offsets_bytes o') = o'"
  by (simp add: parse_offsets_def offsets_bytes_def u16_at_def le_bytes_2 le_word_2
      del: le_word.simps)

section \<open>The check\<close>

definition introspect_precompile ::
  "pubkey \<Rightarrow> nat \<Rightarrow> error \<Rightarrow> instructions_sysvar \<Rightarrow> byte list \<Rightarrow> byte list \<Rightarrow> error + unit" where
  "introspect_precompile program pubkey_len err sv expected_pubkey expected_message =
     (let index = unat (current_index sv) in
      require (0 < index) err (
      bind_res (load_instruction_at_checked (index - 1) sv) (\<lambda>prev_ix.
      require (ti_program_id prev_ix = program) err (
      let data = ti_data prev_ix in
      require (DATA_START + SIGNATURE_OFFSETS_SERIALIZED_SIZE \<le> length data) err (
      bind_res (index_at data 0) (\<lambda>num_signatures.
      require (1 \<le> num_signatures) err (
      bind_res (index_range DATA_START (DATA_START + SIGNATURE_OFFSETS_SERIALIZED_SIZE) data)
        (\<lambda>off_bytes.
      let off = parse_offsets off_bytes;
          public_key_offset = unat (so_public_key_offset off);
          message_data_offset = unat (so_message_data_offset off);
          message_data_size = unat (so_message_data_size off) in
      require (so_signature_instruction_index off = so_public_key_instruction_index off \<and>
               so_public_key_instruction_index off = so_message_instruction_index off) err (
      require (public_key_offset + pubkey_len \<le> length data) err (
      require (message_data_offset + message_data_size \<le> length data) err (
      bind_res (index_range public_key_offset (public_key_offset + pubkey_len) data)
        (\<lambda>actual_pubkey.
      bind_res (index_range message_data_offset (message_data_offset + message_data_size) data)
        (\<lambda>actual_message.
      require (actual_pubkey = expected_pubkey) err (
      require (actual_message = expected_message) err (
      Inr ())))))))))))))))"

text \<open>What acceptance means, without the sysvar plumbing: the data of the previous instruction shows
  the key and the message at the offsets it names.\<close>

definition shows_key_and_message :: "nat \<Rightarrow> byte list \<Rightarrow> byte list \<Rightarrow> byte list \<Rightarrow> bool" where
  "shows_key_and_message pubkey_len data pk msg \<longleftrightarrow>
     16 \<le> length data \<and> 1 \<le> data ! 0 \<and>
     (let off = parse_offsets (slice 2 16 data);
          p = unat (so_public_key_offset off);
          m = unat (so_message_data_offset off);
          n = unat (so_message_data_size off) in
      so_signature_instruction_index off = so_public_key_instruction_index off \<and>
      so_public_key_instruction_index off = so_message_instruction_index off \<and>
      p + pubkey_len \<le> length data \<and> m + n \<le> length data \<and>
      slice p (p + pubkey_len) data = pk \<and> slice m (m + n) data = msg)"

definition previous_instruction :: "instructions_sysvar \<Rightarrow> tx_instruction option" where
  "previous_instruction sv =
     (let i = unat (current_index sv) in
      if 0 < i \<and> i - 1 < length (tx_instructions sv) then Some (tx_instructions sv ! (i - 1))
      else None)"

lemma introspect_precompile_eq_Inr [result_simps]:
  "introspect_precompile program n err sv pk msg = Inr u \<longleftrightarrow>
     (\<exists>ix. previous_instruction sv = Some ix \<and> ti_program_id ix = program \<and>
           shows_key_and_message n (ti_data ix) pk msg)"
  by (auto simp: introspect_precompile_def load_instruction_at_checked_def Let_def
      shows_key_and_message_def previous_instruction_def result_simps)

text \<open>With the previous instruction there, the only error is the caller's: the length checks cover
  every index, so none of them panics.\<close>

lemma introspect_precompile_eq_Inl:
  assumes "introspect_precompile program n err sv pk msg = Inl e"
  shows "e = err \<or> e = ProgramError InvalidArgument"
  using assms by (auto simp: introspect_precompile_def load_instruction_at_checked_def Let_def
      bind_res_eq_Inl require_eq_Inl index_range_eq_Inl index_at_eq_Inl result_simps
      split: if_splits)

section \<open>Ed25519\<close>

definition ED25519_VERIFY_PROGRAM_ID :: pubkey where
  "ED25519_VERIFY_PROGRAM_ID = pubkey_of ''Ed25519SigVerify111111111111111111111111111''"

definition verify_session_signed ::
  "instructions_sysvar \<Rightarrow> 32 bytes \<Rightarrow> byte list \<Rightarrow> error + unit" where
  "verify_session_signed sv expected_pubkey expected_message =
     introspect_precompile ED25519_VERIFY_PROGRAM_ID 32 (VaultError InvalidVoucherSignature)
       sv (to_list expected_pubkey) expected_message"

lemma verify_session_signed_eq_Inr [result_simps]:
  "verify_session_signed sv pk msg = Inr u \<longleftrightarrow>
     (\<exists>ix. previous_instruction sv = Some ix \<and> ti_program_id ix = ED25519_VERIFY_PROGRAM_ID \<and>
           shows_key_and_message 32 (ti_data ix) (to_list pk) msg)"
  by (simp add: verify_session_signed_def result_simps)

section \<open>Well-formed precompile data is accepted\<close>

text \<open>The layout in the header of \<open>ed25519.rs\<close>: count, padding, one offsets structure whose three
  instruction indices are \<open>ix\<close>, then key, signature and message.\<close>

definition layout_offsets :: "nat \<Rightarrow> u16 \<Rightarrow> nat \<Rightarrow> signature_offsets" where
  "layout_offsets n ix m =
     \<lparr> so_signature_offset = of_nat (16 + n),
       so_signature_instruction_index = ix,
       so_public_key_offset = 16,
       so_public_key_instruction_index = ix,
       so_message_data_offset = of_nat (80 + n),
       so_message_data_size = of_nat m,
       so_message_instruction_index = ix \<rparr>"

definition precompile_data :: "u16 \<Rightarrow> byte list \<Rightarrow> byte list \<Rightarrow> byte list \<Rightarrow> byte list" where
  "precompile_data ix pk sg msg =
     [1, 0] @ offsets_bytes (layout_offsets (length pk) ix (length msg)) @ pk @ sg @ msg"

lemma slice_offsets_precompile_data [simp]:
  "slice 2 16 (precompile_data ix pk sg msg)
     = offsets_bytes (layout_offsets (length pk) ix (length msg))"
  unfolding precompile_data_def by (rule slice_append_middle) simp_all

lemma unat_of_nat_u16: "k < 65536 \<Longrightarrow> unat (of_nat k :: u16) = k"
  by (simp add: unsigned_of_nat take_bit_nat_eq_self)

lemma slice_key_precompile_data:
  "slice 16 (16 + length pk) (precompile_data ix pk sg msg) = pk"
  using slice_append_middle
    [of "[1, 0] @ offsets_bytes (layout_offsets (length pk) ix (length msg))" 16 pk
        "16 + length pk" "sg @ msg"]
  by (simp add: precompile_data_def)

lemma slice_message_precompile_data:
  assumes "length sg = 64"
  shows "slice (80 + length pk) (80 + length pk + length msg) (precompile_data ix pk sg msg) = msg"
  using assms slice_append_middle
    [of "[1, 0] @ offsets_bytes (layout_offsets (length pk) ix (length msg)) @ pk @ sg"
        "80 + length pk" msg "80 + length pk + length msg" "[]"]
  by (simp add: precompile_data_def)

lemma slice_signature_precompile_data:
  assumes "length sg = 64"
  shows "slice (16 + length pk) (16 + length pk + 64) (precompile_data ix pk sg msg) = sg"
  using assms slice_append_middle
    [of "[1, 0] @ offsets_bytes (layout_offsets (length pk) ix (length msg)) @ pk"
        "16 + length pk" sg "16 + length pk + 64" msg]
  by (simp add: precompile_data_def)

lemma length_precompile_data [simp]:
  "length (precompile_data ix pk sg msg) = 16 + length pk + length sg + length msg"
  by (simp add: precompile_data_def)

lemma precompile_data_nth_0 [simp]: "precompile_data ix pk sg msg ! 0 = 1"
  by (simp add: precompile_data_def)

lemma precompile_data_shows:
  assumes "length sg = 64" and "80 + length pk + length msg < 65536"
  shows "shows_key_and_message (length pk) (precompile_data ix pk sg msg) pk msg"
  using assms
  by (simp add: shows_key_and_message_def Let_def layout_offsets_def unat_of_nat_u16
      slice_key_precompile_data slice_message_precompile_data del: of_nat_add)

section \<open>Who signed\<close>

text \<open>
  The runtime admits a transaction only if each precompile instruction verified. Documented
  behaviour: an instruction index of \<open>0xFFFF\<close> names the precompile instruction itself, any other
  index names that instruction of the transaction, and signature, key and message are read from the
  data of the instruction their own index names. \<open>valid\<close> is the signature scheme.
\<close>

definition data_at :: "tx_instruction list \<Rightarrow> nat \<Rightarrow> u16 \<Rightarrow> byte list option" where
  "data_at txs self ix =
     (let i = (if ix = 0xFFFF then self else unat ix) in
      if i < length txs then Some (ti_data (txs ! i)) else None)"

definition first_signature_verified ::
  "(byte list \<Rightarrow> byte list \<Rightarrow> byte list \<Rightarrow> bool) \<Rightarrow> nat \<Rightarrow> tx_instruction list \<Rightarrow> nat \<Rightarrow> bool" where
  "first_signature_verified valid n txs self \<longleftrightarrow>
     (let off = parse_offsets (slice 2 16 (ti_data (txs ! self)));
          s = unat (so_signature_offset off);
          p = unat (so_public_key_offset off);
          m = unat (so_message_data_offset off) in
      case (data_at txs self (so_signature_instruction_index off),
            data_at txs self (so_public_key_instruction_index off),
            data_at txs self (so_message_instruction_index off)) of
        (Some ds, Some dp, Some dm) \<Rightarrow>
          valid (slice p (p + n) dp) (slice m (m + unat (so_message_data_size off)) dm)
            (slice s (s + 64) ds)
      | _ \<Rightarrow> False)"

text \<open>Which instruction the first offsets structure of the previous instruction reads.\<close>

definition reads_own_data :: "instructions_sysvar \<Rightarrow> bool" where
  "reads_own_data sv \<longleftrightarrow>
     (case previous_instruction sv of
        None \<Rightarrow> False
      | Some ix \<Rightarrow>
          let k = so_public_key_instruction_index (parse_offsets (slice 2 16 (ti_data ix)))
          in k = 0xFFFF \<or> unat k = unat (current_index sv) - 1)"

lemma introspect_sound:
  assumes ok: "introspect_precompile program n err sv pk msg = Inr ()"
    and own: "reads_own_data sv"
    and ver: "first_signature_verified valid n (tx_instructions sv) (unat (current_index sv) - 1)"
  shows "\<exists>sg. valid pk msg sg"
proof -
  from ok obtain ix where prev: "previous_instruction sv = Some ix"
    and shown: "shows_key_and_message n (ti_data ix) pk msg"
    by (auto simp: result_simps)
  define self where "self = unat (current_index sv) - 1"
  from prev have self: "self < length (tx_instructions sv)" "tx_instructions sv ! self = ix"
    by (auto simp: previous_instruction_def Let_def self_def split: if_splits)
  define k where "k = so_public_key_instruction_index (parse_offsets (slice 2 16 (ti_data ix)))"
  from own prev have "k = 0xFFFF \<or> unat k = self"
    by (simp add: reads_own_data_def self_def k_def Let_def)
  with self have data: "data_at (tx_instructions sv) self k = Some (ti_data ix)"
    by (auto simp: data_at_def)
  from ver [folded self_def] shown data self(2) show ?thesis
    by (auto simp: first_signature_verified_def shows_key_and_message_def Let_def k_def)
qed

text \<open>
  The check compares the three instruction indices with each other but not with the precompile
  instruction itself, so they may all name another instruction. \<open>smuggled_sysvar\<close> is such a
  transaction: instruction 0 carries one party's key, signature and message, the precompile at
  index 1 verifies those (its indices are 0) while its own data shows any other key and message,
  and the program runs at index 2.
\<close>

definition smuggled_sysvar ::
  "pubkey \<Rightarrow> byte list \<Rightarrow> byte list \<Rightarrow> byte list \<Rightarrow> byte list \<Rightarrow> byte list \<Rightarrow> instructions_sysvar"
  where
  "smuggled_sysvar program pk msg pk' msg' sg =
     \<lparr> current_index = 2,
       tx_instructions =
         [ \<lparr> ti_program_id = 0, ti_data = precompile_data 0 pk' sg msg' \<rparr>,
           \<lparr> ti_program_id = program, ti_data = precompile_data 0 pk sg msg \<rparr>,
           \<lparr> ti_program_id = PROGRAM_ID, ti_data = [] \<rparr> ] \<rparr>"

lemma previous_smuggled [simp]:
  "previous_instruction (smuggled_sysvar program pk msg pk' msg' sg) =
     Some \<lparr> ti_program_id = program, ti_data = precompile_data 0 pk sg msg \<rparr>"
  by (simp add: previous_instruction_def smuggled_sysvar_def Let_def)

lemma smuggled_verified:
  assumes "valid pk' msg' sg" and "length pk' = length pk" and "length msg' = length msg"
    and "length sg = 64" and "80 + length pk + length msg < 65536"
  shows "first_signature_verified valid (length pk)
           (tx_instructions (smuggled_sysvar program pk msg pk' msg' sg)) 1"
  using assms slice_key_precompile_data [of pk' 0 sg msg']
    slice_message_precompile_data [of sg pk' msg' 0]
    slice_signature_precompile_data [of sg pk' 0 msg']
  by (simp add: first_signature_verified_def smuggled_sysvar_def Let_def data_at_def
      layout_offsets_def unat_of_nat_u16 del: of_nat_add)

end
