(* ===== verification/Webauthn.thy ===== *)
theory Webauthn
  imports Precompile "HOL-Library.While_Combinator"
begin

text \<open>
  \<open>verify/webauthn.rs\<close>: the passkey check that authorizes the buyer's instructions. The precompile
  introspection is in \<open>Precompile\<close>; here are the scanner that finds the challenge in
  \<open>clientDataJSON\<close>, the base64url decoder, their reference specifications, and the check itself.
\<close>

section \<open>base64url\<close>

datatype b64_char = Sextet u32 | Padding | Invalid

text \<open>The \<open>match b\<close> of the decoder, arm by arm.\<close>

definition b64_value :: "byte \<Rightarrow> b64_char" where
  "b64_value b =
     (if 65 \<le> b \<and> b \<le> 90 then Sextet (ucast (b - 65))
      else if 97 \<le> b \<and> b \<le> 122 then Sextet (ucast (b - 97 + 26))
      else if 48 \<le> b \<and> b \<le> 57 then Sextet (ucast (b - 48 + 52))
      else if b = 45 then Sextet 62
      else if b = 95 then Sextet 63
      else if b = 61 then Padding
      else Invalid)"

text \<open>The loop: \<open>buf\<close> is a \<open>u32\<close> whose high bits fall out, \<open>bits\<close> stays below 8 between rounds.\<close>

fun b64_loop :: "u32 \<Rightarrow> nat \<Rightarrow> byte list \<Rightarrow> byte list \<Rightarrow> error + byte list" where
  "b64_loop buf bits out [] = Inr out"
| "b64_loop buf bits out (b # input) =
     (case b64_value b of
        Padding \<Rightarrow> Inr out
      | Invalid \<Rightarrow> Inl (VaultError PasskeyVerificationFailed)
      | Sextet v \<Rightarrow>
          let buf = push_bit 6 buf OR v; bits = bits + 6 in
          if 8 \<le> bits
          then b64_loop buf (bits - 8) (out @ [ucast (drop_bit (bits - 8) buf AND 0xFF)]) input
          else b64_loop buf bits out input)"

definition base64url_decode :: "byte list \<Rightarrow> error + byte list" where
  "base64url_decode input = b64_loop 0 0 [] input"

text \<open>The reference: RFC 4648 base64url without padding.\<close>

definition b64_alphabet :: string where
  "b64_alphabet = ''ABCDEFGHIJKLMNOPQRSTUVWXYZabcdefghijklmnopqrstuvwxyz0123456789-_''"

definition b64_digit :: "u32 \<Rightarrow> byte" where
  "b64_digit v = of_char (b64_alphabet ! unat v)"

text \<open>The four sextets of three bytes.\<close>

definition sextet_0 :: "byte \<Rightarrow> u32" where "sextet_0 a = drop_bit 2 (ucast a)"
definition sextet_1 :: "byte \<Rightarrow> byte \<Rightarrow> u32" where
  "sextet_1 a b = push_bit 4 (ucast a AND 3) OR drop_bit 4 (ucast b)"
definition sextet_2 :: "byte \<Rightarrow> byte \<Rightarrow> u32" where
  "sextet_2 b c = push_bit 2 (ucast b AND 15) OR drop_bit 6 (ucast c)"
definition sextet_3 :: "byte \<Rightarrow> u32" where "sextet_3 c = ucast c AND 63"

fun base64url_encode :: "byte list \<Rightarrow> byte list" where
  "base64url_encode [] = []"
| "base64url_encode [a] = map b64_digit [sextet_0 a, sextet_1 a 0]"
| "base64url_encode [a, b] = map b64_digit [sextet_0 a, sextet_1 a b, sextet_2 b 0]"
| "base64url_encode (a # b # c # rest) =
     map b64_digit [sextet_0 a, sextet_1 a b, sextet_2 b c, sextet_3 c] @ base64url_encode rest"

lemma b64_value_digits:
  "list_all (\<lambda>n. b64_value (b64_digit (of_nat n)) = Sextet (of_nat n)) [0..<64]"
  by code_simp

lemma b64_value_digit:
  assumes "v < 64"
  shows "b64_value (b64_digit v) = Sextet v"
proof -
  from assms have "unat v < 64" by (simp add: word_less_nat_alt)
  with b64_value_digits show ?thesis
    by (force simp: list_all_iff dest: bspec [of _ _ "unat v"])
qed

lemma less_64I:
  fixes v :: u32
  assumes "\<And>n. bit v n \<Longrightarrow> n < 6"
  shows "v < 64"
proof -
  have "v = take_bit 6 v"
    by (rule bit_word_eqI) (auto simp: bit_take_bit_iff dest: assms)
  then have "unat v = take_bit 6 (unat v)" by (metis unsigned_take_bit_eq)
  also have "\<dots> < 2 ^ 6" by (rule take_bit_nat_less_exp)
  finally show ?thesis by (simp add: word_less_nat_alt)
qed

lemma mask_numerals:
  "x AND 3 = take_bit 2 (x :: 'a::len word)"
  "x AND 15 = take_bit 4 x"
  "x AND 63 = take_bit 6 x"
  "x AND 255 = take_bit 8 x"
  by (simp_all add: take_bit_eq_mask mask_eq_exp_minus_1)

lemmas bit_word_simps = mask_numerals bit_or_iff bit_and_iff bit_push_bit_iff bit_drop_bit_eq
  bit_take_bit_iff bit_ucast_iff

lemmas sextet_defs = sextet_0_def sextet_1_def sextet_2_def sextet_3_def

lemma sextet_bounds [simp]:
  "sextet_0 a < 64" "sextet_1 a b < 64" "sextet_2 b c < 64" "sextet_3 c < 64"
  by (rule less_64I; auto simp: sextet_defs bit_word_simps dest!: bit_imp_le_length)+

lemma bit_sextets:
  "bit (sextet_0 a) n \<longleftrightarrow> bit a (2 + n)"
  "bit (sextet_1 a b) n \<longleftrightarrow> (4 \<le> n \<and> n < 6 \<and> bit a (n - 4)) \<or> bit b (4 + n)"
  "bit (sextet_2 b c) n \<longleftrightarrow> (2 \<le> n \<and> n < 6 \<and> bit b (n - 2)) \<or> bit c (6 + n)"
  "bit (sextet_3 c) n \<longleftrightarrow> n < 6 \<and> bit c n"
  by (auto simp: sextet_defs bit_word_simps add.commute dest: bit_imp_le_length)

lemma sextets_bytes:
  fixes a b c :: byte and buf :: u32
  shows "ucast (drop_bit 4 (push_bit 6 (push_bit 6 buf OR sextet_0 a) OR sextet_1 a b) AND 0xFF)
           = a"
    and "ucast (drop_bit 2 (push_bit 6 (push_bit 6 buf OR sextet_1 a b) OR sextet_2 b c) AND 0xFF)
           = b"
    and "ucast ((push_bit 6 (push_bit 6 buf OR sextet_2 b c) OR sextet_3 c) AND 0xFF) = c"
proof -
  have pred2: "2 \<le> n \<Longrightarrow> Suc (Suc (n - 2)) = n" for n :: nat by arith
  note bits = bit_word_simps bit_sextets
  show "ucast (drop_bit 4 (push_bit 6 (push_bit 6 buf OR sextet_0 a) OR sextet_1 a b) AND 0xFF)
           = a"
    by (rule bit_word_eqI)
      (auto simp: bits pred2 not_less dest: bit_imp_le_length, metis pred2 not_less)
  show "ucast (drop_bit 2 (push_bit 6 (push_bit 6 buf OR sextet_1 a b) OR sextet_2 b c) AND 0xFF)
           = b"
    by (rule bit_word_eqI)
      (auto simp: bits pred2 not_less dest: bit_imp_le_length)
  show "ucast ((push_bit 6 (push_bit 6 buf OR sextet_2 b c) OR sextet_3 c) AND 0xFF) = c"
    by (rule bit_word_eqI)
      (auto simp: bits pred2 not_less dest: bit_imp_le_length)
qed

lemmas sextets_bytes_simps = sextets_bytes [simplified]

text \<open>A whole group of four digits leaves the loop aligned, whatever the buffer holds.\<close>

lemma b64_loop_group:
  "\<exists>buf'. b64_loop buf 0 out (base64url_encode (a # b # c # rest)) =
     b64_loop buf' 0 (out @ [a, b, c]) (base64url_encode rest)"
  by (simp add: b64_value_digit sextets_bytes_simps Let_def exI)

lemma b64_loop_encode: "b64_loop buf 0 out (base64url_encode bs) = Inr (out @ bs)"
proof (induction bs arbitrary: buf out rule: base64url_encode.induct)
  case (4 a b c rest)
  from b64_loop_group obtain buf' where
    "b64_loop buf 0 out (base64url_encode (a # b # c # rest)) =
       b64_loop buf' 0 (out @ [a, b, c]) (base64url_encode rest)" by blast
  then show ?case by (simp only: "4.IH") simp
qed (simp_all add: b64_value_digit sextets_bytes_simps Let_def)

lemma base64url_decode_encode: "base64url_decode (base64url_encode bs) = Inr bs"
  by (simp add: base64url_decode_def b64_loop_encode)

lemma b64_digits_not_quote:
  "list_all (\<lambda>n. b64_digit (of_nat n) \<noteq> 34) [0..<64]"
  by code_simp

lemma b64_digit_not_quote: "v < 64 \<Longrightarrow> b64_digit v \<noteq> 34"
  using b64_digits_not_quote
  by (force simp: list_all_iff word_less_nat_alt dest: bspec [of _ _ "unat v"])

lemma quote_notin_encode: "34 \<notin> set (base64url_encode bs)"
  by (induction bs rule: base64url_encode.induct)
    (auto simp: b64_digit_not_quote [THEN not_sym])

section \<open>Finding the challenge\<close>

definition CHALLENGE_KEY :: "byte list" where
  \<open>CHALLENGE_KEY = ascii ''"challenge":"''\<close>

lemma length_CHALLENGE_KEY [simp]: "length CHALLENGE_KEY = 13"
  by (simp add: CHALLENGE_KEY_def)

text \<open>The first loop: the position after the first occurrence of the key at or after \<open>i\<close>.\<close>

function find_challenge_key :: "byte list \<Rightarrow> nat \<Rightarrow> nat option" where
  "find_challenge_key data i =
     (if length data < i + length CHALLENGE_KEY then None
      else if slice i (i + length CHALLENGE_KEY) data = CHALLENGE_KEY
      then Some (i + length CHALLENGE_KEY)
      else find_challenge_key data (Suc i))"
  by pat_completeness auto
termination
  by (relation "measure (\<lambda>(data, i). Suc (length data) - i)") auto

declare find_challenge_key.simps [simp del]

text \<open>The second loop: the next quote at or after \<open>j\<close>, or the end.\<close>

function scan_to_quote :: "byte list \<Rightarrow> nat \<Rightarrow> nat" where
  "scan_to_quote data j =
     (if j < length data \<and> data ! j \<noteq> 34 then scan_to_quote data (Suc j) else j)"
  by pat_completeness auto
termination
  by (relation "measure (\<lambda>(data, j). length data - j)") auto

declare scan_to_quote.simps [simp del]

definition extract_challenge_from_client_data :: "byte list \<Rightarrow> error + byte list" where
  "extract_challenge_from_client_data data =
     bind_res (ok_or (find_challenge_key data 0) (VaultError PasskeyVerificationFailed))
       (\<lambda>key_pos.
         let j = scan_to_quote data key_pos in
         require (j < length data) (VaultError PasskeyVerificationFailed)
           (bind_res (index_range key_pos j data) base64url_decode))"

definition key_at :: "byte list \<Rightarrow> nat \<Rightarrow> bool" where
  "key_at data i \<longleftrightarrow> i + 13 \<le> length data \<and> slice i (i + 13) data = CHALLENGE_KEY"

lemma find_challenge_key_eq_Some:
  "find_challenge_key data i = Some p \<longleftrightarrow>
     (\<exists>k\<ge>i. p = k + 13 \<and> key_at data k \<and> (\<forall>j. i \<le> j \<and> j < k \<longrightarrow> \<not> key_at data j))"
proof (induction data i rule: find_challenge_key.induct)
  case (1 data i)
  consider (over) "length data < i + 13" | (hit) "key_at data i"
    | (miss) "\<not> length data < i + 13" "\<not> key_at data i" by blast
  then show ?case
  proof cases
    case over
    then show ?thesis
      by (subst find_challenge_key.simps) (auto simp: key_at_def)
  next
    case hit
    then show ?thesis
      by (subst find_challenge_key.simps) (auto simp: key_at_def not_less dest: le_neq_implies_less)
  next
    case miss
    then have "find_challenge_key data i = find_challenge_key data (Suc i)"
      by (subst find_challenge_key.simps) (auto simp: key_at_def)
    moreover have "(\<forall>j. i \<le> j \<and> j < k \<longrightarrow> \<not> key_at data j) \<longleftrightarrow>
        (\<forall>j. Suc i \<le> j \<and> j < k \<longrightarrow> \<not> key_at data j)" for k
      using miss(2) by (metis Suc_leD le_eq_less_or_eq Suc_leI)
    moreover have "i \<le> k \<and> key_at data k \<longleftrightarrow> Suc i \<le> k \<and> key_at data k" for k
      using miss(2) by (metis Suc_leD le_eq_less_or_eq Suc_leI)
    moreover have "find_challenge_key data (Suc i) = Some p \<longleftrightarrow>
        (\<exists>k\<ge>Suc i. p = k + 13 \<and> key_at data k \<and>
           (\<forall>j. Suc i \<le> j \<and> j < k \<longrightarrow> \<not> key_at data j))"
      using "1.IH" miss by (simp add: key_at_def)
    ultimately show ?thesis by metis
  qed
qed

lemma scan_to_quote_spec:
  assumes "j \<le> length data"
  shows "j \<le> scan_to_quote data j \<and> scan_to_quote data j \<le> length data \<and>
    (\<forall>k. j \<le> k \<and> k < scan_to_quote data j \<longrightarrow> data ! k \<noteq> 34) \<and>
    (scan_to_quote data j < length data \<longrightarrow> data ! scan_to_quote data j = 34)"
  using assms
proof (induction data j rule: scan_to_quote.induct)
  case (1 data j)
  show ?case
  proof (cases "j < length data \<and> data ! j \<noteq> 34")
    case True
    then have eq: "scan_to_quote data j = scan_to_quote data (Suc j)"
      by (simp add: scan_to_quote.simps [of data j])
    have "j \<le> k \<longleftrightarrow> k = j \<or> Suc j \<le> k" for k by auto
    with True "1.IH" show ?thesis by (auto simp: eq)
  next
    case False
    with "1.prems" show ?thesis by (auto simp: scan_to_quote.simps [of data j])
  qed
qed

lemma scan_to_quote_eqI:
  assumes "j \<le> m" and "m < length data" and "data ! m = 34"
    and "\<And>k. j \<le> k \<Longrightarrow> k < m \<Longrightarrow> data ! k \<noteq> 34"
  shows "scan_to_quote data j = m"
proof -
  from assms(1,2) scan_to_quote_spec [of j data]
  have spec: "j \<le> scan_to_quote data j"
      "\<forall>k. j \<le> k \<and> k < scan_to_quote data j \<longrightarrow> data ! k \<noteq> 34"
      "scan_to_quote data j < length data \<longrightarrow> data ! scan_to_quote data j = 34"
    by auto
  then have "\<not> scan_to_quote data j < m" "\<not> m < scan_to_quote data j"
    using assms by auto
  then show ?thesis by simp
qed

lemma scan_to_quote_append:
  assumes "34 \<notin> set enc"
  shows "scan_to_quote (pre @ enc @ 34 # post) (length pre) = length pre + length enc"
  using assms by (intro scan_to_quote_eqI) (auto simp: nth_append dest: nth_mem)

text \<open>The reference specification: the text between the first key and the next quote is decoded.\<close>

definition challenge_field :: "byte list \<Rightarrow> byte list \<Rightarrow> bool" where
  "challenge_field data enc \<longleftrightarrow>
     (\<exists>pre post. data = pre @ CHALLENGE_KEY @ enc @ 34 # post \<and> 34 \<notin> set enc \<and>
        (\<forall>i < length pre. \<not> key_at data i))"

lemma find_challenge_key_append:
  assumes "data = pre @ CHALLENGE_KEY @ rest" and "\<forall>i < length pre. \<not> key_at data i"
  shows "find_challenge_key data 0 = Some (length pre + 13)"
proof -
  have "key_at data (length pre)"
    using slice_append_middle [of pre "length pre" CHALLENGE_KEY "length pre + 13" rest]
    by (simp add: assms(1) key_at_def)
  with assms(2) show ?thesis by (auto simp: find_challenge_key_eq_Some)
qed

lemma extract_challenge_field:
  assumes "challenge_field data enc"
  shows "extract_challenge_from_client_data data = base64url_decode enc"
proof -
  from assms obtain pre post where data: "data = pre @ CHALLENGE_KEY @ enc @ 34 # post"
    and q: "34 \<notin> set enc" and first: "\<forall>i < length pre. \<not> key_at data i"
    by (auto simp: challenge_field_def)
  from data first have k: "find_challenge_key data 0 = Some (length pre + 13)"
    by (rule find_challenge_key_append)
  have j: "scan_to_quote data (length pre + 13) = length pre + 13 + length enc"
    using scan_to_quote_append [OF q, of "pre @ CHALLENGE_KEY" post] by (simp add: data add.assoc)
  have "slice (length pre + 13) (length pre + 13 + length enc) data = enc"
    using slice_append_middle [of "pre @ CHALLENGE_KEY" "length pre + 13" enc
      "length pre + 13 + length enc" "34 # post"] by (simp add: data)
  with k j show ?thesis
    by (simp add: extract_challenge_from_client_data_def Let_def data index_range_def)
qed

lemma extract_challenge_eq_Inr:
  "extract_challenge_from_client_data data = Inr bs \<longleftrightarrow>
     (\<exists>enc. challenge_field data enc \<and> base64url_decode enc = Inr bs)"
proof
  assume "extract_challenge_from_client_data data = Inr bs"
  then obtain k where k: "key_at data k" "\<forall>i<k. \<not> key_at data i"
    and j: "scan_to_quote data (k + 13) < length data"
    and dec: "base64url_decode (slice (k + 13) (scan_to_quote data (k + 13)) data) = Inr bs"
    by (auto simp: extract_challenge_from_client_data_def Let_def result_simps
        find_challenge_key_eq_Some)
  define j where "j = scan_to_quote data (k + 13)"
  define enc where "enc = slice (k + 13) j data"
  have j_spec: "k + 13 \<le> j" "j < length data" "data ! j = 34"
      "\<forall>i. k + 13 \<le> i \<and> i < j \<longrightarrow> data ! i \<noteq> 34"
    using scan_to_quote_spec [of "k + 13" data] k(1) j by (auto simp: j_def key_at_def)
  have "34 \<notin> set enc"
    using j_spec by (auto simp: enc_def slice_def in_set_conv_nth)
  moreover have "data = take k data @ CHALLENGE_KEY @ enc @ 34 # drop (Suc j) data"
  proof -
    have "data = take k data @ take 13 (drop k data) @ drop (k + 13) data"
      by (metis append_take_drop_id drop_drop add.commute)
    also have "take 13 (drop k data) = CHALLENGE_KEY"
      using k(1) by (simp add: key_at_def slice_def)
    also have "drop (k + 13) data = enc @ drop j data"
      using j_spec(1) unfolding enc_def slice_def
      by (metis append_take_drop_id drop_drop le_add_diff_inverse2)
    also have "drop j data = 34 # drop (Suc j) data"
      using j_spec(2,3) by (metis Cons_nth_drop_Suc)
    finally show ?thesis .
  qed
  moreover have "length (take k data) = k" using k(1) by (simp add: key_at_def)
  ultimately have "challenge_field data enc"
    using k(2) unfolding challenge_field_def by metis
  with dec show "\<exists>enc. challenge_field data enc \<and> base64url_decode enc = Inr bs"
    by (auto simp: enc_def j_def)
qed (auto simp: extract_challenge_field)

section \<open>The two loops as the source runs them\<close>

text \<open>The recursive functions above against the loops over an index: the first one ends by \<open>break\<close>
  with a position or by an early \<open>return\<close>, the second one when its condition fails.\<close>

datatype key_scan = Scanning nat | Found nat | Missing

fun scanning :: "key_scan \<Rightarrow> bool" where
  "scanning (Scanning i) = True"
| "scanning _ = False"

fun key_step :: "byte list \<Rightarrow> key_scan \<Rightarrow> key_scan" where
  "key_step data (Scanning i) =
     (if length data < i + length CHALLENGE_KEY then Missing
      else if slice i (i + length CHALLENGE_KEY) data = CHALLENGE_KEY
      then Found (i + length CHALLENGE_KEY)
      else Scanning (i + 1))"
| "key_step data s = s"

definition key_loop :: "byte list \<Rightarrow> key_scan option" where
  "key_loop data = while_option scanning (key_step data) (Scanning 0)"

definition quote_loop :: "byte list \<Rightarrow> nat \<Rightarrow> nat option" where
  "quote_loop data = while_option (\<lambda>j. j < length data \<and> data ! j \<noteq> 34) (\<lambda>j. j + 1)"

lemma key_loop_from:
  "while_option scanning (key_step data) (Scanning i) =
     Some (case find_challenge_key data i of None \<Rightarrow> Missing | Some p \<Rightarrow> Found p)"
proof (induction data i rule: find_challenge_key.induct)
  case (1 data i)
  then show ?case
    by (subst while_option_unfold, subst find_challenge_key.simps)
      (auto simp: while_option_unfold [of _ _ Missing] while_option_unfold [of _ _ "Found _"])
qed

lemma quote_loop_eq: "quote_loop data j = Some (scan_to_quote data j)"
  unfolding quote_loop_def
proof (induction data j rule: scan_to_quote.induct)
  case (1 data j)
  then show ?case by (subst while_option_unfold, subst scan_to_quote.simps) auto
qed

lemma key_loop_steps:
  "\<exists>n \<le> Suc (length data - i). \<not> scanning ((key_step data ^^ n) (Scanning i))"
proof (induction "length data - i" arbitrary: i)
  case 0
  then show ?case by (intro exI [of _ 1]) simp
next
  case (Suc m)
  then obtain n where n: "n \<le> Suc m" "\<not> scanning ((key_step data ^^ n) (Scanning (i + 1)))"
    by (metis Suc_diff_Suc Suc_eq_plus1 diff_Suc_1 zero_less_Suc zero_less_diff)
  show ?case
  proof (cases "key_step data (Scanning i) = Scanning (i + 1)")
    case True
    with n Suc.hyps(2) show ?thesis
      by (intro exI [of _ "Suc n"]) (simp add: funpow_Suc_right del: funpow.simps key_step.simps)
  next
    case False
    then show ?thesis by (intro exI [of _ 1]) (auto split: if_splits)
  qed
qed

section \<open>The check\<close>

definition SECP256R1_VERIFY_PROGRAM_ID :: pubkey where
  "SECP256R1_VERIFY_PROGRAM_ID = pubkey_of ''Secp256r1SigVerify1111111111111111111111111''"

definition AUTH_DATA_MIN_LEN :: nat where "AUTH_DATA_MIN_LEN = 37"

definition introspect_simd_0075 ::
  "instructions_sysvar \<Rightarrow> 33 bytes \<Rightarrow> byte list \<Rightarrow> error + unit" where
  "introspect_simd_0075 sv expected_pubkey expected_message =
     introspect_precompile SECP256R1_VERIFY_PROGRAM_ID 33 (VaultError PasskeyVerificationFailed)
       sv (to_list expected_pubkey) expected_message"

definition verify_passkey_signed ::
  "host \<Rightarrow> instructions_sysvar \<Rightarrow> 33 bytes \<Rightarrow> byte list \<Rightarrow> byte list \<Rightarrow> byte list \<Rightarrow> error + unit"
  where
  "verify_passkey_signed h sv expected_pubkey client_data_json authenticator_data op_msg =
     require (AUTH_DATA_MIN_LEN \<le> length authenticator_data)
       (VaultError PasskeyVerificationFailed) (
     let composed = authenticator_data @ to_list (sha256 h client_data_json) in
     bind_res (introspect_simd_0075 sv expected_pubkey composed) (\<lambda>_.
     let expected_challenge = to_list (sha256 h op_msg) in
     bind_res (extract_challenge_from_client_data client_data_json) (\<lambda>challenge_bytes.
     require (challenge_bytes = expected_challenge) (VaultError PasskeyVerificationFailed) (
     Inr ()))))"

text \<open>What the check establishes.\<close>

definition passkey_authorized ::
  "host \<Rightarrow> instructions_sysvar \<Rightarrow> 33 bytes \<Rightarrow> byte list \<Rightarrow> byte list \<Rightarrow> byte list \<Rightarrow> bool" where
  "passkey_authorized h sv pk cdj ad op_msg \<longleftrightarrow>
     37 \<le> length ad \<and>
     (\<exists>ix. previous_instruction sv = Some ix \<and> ti_program_id ix = SECP256R1_VERIFY_PROGRAM_ID \<and>
        shows_key_and_message 33 (ti_data ix) (to_list pk) (ad @ to_list (sha256 h cdj))) \<and>
     (\<exists>enc. challenge_field cdj enc \<and> base64url_decode enc = Inr (to_list (sha256 h op_msg)))"

lemma verify_passkey_signed_eq_Inr [result_simps]:
  "verify_passkey_signed h sv pk cdj ad op_msg = Inr u \<longleftrightarrow>
     passkey_authorized h sv pk cdj ad op_msg"
  by (auto simp: verify_passkey_signed_def introspect_simd_0075_def passkey_authorized_def
      AUTH_DATA_MIN_LEN_def Let_def extract_challenge_eq_Inr result_simps)

text \<open>One ceremony authorizes one challenge.\<close>

lemma passkey_authorized_same_hash:
  assumes "passkey_authorized h sv pk cdj ad m" and "passkey_authorized h sv' pk' cdj ad' m'"
  shows "sha256 h m = sha256 h m'"
proof -
  from assms(1) have "extract_challenge_from_client_data cdj = Inr (to_list (sha256 h m))"
    by (auto simp: passkey_authorized_def extract_challenge_eq_Inr)
  moreover from assms(2) have "extract_challenge_from_client_data cdj = Inr (to_list (sha256 h m'))"
    by (auto simp: passkey_authorized_def extract_challenge_eq_Inr)
  ultimately show ?thesis by (simp add: bytes_eq_iff)
qed

text \<open>A transaction has one instruction before the current one, so it authorizes one key.\<close>

lemma passkey_authorized_same_key:
  assumes "passkey_authorized h sv pk cdj ad m" and "passkey_authorized h sv pk' cdj' ad' m'"
  shows "pk = pk'"
  using assms by (auto simp: passkey_authorized_def shows_key_and_message_def Let_def bytes_eq_iff)

section \<open>An honest ceremony\<close>

text \<open>What a browser produces for the challenge \<open>sha256(op_msg)\<close>, and the transaction that carries it.\<close>

definition client_data_prefix :: "byte list" where
  \<open>client_data_prefix = ascii ''{"type":"webauthn.get",''\<close>

definition client_data_suffix :: "byte list" where
  \<open>client_data_suffix = ascii '',"origin":"https://dexter.cash"}''\<close>

definition client_data_for :: "host \<Rightarrow> byte list \<Rightarrow> byte list" where
  "client_data_for h op_msg =
     client_data_prefix @ CHALLENGE_KEY @ base64url_encode (to_list (sha256 h op_msg)) @
     34 # client_data_suffix"

definition ceremony_sysvar ::
  "host \<Rightarrow> 33 bytes \<Rightarrow> byte list \<Rightarrow> byte list \<Rightarrow> byte list \<Rightarrow> instructions_sysvar" where
  "ceremony_sysvar h pk ad op_msg sg =
     \<lparr> current_index = 1,
       tx_instructions =
         [ \<lparr> ti_program_id = SECP256R1_VERIFY_PROGRAM_ID,
             ti_data = precompile_data 0xFFFF (to_list pk) sg
               (ad @ to_list (sha256 h (client_data_for h op_msg))) \<rparr>,
           \<lparr> ti_program_id = PROGRAM_ID, ti_data = [] \<rparr> ] \<rparr>"

lemma client_data_prefix_no_key:
  "list_all (\<lambda>i. slice i (i + 13) (client_data_prefix @ CHALLENGE_KEY) \<noteq> CHALLENGE_KEY) [0..<23]"
  by code_simp

lemma length_client_data_prefix [simp]: "length client_data_prefix = 23"
  by (simp add: client_data_prefix_def)

lemma challenge_field_client_data:
  "challenge_field (client_data_for h m) (base64url_encode (to_list (sha256 h m)))"
proof -
  have "\<not> key_at (client_data_for h m) i" if "i < 23" for i
  proof -
    have "slice i (i + 13) (client_data_for h m) =
        slice i (i + 13) (client_data_prefix @ CHALLENGE_KEY)"
      using that by (simp add: client_data_for_def slice_def)
    with that client_data_prefix_no_key show ?thesis by (auto simp: key_at_def list_all_iff)
  qed
  then show ?thesis
    unfolding challenge_field_def client_data_for_def
    using quote_notin_encode by (intro exI [of _ client_data_prefix] exI [of _ client_data_suffix]) auto
qed

lemma honest_ceremony_authorized:
  assumes "37 \<le> length ad" and "length ad < 65000" and "length sg = 64"
  shows "passkey_authorized h (ceremony_sysvar h pk ad m sg) pk (client_data_for h m) ad m"
proof -
  let ?msg = "ad @ to_list (sha256 h (client_data_for h m))"
  have "shows_key_and_message 33 (precompile_data 0xFFFF (to_list pk) sg ?msg) (to_list pk) ?msg"
    using precompile_data_shows [of sg "to_list pk" ?msg "0xFFFF"] assms by simp
  then show ?thesis
    using assms challenge_field_client_data base64url_decode_encode
    by (auto simp: passkey_authorized_def ceremony_sysvar_def previous_instruction_def Let_def)
qed

end
