(* ===== verification/Passkey_Messages.thy ===== *)
theory Passkey_Messages
  imports Webauthn
begin

text \<open>
  The messages a vault owner's passkey signs. Every instruction that the passkey authorizes builds
  one byte string (\<open>op_msg\<close> in the handlers) from a tag and its parameters; the string is written
  here once per instruction, and \<open>passkey_op\<close> collects them so that they can be compared: two
  instructions never build the same bytes, and one instruction builds different bytes for different
  parameters.
\<close>

section \<open>The messages\<close>

definition set_swig_message :: "pubkey \<Rightarrow> byte list" where
  "set_swig_message swig = ascii ''set_swig'' @ to_list swig"

definition request_withdrawal_message :: "u64 \<Rightarrow> pubkey \<Rightarrow> i64 \<Rightarrow> byte list" where
  "request_withdrawal_message amount destination signed_at =
     ascii ''request_withdrawal'' @ le_bytes 8 amount @ to_list destination @
     le_bytes 8 signed_at"

definition finalize_withdrawal_message :: "u64 \<Rightarrow> pubkey \<Rightarrow> byte list" where
  "finalize_withdrawal_message amount destination =
     ascii ''finalize_withdrawal'' @ le_bytes 8 amount @ to_list destination"

definition force_release_message :: "pubkey \<Rightarrow> byte list" where
  "force_release_message swig = ascii ''force_release'' @ to_list swig"

definition rotate_passkey_message :: "33 bytes \<Rightarrow> byte list" where
  "rotate_passkey_message new_passkey = ascii ''rotate_passkey'' @ to_list new_passkey"

definition prove_passkey_message :: "32 bytes \<Rightarrow> byte list" where
  "prove_passkey_message challenge = ascii ''siwx_login'' @ to_list challenge"

definition recover_abandoned_message :: "pubkey \<Rightarrow> pubkey \<Rightarrow> byte list" where
  "recover_abandoned_message vault_key claim_key =
     ascii ''recover_abandoned_lock'' @ to_list vault_key @ to_list claim_key"

definition open_standby_message :: "pubkey \<Rightarrow> pubkey \<Rightarrow> u64 \<Rightarrow> byte list" where
  "open_standby_message vault_key financier cap =
     ascii ''open_standby'' @ to_list vault_key @ to_list financier @ le_bytes 8 cap"

definition close_standby_message :: "pubkey \<Rightarrow> pubkey \<Rightarrow> byte list" where
  "close_standby_message vault_key financier =
     ascii ''close_standby'' @ to_list vault_key @ to_list financier"

definition REGISTER_DOMAIN :: "byte list" where
  "REGISTER_DOMAIN = ascii ''OTS_SESSION_REGISTER_V2'' @ replicate 9 0"

definition REVOKE_DOMAIN :: "byte list" where
  "REVOKE_DOMAIN = ascii ''OTS_SESSION_REVOKE_V1'' @ replicate 11 0"

definition build_registration_message ::
  "pubkey \<Rightarrow> pubkey \<Rightarrow> 32 bytes \<Rightarrow> u64 \<Rightarrow> i64 \<Rightarrow> pubkey \<Rightarrow> u32 \<Rightarrow> u64 \<Rightarrow> byte list" where
  "build_registration_message program_id vault_pda session_pubkey max_amount expires_at
       allowed_counterparty nonce max_revolving_capacity =
     REGISTER_DOMAIN @ to_list program_id @ to_list vault_pda @ to_list session_pubkey @
     le_bytes 8 max_amount @ le_bytes 8 expires_at @ to_list allowed_counterparty @
     le_bytes 4 nonce @ le_bytes 8 max_revolving_capacity"

definition build_revocation_message :: "pubkey \<Rightarrow> pubkey \<Rightarrow> 32 bytes \<Rightarrow> byte list" where
  "build_revocation_message program_id vault_pda session_pubkey =
     REVOKE_DOMAIN @ to_list program_id @ to_list vault_pda @ to_list session_pubkey"

lemmas message_defs =
  set_swig_message_def request_withdrawal_message_def finalize_withdrawal_message_def
  force_release_message_def rotate_passkey_message_def prove_passkey_message_def
  recover_abandoned_message_def open_standby_message_def close_standby_message_def
  REGISTER_DOMAIN_def REVOKE_DOMAIN_def build_registration_message_def
  build_revocation_message_def

section \<open>What a passkey can be asked to authorize\<close>

datatype passkey_op =
    OpSetSwig pubkey
  | OpRequestWithdrawal u64 pubkey i64
  | OpFinalizeWithdrawal u64 pubkey
  | OpForceRelease pubkey
  | OpRotatePasskey "33 bytes"
  | OpProvePasskey "32 bytes"
  | OpRegister pubkey "32 bytes" u64 i64 pubkey u32 u64
  | OpRevoke pubkey "32 bytes"
  | OpRecoverAbandoned pubkey pubkey
  | OpOpenStandby pubkey pubkey u64
  | OpCloseStandby pubkey pubkey

fun op_message :: "passkey_op \<Rightarrow> byte list" where
  "op_message (OpSetSwig swig) = set_swig_message swig"
| "op_message (OpRequestWithdrawal amount dest t) = request_withdrawal_message amount dest t"
| "op_message (OpFinalizeWithdrawal amount dest) = finalize_withdrawal_message amount dest"
| "op_message (OpForceRelease swig) = force_release_message swig"
| "op_message (OpRotatePasskey new_key) = rotate_passkey_message new_key"
| "op_message (OpProvePasskey challenge) = prove_passkey_message challenge"
| "op_message (OpRegister v s m t c n r) = build_registration_message PROGRAM_ID v s m t c n r"
| "op_message (OpRevoke v s) = build_revocation_message PROGRAM_ID v s"
| "op_message (OpRecoverAbandoned v c) = recover_abandoned_message v c"
| "op_message (OpOpenStandby v f cap) = open_standby_message v f cap"
| "op_message (OpCloseStandby v f) = close_standby_message v f"

text \<open>The lengths already tell the instructions apart.\<close>

fun op_length :: "passkey_op \<Rightarrow> nat" where
  "op_length (OpSetSwig _) = 40"
| "op_length (OpRequestWithdrawal _ _ _) = 66"
| "op_length (OpFinalizeWithdrawal _ _) = 59"
| "op_length (OpForceRelease _) = 45"
| "op_length (OpRotatePasskey _) = 47"
| "op_length (OpProvePasskey _) = 42"
| "op_length (OpRegister _ _ _ _ _ _ _) = 188"
| "op_length (OpRevoke _ _) = 128"
| "op_length (OpRecoverAbandoned _ _) = 86"
| "op_length (OpOpenStandby _ _ _) = 84"
| "op_length (OpCloseStandby _ _) = 77"

lemma length_op_message: "length (op_message x) = op_length x"
  by (cases x) (simp_all add: message_defs)

lemma op_message_parts:
  "op_message (OpSetSwig a) = op_message (OpSetSwig a') \<longleftrightarrow> a = a'"
  "op_message (OpForceRelease a) = op_message (OpForceRelease a') \<longleftrightarrow> a = a'"
  "op_message (OpRotatePasskey k) = op_message (OpRotatePasskey k') \<longleftrightarrow> k = k'"
  "op_message (OpProvePasskey a) = op_message (OpProvePasskey a') \<longleftrightarrow> a = a'"
  by (simp_all add: message_defs bytes_eq_iff)

lemma op_message_parts2:
  "op_message (OpRequestWithdrawal x d t) = op_message (OpRequestWithdrawal x' d' t') \<longleftrightarrow>
     x = x' \<and> d = d' \<and> t = t'"
  "op_message (OpFinalizeWithdrawal x d) = op_message (OpFinalizeWithdrawal x' d') \<longleftrightarrow>
     x = x' \<and> d = d'"
  "op_message (OpRevoke v s) = op_message (OpRevoke v' s') \<longleftrightarrow> v = v' \<and> s = s'"
  "op_message (OpRecoverAbandoned v c) = op_message (OpRecoverAbandoned v' c') \<longleftrightarrow>
     v = v' \<and> c = c'"
  "op_message (OpOpenStandby v f m) = op_message (OpOpenStandby v' f' m') \<longleftrightarrow>
     v = v' \<and> f = f' \<and> m = m'"
  "op_message (OpCloseStandby v f) = op_message (OpCloseStandby v' f') \<longleftrightarrow> v = v' \<and> f = f'"
  "op_message (OpRegister v s m t c n r) = op_message (OpRegister v' s' m' t' c' n' r') \<longleftrightarrow>
     v = v' \<and> s = s' \<and> m = m' \<and> t = t' \<and> c = c' \<and> n = n' \<and> r = r'"
  by (auto simp: message_defs bytes_eq_iff append_eq_append_conv)

lemma op_message_inj:
  assumes "op_message x = op_message y"
  shows "x = y"
proof -
  from assms have "op_length x = op_length y" by (metis length_op_message)
  then show ?thesis
    using assms op_message_parts op_message_parts2
    by (cases x; cases y) (simp_all del: op_message.simps)
qed

section \<open>Operations a passkey authorizes\<close>

text \<open>
  The contract of an instruction gated by the passkey: a successful run has checked the vault's key
  and the instruction's own message. \<open>run h e s a\<close> is the handler on the state \<open>s\<close>, \<open>key_of\<close> the
  vault's passkey, \<open>op_of\<close> what is being authorized.
\<close>

locale passkey_gated =
  fixes run :: "host \<Rightarrow> tx_env \<Rightarrow> 's \<Rightarrow> 'a \<Rightarrow> error + 't"
    and key_of :: "'s \<Rightarrow> 33 bytes"
    and op_of :: "'s \<Rightarrow> 'a \<Rightarrow> passkey_op"
    and client_of :: "'a \<Rightarrow> byte list"
    and auth_of :: "'a \<Rightarrow> byte list"
  assumes gate: "run h e s a = Inr t \<Longrightarrow>
    passkey_authorized h (sysvar e) (key_of s) (client_of a) (auth_of a) (op_message (op_of s a))"
begin

lemma needs_ceremony:
  assumes "\<not> passkey_authorized h (sysvar e) (key_of s) (client_of a) (auth_of a)
    (op_message (op_of s a))"
  shows "\<not> is_ok (run h e s a)"
  using assms gate by (auto simp: is_ok_iff)

text \<open>One ceremony serves one operation: a second run with the same \<open>clientDataJSON\<close> authorizes the
  same operation with the same parameters, unless two operation messages collide under SHA-256.\<close>

lemma ceremony_binds_operation:
  assumes "run h e s a = Inr t"
    and "passkey_authorized h sv pk (client_of a) ad (op_message x)"
    and "sha256 h (op_message x) = sha256 h (op_message (op_of s a)) \<Longrightarrow>
      op_message x = op_message (op_of s a)"
  shows "x = op_of s a"
  using gate [OF assms(1)] assms(2,3) passkey_authorized_same_hash
  by (intro op_message_inj) blast

lemma same_transaction_same_key:
  assumes "run h e s a = Inr t"
    and "passkey_authorized h (sysvar e) pk cdj ad m"
  shows "pk = key_of s"
  using assms gate passkey_authorized_same_key by blast

end

end
