(* ===== verification/Vault_Admin.thy ===== *)
theory Vault_Admin
  imports Passkey_Messages
begin

text \<open>
  The instructions that create a vault and change who controls it: \<open>initialize_vault.rs\<close>,
  \<open>set_swig.rs\<close>, \<open>rotate_passkey.rs\<close>, \<open>rotate_dexter_authority.rs\<close>, \<open>prove_passkey.rs\<close>. Each is a
  function from the typed accounts of the instruction to an error or the accounts it writes back.
  Anchor loads the accounts first (signer types fail there), then checks the constraints in the order
  of the fields, then runs the handler.
\<close>

definition valid_passkey_prefix :: "33 bytes \<Rightarrow> bool" where
  "valid_passkey_prefix k \<longleftrightarrow> to_list k ! 0 = 2 \<or> to_list k ! 0 = 3"

section \<open>Initialize\<close>

record initialize_vault_args =
  iv_passkey_pubkey :: "33 bytes"
  iv_cooling_off_seconds :: u32
  iv_identity_claim :: "32 bytes"

definition initialize_vault_handler ::
  "u8 \<Rightarrow> pubkey \<Rightarrow> initialize_vault_args \<Rightarrow> error + vault" where
  "initialize_vault_handler bump_seed authority args =
     require (to_list (iv_passkey_pubkey args) ! 0 = 0x02 \<or>
              to_list (iv_passkey_pubkey args) ! 0 = 0x03)
       (VaultError PasskeyVerificationFailed) (
     Inr \<lparr> version = VAULT_VERSION_V6,
           bump = bump_seed,
           passkey_pubkey = iv_passkey_pubkey args,
           swig_address = 0,
           cooling_off_seconds = iv_cooling_off_seconds args,
           pending_voucher_count = 0,
           pending_withdrawal = None,
           identity_claim = iv_identity_claim args,
           dexter_authority = authority,
           live_session_count = 0,
           outstanding_locked_amount = 0,
           total_crystallized_amount = 0,
           total_settled_amount = 0,
           borrowed = 0,
           standby_backer = None,
           standby_cap = 0,
           borrow_recovery_at = None \<rparr>)"

text \<open>\<open>init\<close> with \<open>seeds = [b"vault", &identity_claim[..16]], bump\<close>: the given address is the canonical
  one, and no account is there yet.\<close>

definition initialize_vault ::
  "host \<Rightarrow> tx_env \<Rightarrow> pubkey \<Rightarrow> pubkey \<Rightarrow> pubkey \<Rightarrow> vault option \<Rightarrow> initialize_vault_args \<Rightarrow>
     error + vault" where
  "initialize_vault h e vault_key payer authority existing args =
     bind_res (check_signer e payer) (\<lambda>_.
     bind_res (check_signer e authority) (\<lambda>_.
     bind_res (ok_or (find_program_address h (vault_seeds (iv_identity_claim args)) PROGRAM_ID) Panic)
       (\<lambda>(derived, bump_seed).
     require (vault_key = derived) (AnchorError ConstraintSeeds) (
     require (existing = None) (AnchorError AccountAlreadyInUse) (
     initialize_vault_handler bump_seed authority args)))))"

section \<open>Binding the swig\<close>

record set_swig_args =
  ss_swig_address :: pubkey
  ss_client_data_json :: "byte list"
  ss_authenticator_data :: "byte list"

definition set_swig :: "host \<Rightarrow> tx_env \<Rightarrow> vault \<Rightarrow> set_swig_args \<Rightarrow> error + vault" where
  "set_swig h e v args =
     require (any_supported_version (version v)) (VaultError UnsupportedVaultVersion) (
     require (swig_address v = 0) (VaultError PasskeyVerificationFailed) (
     let op_msg = set_swig_message (ss_swig_address args) in
     bind_res (verify_passkey_signed h (sysvar e) (passkey_pubkey v)
                 (ss_client_data_json args) (ss_authenticator_data args) op_msg) (\<lambda>_.
     Inr (v\<lparr>swig_address := ss_swig_address args\<rparr>))))"

section \<open>Rotation\<close>

record rotate_passkey_args =
  rp_new_passkey_pubkey :: "33 bytes"
  rp_client_data_json :: "byte list"
  rp_authenticator_data :: "byte list"

definition rotate_passkey :: "host \<Rightarrow> tx_env \<Rightarrow> vault \<Rightarrow> rotate_passkey_args \<Rightarrow> error + vault" where
  "rotate_passkey h e v args =
     require (to_list (rp_new_passkey_pubkey args) ! 0 = 0x02 \<or>
              to_list (rp_new_passkey_pubkey args) ! 0 = 0x03)
       (VaultError PasskeyVerificationFailed) (
     require (any_supported_version (version v)) (VaultError UnsupportedVaultVersion) (
     let op_msg = rotate_passkey_message (rp_new_passkey_pubkey args) in
     bind_res (verify_passkey_signed h (sysvar e) (passkey_pubkey v)
                 (rp_client_data_json args) (rp_authenticator_data args) op_msg) (\<lambda>_.
     Inr (v\<lparr>passkey_pubkey := rp_new_passkey_pubkey args\<rparr>))))"

text \<open>\<open>has_one = dexter_authority\<close> on the vault.\<close>

definition has_one_authority :: "vault \<Rightarrow> pubkey \<Rightarrow> error + unit" where
  "has_one_authority v authority =
     require (dexter_authority v = authority) (VaultError PasskeyVerificationFailed) (Inr ())"

lemma has_one_authority_eq_Inr [result_simps]:
  "has_one_authority v a = Inr u \<longleftrightarrow> a = dexter_authority v"
  by (auto simp: has_one_authority_def result_simps)

definition rotate_dexter_authority ::
  "tx_env \<Rightarrow> vault \<Rightarrow> pubkey \<Rightarrow> pubkey \<Rightarrow> error + vault" where
  "rotate_dexter_authority e v authority new_dexter_authority =
     bind_res (check_signer e authority) (\<lambda>_.
     bind_res (has_one_authority v authority) (\<lambda>_.
     require (new_dexter_authority \<noteq> 0) (VaultError PasskeyVerificationFailed) (
     require (any_supported_version (version v)) (VaultError UnsupportedVaultVersion) (
     Inr (v\<lparr>dexter_authority := new_dexter_authority\<rparr>)))))"

section \<open>Proving control\<close>

record prove_passkey_args =
  pp_challenge :: "32 bytes"
  pp_client_data_json :: "byte list"
  pp_authenticator_data :: "byte list"

definition prove_passkey :: "host \<Rightarrow> tx_env \<Rightarrow> vault \<Rightarrow> prove_passkey_args \<Rightarrow> error + unit" where
  "prove_passkey h e v args =
     require (any_supported_version (version v)) (VaultError UnsupportedVaultVersion) (
     let op_msg = prove_passkey_message (pp_challenge args) in
     bind_res (verify_passkey_signed h (sysvar e) (passkey_pubkey v)
                 (pp_client_data_json args) (pp_authenticator_data args) op_msg) (\<lambda>_.
     Inr ()))"

section \<open>When they succeed and what they write\<close>

lemma initialize_vault_handler_eq_Inr [result_simps]:
  "initialize_vault_handler b a args = Inr v \<longleftrightarrow>
     valid_passkey_prefix (iv_passkey_pubkey args) \<and>
     v = \<lparr> version = 6, bump = b, passkey_pubkey = iv_passkey_pubkey args, swig_address = 0,
           cooling_off_seconds = iv_cooling_off_seconds args, pending_voucher_count = 0,
           pending_withdrawal = None, identity_claim = iv_identity_claim args,
           dexter_authority = a, live_session_count = 0, outstanding_locked_amount = 0,
           total_crystallized_amount = 0, total_settled_amount = 0, borrowed = 0,
           standby_backer = None, standby_cap = 0, borrow_recovery_at = None \<rparr>"
  by (auto simp: initialize_vault_handler_def valid_passkey_prefix_def result_simps)

lemma initialize_vault_eq_Inr:
  "initialize_vault h e k p a existing args = Inr v \<longleftrightarrow>
     p \<in> set (signers e) \<and> a \<in> set (signers e) \<and> existing = None \<and>
     (\<exists>b. find_program_address h (vault_seeds (iv_identity_claim args)) PROGRAM_ID = Some (k, b) \<and>
        initialize_vault_handler b a args = Inr v)"
  by (auto simp: initialize_vault_def result_simps split: prod.splits)

lemma set_swig_eq_Inr:
  "set_swig h e v args = Inr v' \<longleftrightarrow>
     any_supported_version (version v) \<and> swig_address v = 0 \<and>
     passkey_authorized h (sysvar e) (passkey_pubkey v) (ss_client_data_json args)
       (ss_authenticator_data args) (set_swig_message (ss_swig_address args)) \<and>
     v' = v\<lparr>swig_address := ss_swig_address args\<rparr>"
  by (auto simp: set_swig_def Let_def result_simps)

lemma rotate_passkey_eq_Inr:
  "rotate_passkey h e v args = Inr v' \<longleftrightarrow>
     valid_passkey_prefix (rp_new_passkey_pubkey args) \<and> any_supported_version (version v) \<and>
     passkey_authorized h (sysvar e) (passkey_pubkey v) (rp_client_data_json args)
       (rp_authenticator_data args) (rotate_passkey_message (rp_new_passkey_pubkey args)) \<and>
     v' = v\<lparr>passkey_pubkey := rp_new_passkey_pubkey args\<rparr>"
  by (auto simp: rotate_passkey_def valid_passkey_prefix_def Let_def result_simps)

lemma rotate_dexter_authority_eq_Inr:
  "rotate_dexter_authority e v a n = Inr v' \<longleftrightarrow>
     a \<in> set (signers e) \<and> a = dexter_authority v \<and> n \<noteq> 0 \<and>
     any_supported_version (version v) \<and> v' = v\<lparr>dexter_authority := n\<rparr>"
  by (auto simp: rotate_dexter_authority_def result_simps)

lemma prove_passkey_eq_Inr:
  "prove_passkey h e v args = Inr u \<longleftrightarrow>
     any_supported_version (version v) \<and>
     passkey_authorized h (sysvar e) (passkey_pubkey v) (pp_client_data_json args)
       (pp_authenticator_data args) (prove_passkey_message (pp_challenge args))"
  by (auto simp: prove_passkey_def Let_def result_simps)

section \<open>They are passkey-gated\<close>

interpretation set_swig_gate: passkey_gated set_swig passkey_pubkey
  "\<lambda>v args. OpSetSwig (ss_swig_address args)" ss_client_data_json ss_authenticator_data
  by unfold_locales (simp add: set_swig_eq_Inr)

interpretation rotate_passkey_gate: passkey_gated rotate_passkey passkey_pubkey
  "\<lambda>v args. OpRotatePasskey (rp_new_passkey_pubkey args)" rp_client_data_json
  rp_authenticator_data
  by unfold_locales (simp add: rotate_passkey_eq_Inr)

interpretation prove_passkey_gate: passkey_gated prove_passkey passkey_pubkey
  "\<lambda>v args. OpProvePasskey (pp_challenge args)" pp_client_data_json pp_authenticator_data
  by unfold_locales (simp add: prove_passkey_eq_Inr)

text \<open>The swig is bound once: no later run can replace it.\<close>

lemma set_swig_once:
  assumes "set_swig h e v args = Inr v'" and "ss_swig_address args \<noteq> 0"
  shows "set_swig h' e' v' args' =
    (if any_supported_version (version v) then Inl (VaultError PasskeyVerificationFailed)
     else Inl (VaultError UnsupportedVaultVersion))"
  using assms by (auto simp: set_swig_eq_Inr) (simp add: set_swig_def)

text \<open>Rotation to a key moves control: from then on only the new key authorizes.\<close>

lemma rotate_passkey_moves_control:
  assumes "rotate_passkey h e v args = Inr v'"
    and "rotate_passkey h' e' v' args' = Inr v''"
  shows "passkey_authorized h' (sysvar e') (rp_new_passkey_pubkey args) (rp_client_data_json args')
    (rp_authenticator_data args') (rotate_passkey_message (rp_new_passkey_pubkey args'))"
  using assms by (auto simp: rotate_passkey_eq_Inr)

end
