(* ===== verification/Withdrawal.thy ===== *)
theory Withdrawal
  imports Vault_Admin
begin

text \<open>
  The withdrawal path: \<open>request_withdrawal.rs\<close>, \<open>finalize_withdrawal.rs\<close>, \<open>force_release.rs\<close>. A
  request starts the cooling-off period, finalizing it is the gate in front of the Swig transfer, and
  the buyer can release a stuck voucher counter after a week.
\<close>

section \<open>Time\<close>

text \<open>\<open>i64::abs\<close> panics on the minimum (overflow checks are on).\<close>

definition abs_i64 :: "i64 \<Rightarrow> error + i64" where
  "abs_i64 w = (if w = i64_min then Inl Panic else Inr (if sint w < 0 then - w else w))"

text \<open>\<open>now.saturating_sub(t).max(0)\<close>, read as a \<open>u64\<close> or as the same \<open>i64\<close>.\<close>

definition elapsed_since :: "i64 \<Rightarrow> i64 \<Rightarrow> i64" where
  "elapsed_since n t =
     (let d = saturating_sub_i64 n t in if sint d < 0 then 0 else d)"

lemma sint_saturating_sub_i64:
  "sint (saturating_sub_i64 a b) = max (- (2 ^ 63)) (min (2 ^ 63 - 1) (sint a - sint b))"
  using i64_range [of a] i64_range [of b]
  by (auto simp: saturating_sub_i64_def sint_minus_fits i64_fits_def max_def min_def)

lemma sint_elapsed_since:
  "sint (elapsed_since n t) = max 0 (min (2 ^ 63 - 1) (sint n - sint t))"
proof -
  have "sint (elapsed_since n t) = max 0 (sint (saturating_sub_i64 n t))"
    by (auto simp: elapsed_since_def Let_def max_def)
  then show ?thesis
    unfolding sint_saturating_sub_i64 by (simp add: max_def min_def)
qed

lemma uint_eq_sint:
  fixes w :: i64
  assumes "0 \<le> sint w"
  shows "uint w = sint w"
proof -
  have "uint w = take_bit 64 (sint w)" using uint_sint [of w] by simp
  also have "\<dots> = sint w"
    using assms i64_range [of w] by (intro take_bit_int_eq_self) simp_all
  finally show ?thesis .
qed

lemma uint_elapsed_since:
  "uint (elapsed_since n t) = max 0 (min (2 ^ 63 - 1) (sint n - sint t))"
  using uint_eq_sint [of "elapsed_since n t"] sint_elapsed_since [of n t] by simp

lemma cooling_off_elapsed:
  fixes cooling :: u32
  shows "ucast cooling \<le> elapsed_since n t \<longleftrightarrow> cooling = 0 \<or> sint t + uint cooling \<le> sint n"
proof -
  define c where "c = uint cooling"
  have c: "0 \<le> c" "c < 2 ^ 32" using uint_lt2p [of cooling] by (simp_all add: c_def)
  have "uint (ucast cooling :: u64) = c" by (simp add: uint_up_ucast is_up c_def)
  moreover have "cooling = 0 \<longleftrightarrow> c = 0" by (simp add: uint_0_iff c_def)
  ultimately show ?thesis
    using c unfolding word_le_def uint_elapsed_since c_def [symmetric]
    by (auto simp: max_def min_def)
qed

section \<open>Request\<close>

record request_withdrawal_args =
  rw_amount :: u64
  rw_destination :: pubkey
  rw_signed_at :: i64
  rw_client_data_json :: "byte list"
  rw_authenticator_data :: "byte list"

definition request_withdrawal ::
  "host \<Rightarrow> tx_env \<Rightarrow> vault \<Rightarrow> request_withdrawal_args \<Rightarrow> error + vault" where
  "request_withdrawal h e v args =
     require (any_supported_version (version v)) (VaultError UnsupportedVaultVersion) (
     bind_res (abs_i64 (case checked_sub_i64 (now e) (rw_signed_at args) of
                          None \<Rightarrow> i64_max | Some d \<Rightarrow> d)) (\<lambda>drift.
     require (sint drift \<le> 300) (VaultError PasskeyVerificationFailed) (
     let op_msg = request_withdrawal_message (rw_amount args) (rw_destination args)
                    (rw_signed_at args) in
     bind_res (verify_passkey_signed h (sysvar e) (passkey_pubkey v)
                 (rw_client_data_json args) (rw_authenticator_data args) op_msg) (\<lambda>_.
     Inr (v\<lparr>pending_withdrawal := Some \<lparr> pw_amount = rw_amount args,
                                         pw_destination = rw_destination args,
                                         pw_requested_at = rw_signed_at args \<rparr>\<rparr>)))))"

lemma abs_i64_le_iff:
  assumes "0 \<le> b" and "b < 2 ^ 63"
  shows "(\<exists>d. abs_i64 w = Inr d \<and> sint d \<le> b) \<longleftrightarrow> \<bar>sint w\<bar> \<le> b"
proof (cases "w = i64_min")
  case True
  then show ?thesis using assms by (simp add: abs_i64_def)
next
  case False
  then have "sint w \<noteq> - (2 ^ 63)"
    by (metis sint_i64_min signed_word_eqI)
  then have "i64_fits (0 - sint w)" using i64_range [of w] by (simp add: i64_fits_def)
  then have "sint (- w) = - sint w" using sint_minus_fits [of 0 w] by simp
  with False show ?thesis by (auto simp: abs_i64_def)
qed

lemma drift_ok:
  "(\<exists>d. abs_i64 (case checked_sub_i64 n t of None \<Rightarrow> i64_max | Some d \<Rightarrow> d) = Inr d \<and>
      sint d \<le> 300) \<longleftrightarrow> \<bar>sint n - sint t\<bar> \<le> 300"
proof -
  have "\<bar>sint (case checked_sub_i64 n t of None \<Rightarrow> i64_max | Some d \<Rightarrow> d)\<bar> \<le> 300 \<longleftrightarrow>
      \<bar>sint n - sint t\<bar> \<le> 300"
    by (auto simp: checked_sub_i64_def sint_minus_fits i64_fits_def)
  then show ?thesis by (subst abs_i64_le_iff) simp_all
qed

lemma request_withdrawal_eq_Inr:
  "request_withdrawal h e v args = Inr v' \<longleftrightarrow>
     any_supported_version (version v) \<and> \<bar>sint (now e) - sint (rw_signed_at args)\<bar> \<le> 300 \<and>
     passkey_authorized h (sysvar e) (passkey_pubkey v) (rw_client_data_json args)
       (rw_authenticator_data args)
       (request_withdrawal_message (rw_amount args) (rw_destination args) (rw_signed_at args)) \<and>
     v' = v\<lparr>pending_withdrawal := Some \<lparr> pw_amount = rw_amount args,
              pw_destination = rw_destination args, pw_requested_at = rw_signed_at args \<rparr>\<rparr>"
  using drift_ok [of "now e" "rw_signed_at args"]
  by (auto simp: request_withdrawal_def Let_def result_simps)

section \<open>Finalize\<close>

text \<open>\<open>finalize_withdrawal_accounts\<close> holds the keys of the accounts struct other than the vault;
  a token account is loaded from the chain.\<close>

record finalize_withdrawal_accounts =
  fw_swig :: pubkey
  fw_swig_wallet :: pubkey
  fw_usdc_ata :: pubkey

record finalize_withdrawal_args =
  fw_client_data_json :: "byte list"
  fw_authenticator_data :: "byte list"

definition load_token :: "tx_env \<Rightarrow> pubkey \<Rightarrow> error + token_account" where
  "load_token e k = ok_or (tokens e k) (AnchorError AccountNotInitialized)"

lemma load_token_eq_Inr [result_simps]: "load_token e k = Inr t \<longleftrightarrow> tokens e k = Some t"
  by (simp add: load_token_def result_simps)

definition finalize_withdrawal_handler ::
  "host \<Rightarrow> tx_env \<Rightarrow> vault \<Rightarrow> pubkey \<Rightarrow> token_account \<Rightarrow> finalize_withdrawal_args \<Rightarrow>
     error + vault" where
  "finalize_withdrawal_handler h e v swig_wallet ata args =
     bind_res (ok_or (pending_withdrawal v) (VaultError NoPendingWithdrawal)) (\<lambda>pending.
     require (swig_address v \<noteq> 0) (VaultError NoPendingWithdrawal) (
     let elapsed_secs = elapsed_since (now e) (pw_requested_at pending) in
     require (ucast (cooling_off_seconds v) \<le> elapsed_secs) (VaultError CoolingOffNotElapsed) (
     require (pending_voucher_count v = 0) (VaultError PendingVouchersExist) (
     require (any_supported_version (version v)) (VaultError UnsupportedVaultVersion) (
     require (ta_owner ata = swig_wallet) (VaultError PasskeyVerificationFailed) (
     bind_res (ok_or (checked_sub (ta_amount ata) (pw_amount pending))
                 (VaultError WithdrawalWouldViolateReservation)) (\<lambda>live_balance_after.
     require (outstanding_locked_amount v \<le> live_balance_after)
       (VaultError WithdrawalWouldViolateReservation) (
     bind_res (ok_or (checked_add (outstanding_locked_amount v) (borrowed v))
                 (VaultError WithdrawalWouldViolatePin)) (\<lambda>reserved.
     require (reserved \<le> live_balance_after) (VaultError WithdrawalWouldViolatePin) (
     let op_msg = finalize_withdrawal_message (pw_amount pending) (pw_destination pending) in
     bind_res (verify_passkey_signed h (sysvar e) (passkey_pubkey v)
                 (fw_client_data_json args) (fw_authenticator_data args) op_msg) (\<lambda>_.
     Inr (v\<lparr>pending_withdrawal := None\<rparr>))))))))))))"

definition finalize_withdrawal ::
  "host \<Rightarrow> tx_env \<Rightarrow> vault \<Rightarrow> finalize_withdrawal_accounts \<Rightarrow> finalize_withdrawal_args \<Rightarrow>
     error + vault" where
  "finalize_withdrawal h e v accs args =
     bind_res (load_token e (fw_usdc_ata accs)) (\<lambda>ata.
     bind_res (check_swig_pair h (swig_address v) (fw_swig accs) (fw_swig_wallet accs)) (\<lambda>_.
     finalize_withdrawal_handler h e v (fw_swig_wallet accs) ata args))"

text \<open>The gate: the cooling-off has passed, no voucher is open, the balance covers the withdrawal, the
  crystallized claims and the loan together, and the passkey signed this amount and destination.\<close>

definition withdrawal_gate ::
  "host \<Rightarrow> tx_env \<Rightarrow> vault \<Rightarrow> pending_withdrawal \<Rightarrow> token_account \<Rightarrow> finalize_withdrawal_args \<Rightarrow> bool"
  where
  "withdrawal_gate h e v p ata args \<longleftrightarrow>
     swig_address v \<noteq> 0 \<and> any_supported_version (version v) \<and>
     (cooling_off_seconds v = 0 \<or>
        sint (pw_requested_at p) + uint (cooling_off_seconds v) \<le> sint (now e)) \<and>
     pending_voucher_count v = 0 \<and>
     unat (pw_amount p) + unat (outstanding_locked_amount v) + unat (borrowed v)
       \<le> unat (ta_amount ata) \<and>
     passkey_authorized h (sysvar e) (passkey_pubkey v) (fw_client_data_json args)
       (fw_authenticator_data args) (finalize_withdrawal_message (pw_amount p) (pw_destination p))"

lemma reserved_balance:
  fixes bal amt locked bor :: u64
  shows "(\<exists>after. checked_sub bal amt = Some after \<and> locked \<le> after \<and>
            (\<exists>res. checked_add locked bor = Some res \<and> res \<le> after)) \<longleftrightarrow>
         unat amt + unat locked + unat bor \<le> unat bal"
    (is "?l \<longleftrightarrow> ?r")
proof
  assume ?l then show ?r by (auto simp: word_ops word_le_nat_alt)
next
  assume r: ?r
  define after where "after = bal - amt"
  have "checked_sub bal amt = Some after"
    using r by (simp add: checked_sub_def word_le_nat_alt after_def)
  moreover from this have a: "unat bal = unat amt + unat after" by (simp add: word_ops)
  moreover have "checked_add locked bor = Some (locked + bor)"
    using r unat_less_2p [of bal] by (simp add: checked_add_def)
  moreover from this have "unat (locked + bor) = unat locked + unat bor" by (simp add: word_ops)
  ultimately show ?l using r by (auto simp: word_le_nat_alt)
qed

lemma finalize_withdrawal_handler_eq_Inr:
  "finalize_withdrawal_handler h e v w ata args = Inr v' \<longleftrightarrow>
     (\<exists>p. pending_withdrawal v = Some p \<and> ta_owner ata = w \<and> withdrawal_gate h e v p ata args) \<and>
     v' = v\<lparr>pending_withdrawal := None\<rparr>"
  using reserved_balance
  by (auto simp: finalize_withdrawal_handler_def withdrawal_gate_def Let_def result_simps
      cooling_off_elapsed simp flip: reserved_balance)

lemma finalize_withdrawal_eq_Inr:
  "finalize_withdrawal h e v accs args = Inr v' \<longleftrightarrow>
     (\<exists>p ata. pending_withdrawal v = Some p \<and> tokens e (fw_usdc_ata accs) = Some ata \<and>
        ta_owner ata = fw_swig_wallet accs \<and> withdrawal_gate h e v p ata args) \<and>
     fw_swig accs = swig_address v \<and>
     seeds_canonical h (swig_wallet_seeds (swig_address v)) SWIG_PROGRAM_ID (fw_swig_wallet accs) \<and>
     v' = v\<lparr>pending_withdrawal := None\<rparr>"
  by (auto simp: finalize_withdrawal_def finalize_withdrawal_handler_eq_Inr result_simps)

section \<open>Force release\<close>

definition FORCE_RELEASE_GRACE_SECONDS :: i64 where
  "FORCE_RELEASE_GRACE_SECONDS = 7 * 24 * 60 * 60"

record force_release_args =
  fr_client_data_json :: "byte list"
  fr_authenticator_data :: "byte list"

text \<open>The final \<open>-= 1\<close> is a checked subtraction (overflow checks are on).\<close>

definition force_release ::
  "host \<Rightarrow> tx_env \<Rightarrow> vault \<Rightarrow> force_release_args \<Rightarrow> error + vault" where
  "force_release h e v args =
     require (any_supported_version (version v)) (VaultError UnsupportedVaultVersion) (
     require (0 < pending_voucher_count v) (VaultError NothingToRelease) (
     bind_res (ok_or (pending_withdrawal v) (VaultError NothingToRelease)) (\<lambda>pending.
     let waited = elapsed_since (now e) (pw_requested_at pending) in
     require (sint FORCE_RELEASE_GRACE_SECONDS \<le> sint waited) (VaultError ForceReleaseTooEarly) (
     let op_msg = force_release_message (swig_address v) in
     bind_res (verify_passkey_signed h (sysvar e) (passkey_pubkey v)
                 (fr_client_data_json args) (fr_authenticator_data args) op_msg) (\<lambda>_.
     bind_res (ok_or (checked_sub (pending_voucher_count v) 1) Panic) (\<lambda>n.
     Inr (v\<lparr>pending_voucher_count := n\<rparr>)))))))"

lemma grace_elapsed:
  "sint FORCE_RELEASE_GRACE_SECONDS \<le> sint (elapsed_since n t) \<longleftrightarrow> sint t + 604800 \<le> sint n"
  by (auto simp: FORCE_RELEASE_GRACE_SECONDS_def sint_elapsed_since max_def min_def)

lemma force_release_eq_Inr:
  "force_release h e v args = Inr v' \<longleftrightarrow>
     any_supported_version (version v) \<and> 0 < pending_voucher_count v \<and>
     (\<exists>p. pending_withdrawal v = Some p \<and> sint (pw_requested_at p) + 604800 \<le> sint (now e)) \<and>
     passkey_authorized h (sysvar e) (passkey_pubkey v) (fr_client_data_json args)
       (fr_authenticator_data args) (force_release_message (swig_address v)) \<and>
     v' = v\<lparr>pending_voucher_count := pending_voucher_count v - 1\<rparr>"
  by (auto simp: force_release_def Let_def result_simps grace_elapsed checked_sub_one)

section \<open>They are passkey-gated\<close>

interpretation request_gate: passkey_gated request_withdrawal passkey_pubkey
  "\<lambda>v args. OpRequestWithdrawal (rw_amount args) (rw_destination args) (rw_signed_at args)"
  rw_client_data_json rw_authenticator_data
  by unfold_locales (simp add: request_withdrawal_eq_Inr)

interpretation finalize_gate: passkey_gated
  "\<lambda>h e (v, accs) args. finalize_withdrawal h e v accs args" "\<lambda>(v, accs). passkey_pubkey v"
  "\<lambda>(v, accs) args. OpFinalizeWithdrawal (pw_amount (the (pending_withdrawal v)))
     (pw_destination (the (pending_withdrawal v)))"
  fw_client_data_json fw_authenticator_data
  by unfold_locales (auto simp: finalize_withdrawal_eq_Inr withdrawal_gate_def)

interpretation force_release_gate: passkey_gated force_release passkey_pubkey
  "\<lambda>v args. OpForceRelease (swig_address v)" fr_client_data_json fr_authenticator_data
  by unfold_locales (simp add: force_release_eq_Inr)

text \<open>Nothing in the message of a release changes from one release to the next: a transaction that
  released one voucher still passes the check for the following one.\<close>

lemma force_release_again:
  assumes "force_release h e v args = Inr v'" and "1 < pending_voucher_count v"
  shows "force_release h e v' args =
    Inr (v\<lparr>pending_voucher_count := pending_voucher_count v - 2\<rparr>)"
proof -
  have "0 < pending_voucher_count v - 1"
    using assms(2) by (simp add: word_less_nat_alt unat_sub word_le_nat_alt)
  then show ?thesis using assms by (simp add: force_release_eq_Inr)
qed

end
