(* ===== verification/Sessions.thy ===== *)
theory Sessions
  imports Withdrawal
begin

text \<open>
  The life of a session key: \<open>register_session_key.rs\<close>, \<open>revoke_session_key.rs\<close>,
  \<open>close_session.rs\<close>. Registration is the admission control of the vault: the caller passes every
  other session account of the vault, the live ones are summed and the expired ones cleared, and the
  new cap must fit in the balance beside them.
\<close>

section \<open>Registration: accounts and arguments\<close>

record register_session_key_accounts =
  rg_vault :: pubkey
  rg_usdc_ata :: pubkey
  rg_swig :: pubkey
  rg_swig_wallet :: pubkey
  rg_session :: pubkey
  rg_payer :: pubkey
  rg_siblings :: "(pubkey \<times> bool) list" \<comment> \<open>\<open>remaining_accounts\<close>: key and \<open>is_writable\<close>\<close>

record register_session_key_args =
  ra_session_pubkey :: "32 bytes"
  ra_max_amount :: u64
  ra_expires_at :: i64
  ra_allowed_counterparty :: pubkey
  ra_nonce :: u32
  ra_max_revolving_capacity :: u64
  ra_client_data_json :: "byte list"
  ra_authenticator_data :: "byte list"

section \<open>The sibling walk\<close>

text \<open>A remaining account: its key, what \<open>Account::<SessionAccount>::try_from\<close> reads from it, and
  whether the transaction lets it be written.\<close>

record sibling =
  sib_key :: pubkey
  sib_account :: "session_account option"
  sib_writable :: bool

record gate_state =
  sibling_sum :: u64
  live_counted :: u8
  swept :: u8
  cleared :: "(pubkey \<times> session_account) list"

definition gate_start :: gate_state where
  "gate_start = \<lparr> sibling_sum = 0, live_counted = 0, swept = 0, cleared = [] \<rparr>"

definition clear_session :: "session_account \<Rightarrow> session_account" where
  "clear_session a = a\<lparr>sa_version := 0, sa_session := zero_registration\<rparr>"

definition visit_sibling ::
  "host \<Rightarrow> i64 \<Rightarrow> pubkey \<Rightarrow> pubkey \<Rightarrow> pubkey option \<Rightarrow> sibling \<Rightarrow> gate_state \<Rightarrow> error + gate_state"
  where
  "visit_sibling h n vault_key session_key prev s g =
     require (case prev of None \<Rightarrow> True | Some p \<Rightarrow> p < sib_key s)
       (VaultError SessionAccountsNotSorted) (
     require (sib_key s \<noteq> session_key) (VaultError SessionAccountMisderived) (
     bind_res (ok_or (sib_account s) (VaultError SessionAccountForeign)) (\<lambda>sib.
     require (sa_vault sib = vault_key) (VaultError SessionAccountForeign) (
     bind_res (ok_or (create_program_address h
                  (session_seeds vault_key (sr_allowed_counterparty (sa_session sib))
                     @ [[sa_bump sib]]) PROGRAM_ID)
                 (VaultError SessionAccountMisderived)) (\<lambda>expected.
     require (sib_key s = expected) (VaultError SessionAccountMisderived) (
     if sint n < sint (sr_expires_at (sa_session sib)) then
       bind_res (ok_or (checked_add (sibling_sum g) (sr_max_amount (sa_session sib)))
                   (VaultError SessionWouldOvercommitVault)) (\<lambda>sum'.
       bind_res (ok_or (checked_add (live_counted g) 1)
                   (VaultError SessionWouldOvercommitVault)) (\<lambda>live'.
       Inr (g\<lparr>sibling_sum := sum', live_counted := live'\<rparr>)))
     else
       require (sib_writable s) (VaultError SessionAccountNotWritable) (
       bind_res (ok_or (checked_add (swept g) 1)
                   (VaultError SessionWouldOvercommitVault)) (\<lambda>swept'.
       Inr (g\<lparr>swept := swept',
              cleared := cleared g @ [(sib_key s, clear_session sib)]\<rparr>)))))))))"

fun visit_siblings ::
  "host \<Rightarrow> i64 \<Rightarrow> pubkey \<Rightarrow> pubkey \<Rightarrow> pubkey option \<Rightarrow> sibling list \<Rightarrow> gate_state \<Rightarrow>
     error + gate_state" where
  "visit_siblings h n vault_key session_key prev [] g = Inr g"
| "visit_siblings h n vault_key session_key prev (s # ss) g =
     bind_res (visit_sibling h n vault_key session_key prev s g)
       (visit_siblings h n vault_key session_key (Some (sib_key s)) ss)"

text \<open>What the walk accepts, and what it adds up.\<close>

definition session_at :: "host \<Rightarrow> pubkey \<Rightarrow> pubkey \<Rightarrow> session_account \<Rightarrow> bool" where
  "session_at h vault_key k a \<longleftrightarrow>
     sa_vault a = vault_key \<and>
     create_program_address h
       (session_seeds vault_key (sr_allowed_counterparty (sa_session a)) @ [[sa_bump a]])
       PROGRAM_ID = Some k"

definition live_at :: "i64 \<Rightarrow> session_account \<Rightarrow> bool" where
  "live_at n a \<longleftrightarrow> sint n < sint (sr_expires_at (sa_session a))"

definition good_sibling :: "host \<Rightarrow> i64 \<Rightarrow> pubkey \<Rightarrow> pubkey \<Rightarrow> sibling \<Rightarrow> bool" where
  "good_sibling h n vault_key session_key s \<longleftrightarrow>
     sib_key s \<noteq> session_key \<and>
     (\<exists>a. sib_account s = Some a \<and> session_at h vault_key (sib_key s) a \<and>
        (live_at n a \<or> sib_writable s))"

definition sib_live :: "i64 \<Rightarrow> sibling \<Rightarrow> bool" where
  "sib_live n s \<longleftrightarrow> (\<exists>a. sib_account s = Some a \<and> live_at n a)"

definition sib_cap :: "sibling \<Rightarrow> nat" where
  "sib_cap s = (case sib_account s of None \<Rightarrow> 0 | Some a \<Rightarrow> unat (sr_max_amount (sa_session a)))"

definition sib_clear :: "sibling \<Rightarrow> pubkey \<times> session_account" where
  "sib_clear s = (sib_key s, clear_session (the (sib_account s)))"

definition gate_adds :: "i64 \<Rightarrow> sibling list \<Rightarrow> gate_state \<Rightarrow> gate_state \<Rightarrow> bool" where
  "gate_adds n ss g g' \<longleftrightarrow>
     unat (sibling_sum g') = unat (sibling_sum g) + sum_list (map sib_cap (filter (sib_live n) ss)) \<and>
     unat (live_counted g') = unat (live_counted g) + length (filter (sib_live n) ss) \<and>
     unat (swept g') = unat (swept g) + length (filter (Not \<circ> sib_live n) ss) \<and>
     cleared g' = cleared g @ map sib_clear (filter (Not \<circ> sib_live n) ss)"

lemma visit_sibling_eq_Inr:
  "visit_sibling h n vk sk prev s g = Inr g' \<longleftrightarrow>
     (case prev of None \<Rightarrow> True | Some p \<Rightarrow> p < sib_key s) \<and> good_sibling h n vk sk s \<and>
     gate_adds n [s] g g'"
proof (cases "sib_account s")
  case None
  then show ?thesis by (simp add: visit_sibling_def good_sibling_def result_simps)
next
  case (Some a)
  show ?thesis
  proof (cases "live_at n a")
    case True
    then have "sint n < sint (sr_expires_at (sa_session a))" by (simp add: live_at_def)
    with Some True show ?thesis
      by (cases g; cases g')
        (auto simp: visit_sibling_def good_sibling_def gate_adds_def session_at_def sib_live_def
          sib_cap_def result_simps word_ops simp flip: word_unat_eq_iff)
  next
    case False
    then have "\<not> sint n < sint (sr_expires_at (sa_session a))" by (simp add: live_at_def)
    with Some False show ?thesis
      by (cases g; cases g')
        (auto simp: visit_sibling_def good_sibling_def gate_adds_def session_at_def sib_live_def
          sib_cap_def sib_clear_def result_simps word_ops simp flip: word_unat_eq_iff)
  qed
qed

lemma gate_adds_Nil [simp]: "gate_adds n [] g g' \<longleftrightarrow> g' = g"
  by (cases g; cases g') (auto simp: gate_adds_def simp flip: word_unat_eq_iff)

lemma word_between:
  fixes c :: "'a::len word"
  assumes "unat c = x + y"
  shows "\<exists>b :: 'a word. unat b = x"
  using assms unat_less_2p [of c]
  by (intro exI [of _ "word_of_nat x"]) (simp add: unat_of_nat take_bit_nat_eq_self)

lemma gate_adds_Cons:
  "gate_adds n (s # ss) g g' \<longleftrightarrow> (\<exists>g1. gate_adds n [s] g g1 \<and> gate_adds n ss g1 g')"
    (is "?l \<longleftrightarrow> ?r")
proof
  assume l: ?l
  have "unat (sibling_sum g') = (unat (sibling_sum g) + (if sib_live n s then sib_cap s else 0)) +
      sum_list (map sib_cap (filter (sib_live n) ss))"
    using l by (simp add: gate_adds_def)
  then obtain b1 :: u64 where
    b1: "unat b1 = unat (sibling_sum g) + (if sib_live n s then sib_cap s else 0)"
    using word_between by blast
  have "unat (live_counted g') = (unat (live_counted g) + (if sib_live n s then 1 else 0)) +
      length (filter (sib_live n) ss)"
    using l by (simp add: gate_adds_def)
  then obtain b2 :: u8 where
    b2: "unat b2 = unat (live_counted g) + (if sib_live n s then 1 else 0)"
    using word_between by blast
  have "unat (swept g') = (unat (swept g) + (if sib_live n s then 0 else 1)) +
      length (filter (Not \<circ> sib_live n) ss)"
    using l by (simp add: gate_adds_def)
  then obtain b3 :: u8 where
    b3: "unat b3 = unat (swept g) + (if sib_live n s then 0 else 1)"
    using word_between by blast
  let ?g1 = "\<lparr> sibling_sum = b1, live_counted = b2, swept = b3,
    cleared = cleared g @ (if sib_live n s then [] else [sib_clear s]) \<rparr>"
  have "gate_adds n [s] g ?g1" "gate_adds n ss ?g1 g'"
    using l b1 b2 b3 by (simp_all add: gate_adds_def split: if_splits)
  then show ?r by blast
next
  assume ?r then show ?l by (auto simp: gate_adds_def split: if_splits)
qed

lemma visit_siblings_eq_Inr:
  "visit_siblings h n vk sk prev ss g = Inr g' \<longleftrightarrow>
     sorted_wrt (<) (map sib_key ss) \<and>
     (case prev of None \<Rightarrow> True | Some p \<Rightarrow> \<forall>s\<in>set ss. p < sib_key s) \<and>
     (\<forall>s\<in>set ss. good_sibling h n vk sk s) \<and> gate_adds n ss g g'"
proof (induction ss arbitrary: prev g)
  case Nil
  then show ?case by (auto split: option.splits)
next
  case (Cons s ss)
  have "visit_siblings h n vk sk prev (s # ss) g = Inr g' \<longleftrightarrow>
    (case prev of None \<Rightarrow> True | Some p \<Rightarrow> p < sib_key s) \<and>
    sorted_wrt (<) (map sib_key (s # ss)) \<and> (\<forall>x\<in>set (s # ss). good_sibling h n vk sk x) \<and>
    (\<exists>g1. gate_adds n [s] g g1 \<and> gate_adds n ss g1 g')"
    by (auto simp: result_simps visit_sibling_eq_Inr Cons.IH)
  also have "(\<exists>g1. gate_adds n [s] g g1 \<and> gate_adds n ss g1 g') \<longleftrightarrow> gate_adds n (s # ss) g g'"
    by (rule gate_adds_Cons [symmetric])
  finally show ?case by (cases prev) (auto intro: less_trans)
qed

section \<open>Registration\<close>

definition registration_of :: "register_session_key_args \<Rightarrow> session_registration" where
  "registration_of args =
     \<lparr> sr_session_pubkey = ra_session_pubkey args,
       sr_max_amount = ra_max_amount args,
       sr_expires_at = ra_expires_at args,
       sr_allowed_counterparty = ra_allowed_counterparty args,
       sr_nonce = ra_nonce args,
       sr_spent = 0,
       sr_current_outstanding = 0,
       sr_max_revolving_capacity = ra_max_revolving_capacity args,
       sr_crystallized_cumulative = 0,
       sr_last_locked_sequence = 0 \<rparr>"

definition register_message :: "pubkey \<Rightarrow> register_session_key_args \<Rightarrow> byte list" where
  "register_message vault_key args =
     build_registration_message PROGRAM_ID vault_key (ra_session_pubkey args)
       (ra_max_amount args) (ra_expires_at args) (ra_allowed_counterparty args) (ra_nonce args)
       (ra_max_revolving_capacity args)"

text \<open>Part C of the handler, the overcommit gate.\<close>

definition overcommit_gate ::
  "host \<Rightarrow> i64 \<Rightarrow> vault \<Rightarrow> pubkey \<Rightarrow> u64 \<Rightarrow> pubkey \<Rightarrow> bool \<Rightarrow> sibling list \<Rightarrow> u64 \<Rightarrow>
     error + gate_state" where
  "overcommit_gate h n v vault_key ata_amount session_key is_new siblings max_amount =
     require (live_session_count v < 255) (VaultError SessionCountAtMax) (
     bind_res (visit_siblings h n vault_key session_key None siblings gate_start) (\<lambda>g.
     bind_res (ok_or (checked_add (live_counted g) (swept g)) (VaultError IncompleteSessionSet))
       (\<lambda>total_passed.
     bind_res (ok_or (checked_sub (live_session_count v) (if is_new then 0 else 1))
                 (VaultError IncompleteSessionSet)) (\<lambda>expected_total.
     require (total_passed = expected_total) (VaultError IncompleteSessionSet) (
     bind_res (ok_or (case checked_add (sibling_sum g) max_amount of
                        None \<Rightarrow> None
                      | Some x \<Rightarrow> checked_add x (outstanding_locked_amount v))
                 (VaultError SessionWouldOvercommitVault)) (\<lambda>combined.
     require (combined \<le> ata_amount) (VaultError SessionWouldOvercommitVault) (
     Inr g)))))))"

text \<open>Part E, the count re-sync and the write.\<close>

definition write_registration ::
  "vault \<Rightarrow> pubkey \<Rightarrow> session_account \<Rightarrow> u8 \<Rightarrow> u8 \<Rightarrow> register_session_key_args \<Rightarrow>
     error + vault \<times> session_account" where
  "write_registration v vault_key session bump_seed swept_count args =
     (let is_new = sa_version session = 0 in
     bind_res (ok_or (checked_sub (live_session_count v) swept_count)
                 (VaultError IncompleteSessionSet)) (\<lambda>count1.
     bind_res (if is_new then ok_or (checked_add count1 1) (VaultError SessionCountAtMax)
               else Inr count1) (\<lambda>count2.
     let session' = (if is_new
                     then session\<lparr>sa_version := SESSION_VERSION_V1, sa_bump := bump_seed,
                                  sa_vault := vault_key\<rparr>
                     else session) in
     Inr (v\<lparr>live_session_count := count2\<rparr>,
          session'\<lparr>sa_session := registration_of args\<rparr>))))"

definition register_session_key_handler ::
  "host \<Rightarrow> tx_env \<Rightarrow> vault \<Rightarrow> pubkey \<Rightarrow> token_account \<Rightarrow> pubkey \<Rightarrow> pubkey \<Rightarrow> session_account \<Rightarrow> u8 \<Rightarrow>
     sibling list \<Rightarrow> register_session_key_args \<Rightarrow>
     error + vault \<times> session_account \<times> (pubkey \<times> session_account) list" where
  "register_session_key_handler h e v vault_key ata swig_wallet session_key session bump_seed
       siblings args =
     require (version v = VAULT_VERSION_V6) (VaultError UnsupportedVaultVersion) (
     require (0 < ra_max_amount args) (VaultError SessionCapZero) (
     require (0 < ra_max_revolving_capacity args) (VaultError RevolvingCapacityZero) (
     require (sint (now e) < sint (ra_expires_at args)) (VaultError SessionExpiryInPast) (
     require (ta_owner ata = swig_wallet) (VaultError PasskeyVerificationFailed) (
     bind_res (overcommit_gate h (now e) v vault_key (ta_amount ata) session_key
                 (sa_version session = 0) siblings (ra_max_amount args)) (\<lambda>g.
     bind_res (verify_passkey_signed h (sysvar e) (passkey_pubkey v)
                 (ra_client_data_json args) (ra_authenticator_data args)
                 (register_message vault_key args)) (\<lambda>_.
     bind_res (write_registration v vault_key session bump_seed (swept g) args)
       (\<lambda>(v', session').
     Inr (v', session', cleared g)))))))))"

text \<open>The accounts: \<open>init_if_needed\<close> creates the session at its canonical address when there is none.\<close>

definition register_session_key ::
  "host \<Rightarrow> tx_env \<Rightarrow> vault \<Rightarrow> session_account option \<Rightarrow> sibling list \<Rightarrow>
     register_session_key_accounts \<Rightarrow> register_session_key_args \<Rightarrow>
     error + vault \<times> session_account \<times> (pubkey \<times> session_account) list" where
  "register_session_key h e v existing siblings accs args =
     bind_res (load_token e (rg_usdc_ata accs)) (\<lambda>ata.
     bind_res (check_signer e (rg_payer accs)) (\<lambda>_.
     bind_res (ok_or (find_program_address h
                  (session_seeds (rg_vault accs) (ra_allowed_counterparty args)) PROGRAM_ID) Panic)
       (\<lambda>(derived, bump_seed).
     require (rg_session accs = derived) (AnchorError ConstraintSeeds) (
     bind_res (check_swig_pair h (swig_address v) (rg_swig accs) (rg_swig_wallet accs)) (\<lambda>_.
     register_session_key_handler h e v (rg_vault accs) ata (rg_swig_wallet accs)
       (rg_session accs) (case existing of None \<Rightarrow> fresh_session_account | Some a \<Rightarrow> a)
       bump_seed siblings args)))))"

text \<open>What admission means: the passed siblings are distinct session accounts of this vault, as many
  as the vault counts beside the target, and the live ones among them, the new cap and the
  crystallized claims fit in the balance together.\<close>

definition session_is_new :: "session_account \<Rightarrow> bool" where
  "session_is_new a \<longleftrightarrow> sa_version a = 0"

definition admitted ::
  "host \<Rightarrow> i64 \<Rightarrow> vault \<Rightarrow> pubkey \<Rightarrow> u64 \<Rightarrow> pubkey \<Rightarrow> session_account \<Rightarrow> sibling list \<Rightarrow> u64 \<Rightarrow> bool"
  where
  "admitted h n v vault_key balance session_key session siblings cap \<longleftrightarrow>
     sorted_wrt (<) (map sib_key siblings) \<and>
     (\<forall>s\<in>set siblings. good_sibling h n vault_key session_key s) \<and>
     unat (live_session_count v) =
       length siblings + (if session_is_new session then 0 else 1) \<and>
     sum_list (map sib_cap (filter (sib_live n) siblings)) + unat cap +
       unat (outstanding_locked_amount v) \<le> unat balance"

lemma checked_sum3:
  fixes a b l bal :: "'a::len word"
  shows "(\<exists>c. (case checked_add a b of None \<Rightarrow> None | Some x \<Rightarrow> checked_add x l) = Some c \<and> c \<le> bal)
    \<longleftrightarrow> unat a + unat b + unat l \<le> unat bal" (is "?l \<longleftrightarrow> ?r")
proof
  assume ?l then show ?r by (auto simp: word_ops word_le_nat_alt split: option.splits)
next
  assume r: ?r
  then have "unat a + unat b < 2 ^ LENGTH('a)" "unat a + unat b + unat l < 2 ^ LENGTH('a)"
    using unat_less_2p [of bal] by linarith+
  then have "checked_add a b = Some (a + b)" by (simp add: checked_add_def)
  moreover from this have "unat (a + b) = unat a + unat b" by (simp add: word_ops)
  moreover from this have "checked_add (a + b) l = Some (a + b + l)"
    using \<open>unat a + unat b + unat l < 2 ^ LENGTH('a)\<close> by (simp add: checked_add_def)
  moreover from this have "unat (a + b + l) = unat (a + b) + unat l" by (simp add: word_ops)
  ultimately show ?l using r by (simp add: word_le_nat_alt)
qed

lemma length_live_expired:
  "length (filter (sib_live n) ss) + length (filter (Not \<circ> sib_live n) ss) = length ss"
  using sum_length_filter_compl [of "sib_live n" ss] by (simp add: comp_def)

lemma gate_total:
  assumes "gate_adds n ss gate_start g"
  shows "(\<exists>t. checked_add (live_counted g) (swept g) = Some t \<and>
      checked_sub count (if fresh then 0 else 1) = Some t) \<longleftrightarrow>
    unat count = length ss + (if fresh then 0 else 1)" (is "?l \<longleftrightarrow> ?r")
proof -
  have len: "unat (live_counted g) + unat (swept g) = length ss"
    using assms length_live_expired [of n ss] by (simp add: gate_adds_def gate_start_def)
  show ?thesis
  proof
    assume ?l then show ?r using len by (auto simp: word_ops split: if_splits)
  next
    assume r: ?r
    then have "checked_add (live_counted g) (swept g) = Some (live_counted g + swept g)"
      using len unat_less_2p [of count] by (simp add: checked_add_def split: if_splits)
    moreover from this have "unat (live_counted g + swept g) = length ss"
      using len by (simp add: word_ops)
    ultimately show ?l using r by (auto simp: word_ops)
  qed
qed

lemma gate_exists:
  assumes "sum_list (map sib_cap (filter (sib_live n) ss)) < 2 ^ 64" and "length ss < 256"
  obtains g where "gate_adds n ss gate_start g"
proof -
  let ?g = "\<lparr> sibling_sum = word_of_nat (sum_list (map sib_cap (filter (sib_live n) ss))),
    live_counted = word_of_nat (length (filter (sib_live n) ss)),
    swept = word_of_nat (length (filter (Not \<circ> sib_live n) ss)),
    cleared = map sib_clear (filter (Not \<circ> sib_live n) ss) \<rparr>"
  have "gate_adds n ss gate_start ?g"
    using assms length_live_expired [of n ss]
    by (simp add: gate_adds_def gate_start_def unat_of_nat take_bit_nat_eq_self)
  then show ?thesis by (rule that)
qed

lemma resync_count:
  fixes count swept c2 :: u8
  assumes "unat swept \<le> unat count" and "unat count < 255"
  shows "(\<exists>c1. checked_sub count swept = Some c1 \<and>
      (if fresh then ok_or (checked_add c1 1) err else Inr c1) = Inr c2) \<longleftrightarrow>
    unat c2 + unat swept = unat count + (if fresh then 1 else 0)"
proof -
  have c1: "checked_sub count swept = Some (count - swept)" "unat (count - swept) = unat count - unat swept"
    using assms by (simp_all add: checked_sub_def word_le_nat_alt unat_sub)
  have "(\<exists>c1. checked_sub count swept = Some c1 \<and>
      (if fresh then ok_or (checked_add c1 1) err else Inr c1) = Inr c2) \<longleftrightarrow>
    (if fresh then unat c2 = unat (count - swept) + 1 else c2 = count - swept)"
    unfolding c1(1) by (auto simp: result_simps checked_add_eq_Some)
  then show ?thesis
    using c1(2) assms by (auto simp: word_unat_eq_iff)
qed

definition registered_session ::
  "session_account \<Rightarrow> u8 \<Rightarrow> pubkey \<Rightarrow> register_session_key_args \<Rightarrow> session_account" where
  "registered_session session b vault_key args =
     (if session_is_new session
      then \<lparr> sa_version = 1, sa_bump = b, sa_vault = vault_key, sa_session = registration_of args \<rparr>
      else session\<lparr>sa_session := registration_of args\<rparr>)"

definition count_after :: "vault \<Rightarrow> i64 \<Rightarrow> session_account \<Rightarrow> sibling list \<Rightarrow> u8 \<Rightarrow> bool" where
  "count_after v n session siblings c \<longleftrightarrow>
     unat c + length (filter (Not \<circ> sib_live n) siblings) =
       unat (live_session_count v) + (if session_is_new session then 1 else 0)"

lemma overcommit_gate_eq_Inr:
  "overcommit_gate h n v vk bal sk (session_is_new session) siblings cap = Inr g \<longleftrightarrow>
     live_session_count v < 255 \<and> admitted h n v vk bal sk session siblings cap \<and>
     gate_adds n siblings gate_start g" (is "?l \<longleftrightarrow> ?r")
proof -
  have "?l \<longleftrightarrow> live_session_count v < 255 \<and>
     visit_siblings h n vk sk None siblings gate_start = Inr g \<and>
     (\<exists>t. checked_add (live_counted g) (swept g) = Some t \<and>
        checked_sub (live_session_count v) (if session_is_new session then 0 else 1) = Some t) \<and>
     (\<exists>c. (case checked_add (sibling_sum g) cap of None \<Rightarrow> None
          | Some x \<Rightarrow> checked_add x (outstanding_locked_amount v)) = Some c \<and> c \<le> bal)"
    unfolding overcommit_gate_def bind_res_eq_Inr require_eq_Inr ok_or_eq_Inr by fast
  also have "\<dots> \<longleftrightarrow> ?r"
    unfolding visit_siblings_eq_Inr checked_sum3
    using gate_total [of n siblings g "live_session_count v" "session_is_new session"]
    by (auto simp: admitted_def gate_adds_def gate_start_def)
  finally show ?thesis .
qed

lemma write_registration_eq_Inr:
  assumes "gate_adds n siblings gate_start g" and "length siblings \<le> unat (live_session_count v)"
    and "live_session_count v < 255"
  shows "write_registration v vk session b (swept g) args = Inr (v', s') \<longleftrightarrow>
     (\<exists>c. count_after v n session siblings c \<and> v' = v\<lparr>live_session_count := c\<rparr>) \<and>
     s' = registered_session session b vk args"
proof -
  have sw: "unat (swept g) = length (filter (Not \<circ> sib_live n) siblings)"
    using assms(1) by (simp add: gate_adds_def gate_start_def)
  then have le: "unat (swept g) \<le> unat (live_session_count v)"
    using assms(2) length_live_expired [of n siblings] by linarith
  have lt: "unat (live_session_count v) < 255" using assms(3) by (simp add: word_less_nat_alt)
  have "write_registration v vk session b (swept g) args = Inr (v', s') \<longleftrightarrow>
     (\<exists>c2. (\<exists>c1. checked_sub (live_session_count v) (swept g) = Some c1 \<and>
          (if session_is_new session
           then ok_or (checked_add c1 1) (VaultError SessionCountAtMax) else Inr c1) = Inr c2) \<and>
        v' = v\<lparr>live_session_count := c2\<rparr>) \<and>
     s' = registered_session session b vk args"
    by (auto simp: write_registration_def Let_def session_is_new_def registered_session_def
        result_simps)
  then show ?thesis
    unfolding resync_count [OF le lt] count_after_def sw by simp
qed

lemma register_session_key_handler_eq_Inr:
  "register_session_key_handler h e v vk ata w sk session b siblings args = Inr (v', s', cl) \<longleftrightarrow>
     version v = 6 \<and> 0 < ra_max_amount args \<and> 0 < ra_max_revolving_capacity args \<and>
     sint (now e) < sint (ra_expires_at args) \<and> ta_owner ata = w \<and> live_session_count v < 255 \<and>
     admitted h (now e) v vk (ta_amount ata) sk session siblings (ra_max_amount args) \<and>
     passkey_authorized h (sysvar e) (passkey_pubkey v) (ra_client_data_json args)
       (ra_authenticator_data args) (register_message vk args) \<and>
     (\<exists>c. count_after v (now e) session siblings c \<and> v' = v\<lparr>live_session_count := c\<rparr>) \<and>
     s' = registered_session session b vk args \<and>
     cl = map sib_clear (filter (Not \<circ> sib_live (now e)) siblings)" (is "?l \<longleftrightarrow> ?r")
proof -
  let ?gate = "\<lambda>g. overcommit_gate h (now e) v vk (ta_amount ata) sk (session_is_new session)
    siblings (ra_max_amount args) = Inr g"
  have "?l \<longleftrightarrow> version v = 6 \<and> 0 < ra_max_amount args \<and> 0 < ra_max_revolving_capacity args \<and>
     sint (now e) < sint (ra_expires_at args) \<and> ta_owner ata = w \<and>
     (\<exists>g. ?gate g \<and> passkey_authorized h (sysvar e) (passkey_pubkey v) (ra_client_data_json args)
       (ra_authenticator_data args) (register_message vk args) \<and>
        write_registration v vk session b (swept g) args = Inr (v', s') \<and> cl = cleared g)"
    by (simp only: register_session_key_handler_def session_is_new_def bind_res_eq_Inr
        require_eq_Inr verify_passkey_signed_eq_Inr version_defs split_paired_Ex prod.case
        sum.inject prod.inject) fast
  moreover have "?gate g \<and> write_registration v vk session b (swept g) args = Inr (v', s') \<and>
      cl = cleared g \<longleftrightarrow> ?gate g \<and>
      (\<exists>c. count_after v (now e) session siblings c \<and> v' = v\<lparr>live_session_count := c\<rparr>) \<and>
      s' = registered_session session b vk args \<and>
      cl = map sib_clear (filter (Not \<circ> sib_live (now e)) siblings)" for g
  proof (cases "?gate g")
    case True
    then have g: "gate_adds (now e) siblings gate_start g" "live_session_count v < 255"
      "length siblings \<le> unat (live_session_count v)"
      by (simp_all add: overcommit_gate_eq_Inr admitted_def)
    then have "cleared g = map sib_clear (filter (Not \<circ> sib_live (now e)) siblings)"
      by (simp add: gate_adds_def gate_start_def)
    then show ?thesis
      using True write_registration_eq_Inr [OF g(1,3,2)] by simp
  qed blast
  moreover have "(\<exists>g. ?gate g) \<longleftrightarrow> live_session_count v < 255 \<and>
      admitted h (now e) v vk (ta_amount ata) sk session siblings (ra_max_amount args)"
  proof -
    have "\<exists>g. gate_adds (now e) siblings gate_start g"
      if "admitted h (now e) v vk (ta_amount ata) sk session siblings (ra_max_amount args)"
    proof -
      have "sum_list (map sib_cap (filter (sib_live (now e)) siblings)) < 2 ^ 64"
        "length siblings < 256"
        using that unat_less_2p [of "ta_amount ata"] unat_less_2p [of "live_session_count v"]
        by (auto simp: admitted_def)
      then show ?thesis using gate_exists by blast
    qed
    then show ?thesis unfolding overcommit_gate_eq_Inr by blast
  qed
  ultimately show ?thesis by fast
qed

lemma register_session_key_eq_Inr:
  "register_session_key h e v existing siblings accs args = Inr (v', s', cl) \<longleftrightarrow>
     (\<exists>ata b. tokens e (rg_usdc_ata accs) = Some ata \<and> rg_payer accs \<in> set (signers e) \<and>
        find_program_address h (session_seeds (rg_vault accs) (ra_allowed_counterparty args))
          PROGRAM_ID = Some (rg_session accs, b) \<and>
        rg_swig accs = swig_address v \<and>
        seeds_canonical h (swig_wallet_seeds (rg_swig accs)) SWIG_PROGRAM_ID (rg_swig_wallet accs) \<and>
        register_session_key_handler h e v (rg_vault accs) ata (rg_swig_wallet accs)
          (rg_session accs) (case existing of None \<Rightarrow> fresh_session_account | Some a \<Rightarrow> a) b siblings
          args = Inr (v', s', cl))"
  by (auto simp: register_session_key_def result_simps split: prod.splits)

section \<open>Revocation\<close>

record revoke_session_key_args =
  rk_allowed_counterparty :: pubkey
  rk_client_data_json :: "byte list"
  rk_authenticator_data :: "byte list"

definition revoke_session_key_handler ::
  "host \<Rightarrow> tx_env \<Rightarrow> vault \<Rightarrow> pubkey \<Rightarrow> session_account \<Rightarrow> revoke_session_key_args \<Rightarrow>
     error + vault \<times> session_account" where
  "revoke_session_key_handler h e v vault_key session args =
     require (version v = VAULT_VERSION_V6) (VaultError UnsupportedVaultVersion) (
     require (sa_version session \<noteq> 0) (VaultError NoActiveSession) (
     let revocation_message = build_revocation_message PROGRAM_ID vault_key
                                (sr_session_pubkey (sa_session session)) in
     bind_res (verify_passkey_signed h (sysvar e) (passkey_pubkey v)
                 (rk_client_data_json args) (rk_authenticator_data args) revocation_message) (\<lambda>_.
     let session' = session\<lparr>sa_version := 0, sa_session := zero_registration\<rparr> in
     bind_res (ok_or (checked_sub (live_session_count v) 1) (VaultError IncompleteSessionSet)) (\<lambda>n.
     Inr (v\<lparr>live_session_count := n\<rparr>, session')))))"

text \<open>\<open>seeds = [SESSION_SEED, vault, args.allowed_counterparty], bump = session.bump\<close>.\<close>

definition check_session_seeds ::
  "host \<Rightarrow> pubkey \<Rightarrow> pubkey \<Rightarrow> session_account \<Rightarrow> pubkey \<Rightarrow> error + unit" where
  "check_session_seeds h vault_key counterparty session session_key =
     require (seeds_with_bump h (session_seeds vault_key counterparty) (sa_bump session) session_key)
       (AnchorError ConstraintSeeds) (Inr ())"

lemma check_session_seeds_eq_Inr [result_simps]:
  "check_session_seeds h vk c s k = Inr u \<longleftrightarrow>
     create_program_address h (session_seeds vk c @ [[sa_bump s]]) PROGRAM_ID = Some k"
  by (simp add: check_session_seeds_def seeds_with_bump_def result_simps)

definition revoke_session_key ::
  "host \<Rightarrow> tx_env \<Rightarrow> vault \<Rightarrow> pubkey \<Rightarrow> session_account \<Rightarrow> pubkey \<Rightarrow> revoke_session_key_args \<Rightarrow>
     error + vault \<times> session_account" where
  "revoke_session_key h e v vault_key session session_key args =
     bind_res (check_session_seeds h vault_key (rk_allowed_counterparty args) session session_key)
       (\<lambda>_. revoke_session_key_handler h e v vault_key session args)"

lemma revoke_session_key_eq_Inr:
  "revoke_session_key h e v vk s sk args = Inr (v', s') \<longleftrightarrow>
     create_program_address h (session_seeds vk (rk_allowed_counterparty args) @ [[sa_bump s]])
       PROGRAM_ID = Some sk \<and>
     version v = 6 \<and> sa_version s \<noteq> 0 \<and> 0 < live_session_count v \<and>
     passkey_authorized h (sysvar e) (passkey_pubkey v) (rk_client_data_json args)
       (rk_authenticator_data args)
       (build_revocation_message PROGRAM_ID vk (sr_session_pubkey (sa_session s))) \<and>
     v' = v\<lparr>live_session_count := live_session_count v - 1\<rparr> \<and> s' = clear_session s"
proof -
  have "checked_sub (live_session_count v) 1 = Some n \<longleftrightarrow>
      0 < live_session_count v \<and> n = live_session_count v - 1" for n
    by (cases "0 < live_session_count v")
      (auto simp: checked_sub_one checked_sub_def word_le_nat_alt word_less_nat_alt Suc_le_eq)
  then show ?thesis
    by (auto simp: revoke_session_key_def revoke_session_key_handler_def Let_def result_simps
        clear_session_def)
qed

section \<open>Closing a cleared session\<close>

text \<open>Success means Anchor's \<open>close = dexter_authority\<close> then deletes the account.\<close>

definition close_session ::
  "host \<Rightarrow> tx_env \<Rightarrow> vault \<Rightarrow> pubkey \<Rightarrow> session_account \<Rightarrow> pubkey \<Rightarrow> pubkey \<Rightarrow> pubkey \<Rightarrow> error + unit"
  where
  "close_session h e v vault_key session session_key authority allowed_counterparty =
     bind_res (check_signer e authority) (\<lambda>_.
     bind_res (has_one_authority v authority) (\<lambda>_.
     bind_res (check_session_seeds h vault_key allowed_counterparty session session_key) (\<lambda>_.
     require (version v = VAULT_VERSION_V6) (VaultError UnsupportedVaultVersion) (
     require (sa_version session = 0) (VaultError SessionStillLive) (
     Inr ())))))"

lemma close_session_eq_Inr:
  "close_session h e v vk s sk a c = Inr u \<longleftrightarrow>
     a \<in> set (signers e) \<and> a = dexter_authority v \<and>
     create_program_address h (session_seeds vk c @ [[sa_bump s]]) PROGRAM_ID = Some sk \<and>
     version v = 6 \<and> sa_version s = 0"
  by (auto simp: close_session_def result_simps)

section \<open>Passkey gates\<close>

interpretation register_gate: passkey_gated
  "\<lambda>h e (v, existing, siblings, accs) args. register_session_key h e v existing siblings accs args"
  "\<lambda>(v, existing, siblings, accs). passkey_pubkey v"
  "\<lambda>(v, existing, siblings, accs) args. OpRegister (rg_vault accs) (ra_session_pubkey args)
     (ra_max_amount args) (ra_expires_at args) (ra_allowed_counterparty args) (ra_nonce args)
     (ra_max_revolving_capacity args)"
  ra_client_data_json ra_authenticator_data
  by unfold_locales
    (auto simp: register_session_key_eq_Inr register_session_key_handler_eq_Inr
      register_message_def)

interpretation revoke_gate: passkey_gated
  "\<lambda>h e (v, vk, s, sk) args. revoke_session_key h e v vk s sk args"
  "\<lambda>(v, vk, s, sk). passkey_pubkey v"
  "\<lambda>(v, vk, s, sk) args. OpRevoke vk (sr_session_pubkey (sa_session s))"
  rk_client_data_json rk_authenticator_data
  by unfold_locales (auto simp: revoke_session_key_eq_Inr)

end
