(* ===== verification/Tabs.thy ===== *)
theory Tabs
  imports Sessions
begin

text \<open>
  What a session key spends: \<open>settle_voucher.rs\<close> (opening and closing a tab),
  \<open>settle_tab_voucher.rs\<close> (paying a signed voucher) and \<open>lock_voucher.rs\<close> (crystallizing a signed
  voucher into a claim). The two consumers of vouchers share the frontier, the larger of the two
  terminal odometers of the session; the locale \<open>voucher_spend\<close> is that contract.
\<close>

section \<open>Opening and closing a tab\<close>

record settle_voucher_args =
  sv_amount :: u64
  sv_increment :: bool
  sv_allowed_counterparty :: pubkey

definition settle_voucher_handler ::
  "vault \<Rightarrow> session_account option \<Rightarrow> settle_voucher_args \<Rightarrow> error + vault \<times> session_account option"
  where
  "settle_voucher_handler v session args =
     require (version v = VAULT_VERSION_V6) (VaultError UnsupportedVaultVersion) (
     if sv_increment args then
       let v' = v\<lparr>pending_voucher_count := saturating_add (pending_voucher_count v) 1\<rparr> in
       bind_res (ok_or session (VaultError NoActiveSession)) (\<lambda>sa.
       require (sa_version sa \<noteq> 0) (VaultError NoActiveSession) (
       let s = sa_session sa in
       bind_res (ok_or (checked_add (sr_current_outstanding s) (sv_amount args))
                   (VaultError RevolvingCapacityExceeded)) (\<lambda>new_outstanding.
       require (new_outstanding \<le> sr_max_revolving_capacity s)
         (VaultError RevolvingCapacityExceeded) (
       Inr (v', Some (sa\<lparr>sa_session := s\<lparr>sr_current_outstanding := new_outstanding\<rparr>\<rparr>))))))
     else
       require (0 < pending_voucher_count v) (VaultError NoPendingWithdrawal) (
       bind_res (ok_or (checked_sub (pending_voucher_count v) 1) Panic) (\<lambda>n.
       Inr (v\<lparr>pending_voucher_count := n\<rparr>, session))))"

text \<open>The session is an optional account: its seeds are checked when it is present.\<close>

definition settle_voucher ::
  "host \<Rightarrow> tx_env \<Rightarrow> vault \<Rightarrow> pubkey \<Rightarrow> (pubkey \<times> session_account) option \<Rightarrow> pubkey \<Rightarrow>
     settle_voucher_args \<Rightarrow> error + vault \<times> session_account option" where
  "settle_voucher h e v vault_key session authority args =
     bind_res (check_signer e authority) (\<lambda>_.
     bind_res (has_one_authority v authority) (\<lambda>_.
     bind_res (case session of
                 None \<Rightarrow> Inr ()
               | Some (k, sa) \<Rightarrow>
                   check_session_seeds h vault_key (sv_allowed_counterparty args) sa k) (\<lambda>_.
     settle_voucher_handler v (map_option snd session) args)))"

lemma settle_voucher_handler_eq_Inr:
  "settle_voucher_handler v session args = Inr (v', session') \<longleftrightarrow>
     version v = 6 \<and>
     (if sv_increment args then
        \<exists>sa new. session = Some sa \<and> sa_version sa \<noteq> 0 \<and>
          unat new = unat (sr_current_outstanding (sa_session sa)) + unat (sv_amount args) \<and>
          new \<le> sr_max_revolving_capacity (sa_session sa) \<and>
          v' = v\<lparr>pending_voucher_count := saturating_add (pending_voucher_count v) 1\<rparr> \<and>
          session' = Some (sa\<lparr>sa_session := (sa_session sa)\<lparr>sr_current_outstanding := new\<rparr>\<rparr>)
      else 0 < pending_voucher_count v \<and> session' = session \<and>
        v' = v\<lparr>pending_voucher_count := pending_voucher_count v - 1\<rparr>)"
  by (auto simp: settle_voucher_handler_def Let_def result_simps checked_add_eq_Some
      checked_sub_one)

lemma settle_voucher_eq_Inr:
  "settle_voucher h e v vk session a args = Inr r \<longleftrightarrow>
     a \<in> set (signers e) \<and> a = dexter_authority v \<and>
     (\<forall>k sa. session = Some (k, sa) \<longrightarrow> create_program_address h
        (session_seeds vk (sv_allowed_counterparty args) @ [[sa_bump sa]]) PROGRAM_ID = Some k) \<and>
     settle_voucher_handler v (map_option snd session) args = Inr r"
  by (cases session) (auto simp: settle_voucher_def result_simps)

section \<open>Vouchers\<close>

definition voucher_message :: "32 bytes \<Rightarrow> u64 \<Rightarrow> u32 \<Rightarrow> byte list" where
  "voucher_message channel_id cumulative_amount sequence_number =
     to_list channel_id @ le_bytes 8 cumulative_amount @ le_bytes 4 sequence_number"

lemma voucher_message_inj:
  "voucher_message c a s = voucher_message c' a' s' \<longleftrightarrow> c = c' \<and> a = a' \<and> s = s'"
  by (auto simp: voucher_message_def bytes_eq_iff append_eq_append_conv)

definition frontier :: "session_registration \<Rightarrow> u64" where
  "frontier s = max (sr_spent s) (sr_crystallized_cumulative s)"

text \<open>What the ed25519 introspection establishes.\<close>

definition session_signed :: "instructions_sysvar \<Rightarrow> 32 bytes \<Rightarrow> byte list \<Rightarrow> bool" where
  "session_signed sv pk msg \<longleftrightarrow>
     (\<exists>ix. previous_instruction sv = Some ix \<and> ti_program_id ix = ED25519_VERIFY_PROGRAM_ID \<and>
        shows_key_and_message 32 (ti_data ix) (to_list pk) msg)"

lemma session_signed_iff: "session_signed sv pk msg \<longleftrightarrow> verify_session_signed sv pk msg = Inr ()"
  by (simp add: session_signed_def verify_session_signed_eq_Inr)

section \<open>Settling a tab voucher\<close>

record settle_tab_voucher_accounts =
  st_swig :: pubkey
  st_swig_wallet :: pubkey
  st_vault :: pubkey
  st_session :: pubkey
  st_dexter_authority :: pubkey

record settle_tab_voucher_args =
  st_channel_id :: "32 bytes"
  st_cumulative_amount :: u64
  st_sequence_number :: u32
  st_allowed_counterparty :: pubkey

definition settle_tab_voucher_handler ::
  "tx_env \<Rightarrow> vault \<Rightarrow> session_account \<Rightarrow> settle_tab_voucher_args \<Rightarrow>
     error + vault \<times> session_account" where
  "settle_tab_voucher_handler e v sa args =
     require (version v = VAULT_VERSION_V6) (VaultError UnsupportedVaultVersion) (
     require (swig_address v \<noteq> 0) (VaultError PasskeyVerificationFailed) (
     require (sa_version sa \<noteq> 0) (VaultError NoActiveSession) (
     let session = sa_session sa in
     require (sint (now e) < sint (sr_expires_at session)) (VaultError SessionExpiryInPast) (
     require (frontier session < st_cumulative_amount args) (VaultError LockRangeAlreadyClaimed) (
     require (st_cumulative_amount args \<le> sr_max_amount session)
       (VaultError InvalidVoucherSignature) (
     let msg = voucher_message (st_channel_id args) (st_cumulative_amount args)
                 (st_sequence_number args) in
     bind_res (verify_session_signed (sysvar e) (sr_session_pubkey session) msg) (\<lambda>_.
     bind_res (ok_or (checked_sub (st_cumulative_amount args) (sr_spent session))
                 (VaultError InvalidVoucherSignature)) (\<lambda>increment.
     let session' = session\<lparr>sr_spent := st_cumulative_amount args,
                            sr_current_outstanding :=
                              saturating_sub (sr_current_outstanding session) increment\<rparr>;
         v' = v\<lparr>pending_voucher_count := saturating_sub (pending_voucher_count v) 1\<rparr> in
     Inr (v', sa\<lparr>sa_session := session'\<rparr>)))))))))"

definition settle_tab_voucher ::
  "host \<Rightarrow> tx_env \<Rightarrow> vault \<Rightarrow> session_account \<Rightarrow> settle_tab_voucher_accounts \<Rightarrow>
     settle_tab_voucher_args \<Rightarrow> error + vault \<times> session_account" where
  "settle_tab_voucher h e v sa accs args =
     bind_res (check_signer e (st_dexter_authority accs)) (\<lambda>_.
     bind_res (check_swig_pair h (swig_address v) (st_swig accs) (st_swig_wallet accs)) (\<lambda>_.
     bind_res (has_one_authority v (st_dexter_authority accs)) (\<lambda>_.
     bind_res (check_session_seeds h (st_vault accs) (st_allowed_counterparty args) sa
                 (st_session accs)) (\<lambda>_.
     settle_tab_voucher_handler e v sa args))))"

text \<open>The amount the following transfer moves.\<close>

definition settle_increment :: "session_registration \<Rightarrow> u64 \<Rightarrow> u64" where
  "settle_increment s cumulative = cumulative - sr_spent s"

lemma checked_sub_above:
  fixes a b :: "'a::len word"
  assumes "b < a"
  shows "checked_sub a b = Some (a - b)"
  using assms by (simp add: checked_sub_def)

lemma unat_diff_less:
  fixes a b :: "'a::len word"
  assumes "b < a"
  shows "unat (a - b) = unat a - unat b"
  using assms by (intro unat_sub) simp

lemma frontier_less_iff:
  "frontier s < c \<longleftrightarrow> sr_spent s < c \<and> sr_crystallized_cumulative s < c"
  by (simp add: frontier_def)

lemma settle_tab_voucher_handler_eq_Inr:
  "settle_tab_voucher_handler e v sa args = Inr (v', sa') \<longleftrightarrow>
     version v = 6 \<and> swig_address v \<noteq> 0 \<and> sa_version sa \<noteq> 0 \<and>
     sint (now e) < sint (sr_expires_at (sa_session sa)) \<and>
     frontier (sa_session sa) < st_cumulative_amount args \<and>
     st_cumulative_amount args \<le> sr_max_amount (sa_session sa) \<and>
     session_signed (sysvar e) (sr_session_pubkey (sa_session sa))
       (voucher_message (st_channel_id args) (st_cumulative_amount args)
          (st_sequence_number args)) \<and>
     v' = v\<lparr>pending_voucher_count := saturating_sub (pending_voucher_count v) 1\<rparr> \<and>
     sa' = sa\<lparr>sa_session := (sa_session sa)\<lparr>sr_spent := st_cumulative_amount args,
       sr_current_outstanding := saturating_sub (sr_current_outstanding (sa_session sa))
         (settle_increment (sa_session sa) (st_cumulative_amount args))\<rparr>\<rparr>"
  unfolding settle_tab_voucher_handler_def Let_def session_signed_def
  by (auto simp: result_simps settle_increment_def frontier_less_iff checked_sub_above)

lemma settle_tab_voucher_eq_Inr:
  "settle_tab_voucher h e v sa accs args = Inr r \<longleftrightarrow>
     st_dexter_authority accs \<in> set (signers e) \<and> st_dexter_authority accs = dexter_authority v \<and>
     st_swig accs = swig_address v \<and>
     seeds_canonical h (swig_wallet_seeds (st_swig accs)) SWIG_PROGRAM_ID (st_swig_wallet accs) \<and>
     create_program_address h
       (session_seeds (st_vault accs) (st_allowed_counterparty args) @ [[sa_bump sa]]) PROGRAM_ID
       = Some (st_session accs) \<and>
     settle_tab_voucher_handler e v sa args = Inr r"
  by (auto simp: settle_tab_voucher_def result_simps)

section \<open>Locking a voucher\<close>

record lock_voucher_accounts =
  lk_vault :: pubkey
  lk_usdc_ata :: pubkey
  lk_swig :: pubkey
  lk_swig_wallet :: pubkey
  lk_session :: pubkey
  lk_claim :: pubkey
  lk_seller_holder :: pubkey
  lk_dexter_authority :: pubkey
  lk_payer :: pubkey

record lock_voucher_args =
  lk_channel_id :: "32 bytes"
  lk_cumulative_amount :: u64
  lk_sequence_number :: u32
  lk_voucher_hash :: "32 bytes"
  lk_maturity_at :: "i64 option"
  lk_holder_recovery_at :: "i64 option"
  lk_allowed_counterparty :: pubkey

definition recovery_follows_maturity :: "i64 option \<Rightarrow> i64 option \<Rightarrow> bool" where
  "recovery_follows_maturity m r \<longleftrightarrow>
     (case (m, r) of (Some maturity, Some recovery) \<Rightarrow> sint maturity < sint recovery | _ \<Rightarrow> True)"

text \<open>The graduation: what the session loses, the vault gains and the claim holds.\<close>

definition graduate_session :: "session_registration \<Rightarrow> u64 \<Rightarrow> u32 \<Rightarrow> session_registration" where
  "graduate_session s delta sequence_number =
     s\<lparr>sr_current_outstanding := saturating_sub (sr_current_outstanding s) delta,
       sr_crystallized_cumulative := saturating_add (sr_crystallized_cumulative s) delta,
       sr_last_locked_sequence := sequence_number\<rparr>"

definition lock_voucher_handler ::
  "host \<Rightarrow> tx_env \<Rightarrow> vault \<Rightarrow> pubkey \<Rightarrow> token_account \<Rightarrow> pubkey \<Rightarrow> session_account \<Rightarrow> u8 \<Rightarrow> pubkey \<Rightarrow>
     lock_voucher_args \<Rightarrow> error + vault \<times> session_account \<times> locked_claim" where
  "lock_voucher_handler h e v vault_key ata swig_wallet sa claim_bump seller_holder args =
     require (version v = VAULT_VERSION_V6) (VaultError UnsupportedVaultVersion) (
     require (swig_address v \<noteq> 0) (VaultError PasskeyVerificationFailed) (
     require (recovery_follows_maturity (lk_maturity_at args) (lk_holder_recovery_at args))
       (VaultError RecoveryBeforeMaturity) (
     require (ta_owner ata = swig_wallet) (VaultError PasskeyVerificationFailed) (
     require (sa_version sa \<noteq> 0) (VaultError NoActiveSession) (
     let session = sa_session sa in
     require (sint (now e) < sint (sr_expires_at session)) (VaultError SessionExpiryInPast) (
     require (frontier session < lk_cumulative_amount args) (VaultError LockRangeAlreadyClaimed) (
     require (lk_cumulative_amount args \<le> sr_max_amount session)
       (VaultError InvalidVoucherSignature) (
     let msg = voucher_message (lk_channel_id args) (lk_cumulative_amount args)
                 (lk_sequence_number args) in
     bind_res (verify_session_signed (sysvar e) (sr_session_pubkey session) msg) (\<lambda>_.
     require (sha256 h msg = lk_voucher_hash args) (VaultError InvalidVoucherSignature) (
     bind_res (ok_or (checked_sub (lk_cumulative_amount args) (sr_crystallized_cumulative session))
                 (VaultError LockRangeAlreadyClaimed)) (\<lambda>delta.
     require (0 < delta) (VaultError LockRangeAlreadyClaimed) (
     bind_res (ok_or (checked_add (outstanding_locked_amount v) delta)
                 (VaultError LockWouldOvercommitVault)) (\<lambda>proposed_outstanding.
     require (proposed_outstanding \<le> ta_amount ata) (VaultError LockWouldOvercommitVault) (
     Inr (v\<lparr>outstanding_locked_amount := proposed_outstanding,
            total_crystallized_amount := saturating_add (total_crystallized_amount v) delta\<rparr>,
          sa\<lparr>sa_session := graduate_session session delta (lk_sequence_number args)\<rparr>,
          \<lparr> lc_version = LOCKED_CLAIM_VERSION_V1,
            lc_bump = claim_bump,
            lc_vault = vault_key,
            lc_session_pubkey_at_lock = sr_session_pubkey session,
            lc_voucher_hash = lk_voucher_hash args,
            lc_amount = delta,
            lc_created_at = now e,
            lc_maturity_at = lk_maturity_at args,
            lc_holder_recovery_at = lk_holder_recovery_at args,
            lc_current_holder = seller_holder,
            lc_status = Pending,
            lc_settled_at = None,
            lc_recovered_at = None \<rparr>)))))))))))))))"

definition lock_voucher ::
  "host \<Rightarrow> tx_env \<Rightarrow> vault \<Rightarrow> session_account \<Rightarrow> locked_claim option \<Rightarrow> lock_voucher_accounts \<Rightarrow>
     lock_voucher_args \<Rightarrow> error + vault \<times> session_account \<times> locked_claim" where
  "lock_voucher h e v sa existing accs args =
     bind_res (load_token e (lk_usdc_ata accs)) (\<lambda>ata.
     bind_res (check_signer e (lk_seller_holder accs)) (\<lambda>_.
     bind_res (check_signer e (lk_dexter_authority accs)) (\<lambda>_.
     bind_res (check_signer e (lk_payer accs)) (\<lambda>_.
     bind_res (ok_or (find_program_address h
                  (claim_seeds (lk_vault accs) (lk_voucher_hash args)) PROGRAM_ID) Panic)
       (\<lambda>(derived, claim_bump).
     require (lk_claim accs = derived) (AnchorError ConstraintSeeds) (
     require (existing = None) (AnchorError AccountAlreadyInUse) (
     bind_res (has_one_authority v (lk_dexter_authority accs)) (\<lambda>_.
     bind_res (check_swig_pair h (swig_address v) (lk_swig accs) (lk_swig_wallet accs)) (\<lambda>_.
     bind_res (check_session_seeds h (lk_vault accs) (lk_allowed_counterparty args) sa
                 (lk_session accs)) (\<lambda>_.
     lock_voucher_handler h e v (lk_vault accs) ata (lk_swig_wallet accs) sa claim_bump
       (lk_seller_holder accs) args))))))))))"

definition lock_delta :: "session_registration \<Rightarrow> u64 \<Rightarrow> u64" where
  "lock_delta s cumulative = cumulative - sr_crystallized_cumulative s"

definition new_claim ::
  "tx_env \<Rightarrow> pubkey \<Rightarrow> session_registration \<Rightarrow> u8 \<Rightarrow> pubkey \<Rightarrow> lock_voucher_args \<Rightarrow> locked_claim" where
  "new_claim e vault_key s b seller args =
     \<lparr> lc_version = 1, lc_bump = b, lc_vault = vault_key,
       lc_session_pubkey_at_lock = sr_session_pubkey s, lc_voucher_hash = lk_voucher_hash args,
       lc_amount = lock_delta s (lk_cumulative_amount args), lc_created_at = now e,
       lc_maturity_at = lk_maturity_at args, lc_holder_recovery_at = lk_holder_recovery_at args,
       lc_current_holder = seller, lc_status = Pending, lc_settled_at = None,
       lc_recovered_at = None \<rparr>"

text \<open>The odometer jumps to the voucher's cumulative amount.\<close>

lemma graduate_session_above:
  assumes "frontier s < c"
  shows "graduate_session s (lock_delta s c) n =
    s\<lparr>sr_current_outstanding := saturating_sub (sr_current_outstanding s) (lock_delta s c),
      sr_crystallized_cumulative := c, sr_last_locked_sequence := n\<rparr>"
proof -
  have "checked_sub c (sr_crystallized_cumulative s) = Some (lock_delta s c)"
    using assms by (simp add: frontier_less_iff lock_delta_def checked_sub_above)
  then have "unat c = unat (sr_crystallized_cumulative s) + unat (lock_delta s c)"
    by (simp add: word_ops)
  then have "saturating_add (sr_crystallized_cumulative s) (lock_delta s c) = c"
    using saturating_add_no_sat [of "sr_crystallized_cumulative s" "lock_delta s c"]
      unat_less_2p [of c] by (simp add: word_unat_eq_iff)
  then show ?thesis by (simp add: graduate_session_def)
qed

lemma lock_delta_pos:
  assumes "frontier s < c"
  shows "0 < lock_delta s c"
proof -
  have "unat (lock_delta s c) = unat c - unat (sr_crystallized_cumulative s)"
    using assms by (simp add: lock_delta_def unat_diff_less frontier_less_iff)
  moreover have "unat (sr_crystallized_cumulative s) < unat c"
    using assms unfolding frontier_less_iff by (simp add: word_less_nat_alt)
  ultimately show ?thesis by (simp add: word_less_nat_alt)
qed

lemma frontier_settled:
  "frontier s < c \<Longrightarrow> frontier (s\<lparr>sr_spent := c, sr_current_outstanding := x\<rparr>) = c"
  by (simp add: frontier_less_iff frontier_def max_absorb1 less_imp_le)

lemma frontier_locked:
  "frontier s < c \<Longrightarrow> frontier (graduate_session s (lock_delta s c) n) = c"
  by (subst graduate_session_above) (simp_all add: frontier_less_iff frontier_def max_absorb2 less_imp_le)

lemma unat_lock_delta:
  "frontier s < c \<Longrightarrow> unat (lock_delta s c) = unat c - unat (sr_crystallized_cumulative s)"
  by (simp add: lock_delta_def unat_diff_less frontier_less_iff)

lemma unat_settle_increment:
  "frontier s < c \<Longrightarrow> unat (settle_increment s c) = unat c - unat (sr_spent s)"
  by (simp add: settle_increment_def unat_diff_less frontier_less_iff)

lemma lock_voucher_handler_eq_Inr:
  "lock_voucher_handler h e v vk ata w sa b seller args = Inr (v', sa', cl) \<longleftrightarrow>
     version v = 6 \<and> swig_address v \<noteq> 0 \<and>
     recovery_follows_maturity (lk_maturity_at args) (lk_holder_recovery_at args) \<and>
     ta_owner ata = w \<and> sa_version sa \<noteq> 0 \<and>
     sint (now e) < sint (sr_expires_at (sa_session sa)) \<and>
     frontier (sa_session sa) < lk_cumulative_amount args \<and>
     lk_cumulative_amount args \<le> sr_max_amount (sa_session sa) \<and>
     session_signed (sysvar e) (sr_session_pubkey (sa_session sa))
       (voucher_message (lk_channel_id args) (lk_cumulative_amount args) (lk_sequence_number args)) \<and>
     sha256 h (voucher_message (lk_channel_id args) (lk_cumulative_amount args)
       (lk_sequence_number args)) = lk_voucher_hash args \<and>
     (\<exists>proposed. unat proposed = unat (outstanding_locked_amount v) +
          unat (lock_delta (sa_session sa) (lk_cumulative_amount args)) \<and>
        proposed \<le> ta_amount ata \<and>
        v' = v\<lparr>outstanding_locked_amount := proposed,
               total_crystallized_amount := saturating_add (total_crystallized_amount v)
                 (lock_delta (sa_session sa) (lk_cumulative_amount args))\<rparr>) \<and>
     sa' = sa\<lparr>sa_session := graduate_session (sa_session sa)
       (lock_delta (sa_session sa) (lk_cumulative_amount args)) (lk_sequence_number args)\<rparr> \<and>
     cl = new_claim e vk (sa_session sa) b seller args" (is "?l \<longleftrightarrow> ?r")
proof (cases "frontier (sa_session sa) < lk_cumulative_amount args")
  case True
  note delta = lock_delta_pos [OF True, unfolded lock_delta_def]
  have sub: "checked_sub (lk_cumulative_amount args) (sr_crystallized_cumulative (sa_session sa)) =
      Some (lk_cumulative_amount args - sr_crystallized_cumulative (sa_session sa))"
    using True by (simp add: frontier_less_iff checked_sub_above)
  show ?thesis
    by (simp only: lock_voucher_handler_def Let_def bind_res_eq_Inr require_eq_Inr ok_or_eq_Inr
        verify_session_signed_eq_Inr version_defs sub option.inject sum.inject prod.inject
        checked_add_eq_Some session_signed_def new_claim_def lock_delta_def)
      (use True delta in fast)
next
  case False
  then show ?thesis by (simp add: lock_voucher_handler_def Let_def result_simps)
qed

lemma lock_voucher_eq_Inr:
  "lock_voucher h e v sa existing accs args = Inr r \<longleftrightarrow>
     (\<exists>ata b. tokens e (lk_usdc_ata accs) = Some ata \<and>
        lk_seller_holder accs \<in> set (signers e) \<and> lk_dexter_authority accs \<in> set (signers e) \<and>
        lk_payer accs \<in> set (signers e) \<and>
        find_program_address h (claim_seeds (lk_vault accs) (lk_voucher_hash args)) PROGRAM_ID =
          Some (lk_claim accs, b) \<and>
        existing = None \<and> lk_dexter_authority accs = dexter_authority v \<and>
        lk_swig accs = swig_address v \<and>
        seeds_canonical h (swig_wallet_seeds (lk_swig accs)) SWIG_PROGRAM_ID (lk_swig_wallet accs) \<and>
        create_program_address h
          (session_seeds (lk_vault accs) (lk_allowed_counterparty args) @ [[sa_bump sa]])
          PROGRAM_ID = Some (lk_session accs) \<and>
        lock_voucher_handler h e v (lk_vault accs) ata (lk_swig_wallet accs) sa b
          (lk_seller_holder accs) args = Inr r)"
  unfolding lock_voucher_def by (auto simp: result_simps)

section \<open>The frontier contract\<close>

text \<open>
  What a consumer of vouchers promises about the session: it accepts a voucher only above the
  frontier and within the cap, the frontier becomes the voucher's amount, and the terms the passkey
  endorsed stay as they are. \<open>run c s\<close> is the consumer on the registration \<open>s\<close> in the context \<open>c\<close>,
  \<open>amount c\<close> the cumulative amount of its voucher.
\<close>

definition same_terms :: "session_registration \<Rightarrow> session_registration \<Rightarrow> bool" where
  "same_terms s s' \<longleftrightarrow>
     sr_session_pubkey s' = sr_session_pubkey s \<and> sr_max_amount s' = sr_max_amount s \<and>
     sr_expires_at s' = sr_expires_at s \<and>
     sr_allowed_counterparty s' = sr_allowed_counterparty s \<and> sr_nonce s' = sr_nonce s \<and>
     sr_max_revolving_capacity s' = sr_max_revolving_capacity s"

lemma same_terms_graduate [simp]: "same_terms s (graduate_session s d n)"
  by (simp add: same_terms_def graduate_session_def)

lemma same_terms_settled [simp]:
  "same_terms s (s\<lparr>sr_spent := c, sr_current_outstanding := x\<rparr>)"
  by (simp add: same_terms_def)

locale voucher_spend =
  fixes run :: "'c \<Rightarrow> session_account \<Rightarrow> error + session_account"
    and amount :: "'c \<Rightarrow> u64"
  assumes above_frontier: "run c s = Inr s' \<Longrightarrow> frontier (sa_session s) < amount c"
    and within_cap: "run c s = Inr s' \<Longrightarrow> amount c \<le> sr_max_amount (sa_session s)"
    and frontier_after: "run c s = Inr s' \<Longrightarrow> frontier (sa_session s') = amount c"
    and keeps_terms: "run c s = Inr s' \<Longrightarrow> same_terms (sa_session s) (sa_session s')"
begin

lemma frontier_grows: "run c s = Inr s' \<Longrightarrow> frontier (sa_session s) < frontier (sa_session s')"
  using above_frontier frontier_after by simp

lemma no_replay:
  assumes "run c s = Inr s'" and "amount c' \<le> amount c"
  shows "\<not> is_ok (run c' s')"
proof
  assume "is_ok (run c' s')"
  then obtain s'' where "run c' s' = Inr s''" by (auto simp: is_ok_iff)
  then have "frontier (sa_session s') < amount c'" by (rule above_frontier)
  moreover have "frontier (sa_session s') = amount c" using assms(1) by (rule frontier_after)
  ultimately show False using assms(2) by simp
qed

lemma frontier_within_cap:
  "run c s = Inr s' \<Longrightarrow> frontier (sa_session s') \<le> sr_max_amount (sa_session s')"
  using frontier_after within_cap keeps_terms by (simp add: same_terms_def)

end

text \<open>Two consumers of one session: a range one of them took is closed to the other.\<close>

locale voucher_pair = a: voucher_spend run amount + b: voucher_spend run' amount'
  for run :: "'c \<Rightarrow> session_account \<Rightarrow> error + session_account" and amount :: "'c \<Rightarrow> u64"
    and run' :: "'d \<Rightarrow> session_account \<Rightarrow> error + session_account" and amount' :: "'d \<Rightarrow> u64"
begin

lemma exclusive:
  assumes "run c s = Inr s'" and "amount' d \<le> amount c"
  shows "\<not> is_ok (run' d s')"
proof
  assume "is_ok (run' d s')"
  then have "frontier (sa_session s') < amount' d" using b.above_frontier by (auto simp: is_ok_iff)
  with a.frontier_after [OF assms(1)] assms(2) show False by simp
qed

lemma exclusive':
  assumes "run' d s = Inr s'" and "amount c \<le> amount' d"
  shows "\<not> is_ok (run c s')"
proof
  assume "is_ok (run c s')"
  then have "frontier (sa_session s') < amount c" using a.above_frontier by (auto simp: is_ok_iff)
  with b.frontier_after [OF assms(1)] assms(2) show False by simp
qed

end

text \<open>The two consumers of the program, seen from the session.\<close>

definition settle_on_session ::
  "host \<times> tx_env \<times> vault \<times> settle_tab_voucher_accounts \<times> settle_tab_voucher_args \<Rightarrow>
     session_account \<Rightarrow> error + session_account" where
  "settle_on_session = (\<lambda>(h, e, v, accs, args) s.
     bind_res (settle_tab_voucher h e v s accs args) (\<lambda>(v', s'). Inr s'))"

definition lock_on_session ::
  "host \<times> tx_env \<times> vault \<times> locked_claim option \<times> lock_voucher_accounts \<times> lock_voucher_args \<Rightarrow>
     session_account \<Rightarrow> error + session_account" where
  "lock_on_session = (\<lambda>(h, e, v, existing, accs, args) s.
     bind_res (lock_voucher h e v s existing accs args) (\<lambda>(v', s', cl). Inr s'))"

interpretation settle: voucher_spend settle_on_session
  "\<lambda>(h, e, v, accs, args). st_cumulative_amount args"
  by unfold_locales
    (auto simp: settle_on_session_def settle_tab_voucher_eq_Inr settle_tab_voucher_handler_eq_Inr
      result_simps frontier_settled)

interpretation lock: voucher_spend lock_on_session
  "\<lambda>(h, e, v, existing, accs, args). lk_cumulative_amount args"
  by unfold_locales
    (auto simp: lock_on_session_def lock_voucher_eq_Inr lock_voucher_handler_eq_Inr
      result_simps frontier_locked)

interpretation tabs: voucher_pair settle_on_session
  "\<lambda>(h, e, v, accs, args). st_cumulative_amount args" lock_on_session
  "\<lambda>(h, e, v, existing, accs, args). lk_cumulative_amount args"
  by unfold_locales

section \<open>An honest voucher\<close>

definition voucher_sysvar :: "32 bytes \<Rightarrow> byte list \<Rightarrow> byte list \<Rightarrow> instructions_sysvar" where
  "voucher_sysvar pk msg sg =
     \<lparr> current_index = 1,
       tx_instructions =
         [ \<lparr> ti_program_id = ED25519_VERIFY_PROGRAM_ID,
             ti_data = precompile_data 0xFFFF (to_list pk) sg msg \<rparr>,
           \<lparr> ti_program_id = PROGRAM_ID, ti_data = [] \<rparr> ] \<rparr>"

lemma length_voucher_message [simp]: "length (voucher_message c a s) = 44"
  by (simp add: voucher_message_def)

lemma honest_voucher_signed:
  assumes "length sg = 64"
  shows "session_signed (voucher_sysvar pk (voucher_message c a s) sg) pk (voucher_message c a s)"
  using precompile_data_shows [of sg "to_list pk" "voucher_message c a s" "0xFFFF"] assms
  by (auto simp: session_signed_def voucher_sysvar_def previous_instruction_def Let_def)

end
