(* ===== verification/Locked_Claims.thy ===== *)
theory Locked_Claims
  imports Tabs
begin

text \<open>
  The life of a crystallized claim: \<open>settle_locked_voucher.rs\<close>, \<open>recover_abandoned_lock.rs\<close>,
  \<open>transfer_lock_ownership.rs\<close>. A claim is born \<open>Pending\<close> by \<open>lock_voucher\<close> and ends once, settled by
  its holder or abandoned by the buyer; in between only its holder can change.
\<close>

section \<open>Settling\<close>

record settle_locked_accounts =
  sl_swig :: pubkey
  sl_swig_wallet :: pubkey
  sl_claim :: pubkey
  sl_vault :: pubkey
  sl_holder :: pubkey
  sl_dexter_authority :: pubkey

definition settle_locked_handler ::
  "tx_env \<Rightarrow> vault \<Rightarrow> locked_claim \<Rightarrow> error + vault \<times> locked_claim" where
  "settle_locked_handler e v claim =
     bind_res (case lc_maturity_at claim of
                 None \<Rightarrow> Inr ()
               | Some maturity \<Rightarrow>
                   require (sint maturity \<le> sint (now e)) (VaultError CoolingOffNotElapsed) (Inr ()))
       (\<lambda>_.
     Inr (v\<lparr>outstanding_locked_amount :=
              saturating_sub (outstanding_locked_amount v) (lc_amount claim),
            total_settled_amount := saturating_add (total_settled_amount v) (lc_amount claim)\<rparr>,
          claim\<lparr>lc_status := Settled, lc_settled_at := Some (now e)\<rparr>))"

definition settle_locked_voucher ::
  "host \<Rightarrow> tx_env \<Rightarrow> vault \<Rightarrow> locked_claim \<Rightarrow> settle_locked_accounts \<Rightarrow>
     error + vault \<times> locked_claim" where
  "settle_locked_voucher h e v claim accs =
     bind_res (check_signer e (sl_holder accs)) (\<lambda>_.
     bind_res (check_signer e (sl_dexter_authority accs)) (\<lambda>_.
     bind_res (check_swig_pair h (swig_address v) (sl_swig accs) (sl_swig_wallet accs)) (\<lambda>_.
     require (lc_status claim = Pending) (VaultError LockRangeAlreadyClaimed) (
     require (lc_vault claim = sl_vault accs) (VaultError PasskeyVerificationFailed) (
     require (lc_current_holder claim = sl_holder accs) (VaultError PasskeyVerificationFailed) (
     require (dexter_authority v = sl_dexter_authority accs)
       (VaultError PasskeyVerificationFailed) (
     settle_locked_handler e v claim)))))))"

definition matured :: "i64 \<Rightarrow> locked_claim \<Rightarrow> bool" where
  "matured n c \<longleftrightarrow> (\<forall>m. lc_maturity_at c = Some m \<longrightarrow> sint m \<le> sint n)"

definition settled_claim :: "i64 \<Rightarrow> locked_claim \<Rightarrow> locked_claim" where
  "settled_claim n c = c\<lparr>lc_status := Settled, lc_settled_at := Some n\<rparr>"

definition abandoned_claim :: "i64 \<Rightarrow> locked_claim \<Rightarrow> locked_claim" where
  "abandoned_claim n c = c\<lparr>lc_status := Abandoned, lc_recovered_at := Some n\<rparr>"

lemma settle_locked_voucher_eq_Inr:
  "settle_locked_voucher h e v c accs = Inr (v', c') \<longleftrightarrow>
     sl_holder accs \<in> set (signers e) \<and> sl_dexter_authority accs \<in> set (signers e) \<and>
     sl_swig accs = swig_address v \<and>
     seeds_canonical h (swig_wallet_seeds (sl_swig accs)) SWIG_PROGRAM_ID (sl_swig_wallet accs) \<and>
     lc_status c = Pending \<and> lc_vault c = sl_vault accs \<and> lc_current_holder c = sl_holder accs \<and>
     dexter_authority v = sl_dexter_authority accs \<and> matured (now e) c \<and>
     v' = v\<lparr>outstanding_locked_amount := saturating_sub (outstanding_locked_amount v) (lc_amount c),
            total_settled_amount := saturating_add (total_settled_amount v) (lc_amount c)\<rparr> \<and>
     c' = settled_claim (now e) c"
  by (auto simp: settle_locked_voucher_def settle_locked_handler_def result_simps matured_def
      settled_claim_def split: option.splits)

section \<open>Recovery by the buyer\<close>

record recover_abandoned_args =
  rl_client_data_json :: "byte list"
  rl_authenticator_data :: "byte list"

definition recover_abandoned_handler ::
  "host \<Rightarrow> tx_env \<Rightarrow> vault \<Rightarrow> pubkey \<Rightarrow> locked_claim \<Rightarrow> pubkey \<Rightarrow> recover_abandoned_args \<Rightarrow>
     error + vault \<times> locked_claim" where
  "recover_abandoned_handler h e v vault_key claim claim_key args =
     bind_res (ok_or (lc_holder_recovery_at claim) (VaultError NothingToRelease)) (\<lambda>recovery_at.
     require (sint recovery_at \<le> sint (now e)) (VaultError ForceReleaseTooEarly) (
     let op_msg = recover_abandoned_message vault_key claim_key in
     bind_res (verify_passkey_signed h (sysvar e) (passkey_pubkey v)
                 (rl_client_data_json args) (rl_authenticator_data args) op_msg) (\<lambda>_.
     Inr (v\<lparr>outstanding_locked_amount :=
              saturating_sub (outstanding_locked_amount v) (lc_amount claim)\<rparr>,
          claim\<lparr>lc_status := Abandoned, lc_recovered_at := Some (now e)\<rparr>))))"

definition recover_abandoned_lock ::
  "host \<Rightarrow> tx_env \<Rightarrow> vault \<Rightarrow> pubkey \<Rightarrow> locked_claim \<Rightarrow> pubkey \<Rightarrow> recover_abandoned_args \<Rightarrow>
     error + vault \<times> locked_claim" where
  "recover_abandoned_lock h e v vault_key claim claim_key args =
     require (lc_status claim = Pending) (VaultError NothingToRelease) (
     require (lc_vault claim = vault_key) (VaultError PasskeyVerificationFailed) (
     recover_abandoned_handler h e v vault_key claim claim_key args))"

lemma recover_abandoned_lock_eq_Inr:
  "recover_abandoned_lock h e v vk c ck args = Inr (v', c') \<longleftrightarrow>
     lc_status c = Pending \<and> lc_vault c = vk \<and>
     (\<exists>t. lc_holder_recovery_at c = Some t \<and> sint t \<le> sint (now e)) \<and>
     passkey_authorized h (sysvar e) (passkey_pubkey v) (rl_client_data_json args)
       (rl_authenticator_data args) (recover_abandoned_message vk ck) \<and>
     v' = v\<lparr>outstanding_locked_amount := saturating_sub (outstanding_locked_amount v) (lc_amount c)\<rparr> \<and>
     c' = abandoned_claim (now e) c"
  by (auto simp: recover_abandoned_lock_def recover_abandoned_handler_def Let_def result_simps
      abandoned_claim_def)

section \<open>Transfer\<close>

definition transfer_lock_ownership ::
  "tx_env \<Rightarrow> locked_claim \<Rightarrow> pubkey \<Rightarrow> pubkey \<Rightarrow> error + locked_claim" where
  "transfer_lock_ownership e claim current_holder new_holder =
     bind_res (check_signer e current_holder) (\<lambda>_.
     require (lc_status claim = Pending) (VaultError LockRangeAlreadyClaimed) (
     require (lc_current_holder claim = current_holder) (VaultError PasskeyVerificationFailed) (
     Inr (claim\<lparr>lc_current_holder := new_holder\<rparr>))))"

lemma transfer_lock_ownership_eq_Inr:
  "transfer_lock_ownership e c k n = Inr c' \<longleftrightarrow>
     k \<in> set (signers e) \<and> lc_status c = Pending \<and> lc_current_holder c = k \<and>
     c' = c\<lparr>lc_current_holder := n\<rparr>"
  by (auto simp: transfer_lock_ownership_def result_simps)

section \<open>The state machine\<close>

text \<open>The life of a claim as rules over its fields, without keys or signatures: a pending claim is
  settled at a time \<open>t\<close> once it has matured, abandoned once the holder's deadline has passed, or handed
  to another holder. The lemma \<open>claim_instructions_step\<close> relates the three instructions to the rules.\<close>

inductive claim_step :: "locked_claim \<Rightarrow> locked_claim \<Rightarrow> bool" where
  settle: "\<lbrakk> lc_status c = Pending; \<forall>m. lc_maturity_at c = Some m \<longrightarrow> sint m \<le> sint t \<rbrakk> \<Longrightarrow>
    claim_step c (c\<lparr>lc_status := Settled, lc_settled_at := Some t\<rparr>)"
| recover: "\<lbrakk> lc_status c = Pending; lc_holder_recovery_at c = Some r; sint r \<le> sint t \<rbrakk> \<Longrightarrow>
    claim_step c (c\<lparr>lc_status := Abandoned, lc_recovered_at := Some t\<rparr>)"
| transfer: "lc_status c = Pending \<Longrightarrow> claim_step c (c\<lparr>lc_current_holder := n\<rparr>)"

inductive_cases claim_stepE: "claim_step c c'"

lemma claim_instructions_step:
  "settle_locked_voucher h e v c accs = Inr (v', c') \<Longrightarrow> claim_step c c'"
  "recover_abandoned_lock h e v vk c ck args = Inr (v', c') \<Longrightarrow> claim_step c c'"
  "transfer_lock_ownership e c k n = Inr c' \<Longrightarrow> claim_step c c'"
  by (auto simp: settle_locked_voucher_eq_Inr recover_abandoned_lock_eq_Inr matured_def
      transfer_lock_ownership_eq_Inr settled_claim_def abandoned_claim_def intro: claim_step.intros)

definition claim_wf :: "locked_claim \<Rightarrow> bool" where
  "claim_wf c \<longleftrightarrow>
     lc_version c = 1 \<and>
     recovery_follows_maturity (lc_maturity_at c) (lc_holder_recovery_at c) \<and>
     0 < lc_amount c \<and>
     (case lc_status c of
        Pending \<Rightarrow> lc_settled_at c = None \<and> lc_recovered_at c = None
      | Settled \<Rightarrow> (\<exists>t. lc_settled_at c = Some t \<and> matured t c) \<and> lc_recovered_at c = None
      | Abandoned \<Rightarrow> lc_settled_at c = None \<and>
          (\<exists>t r. lc_recovered_at c = Some t \<and> lc_holder_recovery_at c = Some r \<and> sint r \<le> sint t))"

text \<open>The fields no instruction changes after the lock.\<close>

definition same_claim :: "locked_claim \<Rightarrow> locked_claim \<Rightarrow> bool" where
  "same_claim c c' \<longleftrightarrow>
     lc_version c' = lc_version c \<and> lc_bump c' = lc_bump c \<and> lc_vault c' = lc_vault c \<and>
     lc_session_pubkey_at_lock c' = lc_session_pubkey_at_lock c \<and>
     lc_voucher_hash c' = lc_voucher_hash c \<and> lc_amount c' = lc_amount c \<and>
     lc_created_at c' = lc_created_at c \<and> lc_maturity_at c' = lc_maturity_at c \<and>
     lc_holder_recovery_at c' = lc_holder_recovery_at c"

lemma claim_step_shape:
  assumes "claim_step c c'"
  shows "lc_status c = Pending \<and>
    ((\<exists>t. c' = settled_claim t c \<and> matured t c) \<or>
     (\<exists>t r. c' = abandoned_claim t c \<and> lc_holder_recovery_at c = Some r \<and> sint r \<le> sint t) \<or>
     (\<exists>n. c' = c\<lparr>lc_current_holder := n\<rparr>))"
  using assms
  by (auto elim!: claim_stepE simp: settled_claim_def abandoned_claim_def matured_def)

lemma claim_step_wf:
  assumes "claim_step c c'" and "claim_wf c"
  shows "claim_wf c' \<and> same_claim c c'"
  using claim_step_shape [OF assms(1)] assms(2)
  by (auto simp: claim_wf_def same_claim_def settled_claim_def abandoned_claim_def matured_def)

lemma terminal_claim_stuck:
  assumes "lc_status c \<noteq> Pending"
  shows "\<not> claim_step c c'"
  using claim_step_shape assms by blast

lemma new_claim_wf:
  assumes "lock_voucher_handler h e v vk ata w sa b seller args = Inr (v', sa', c)"
  shows "claim_wf c"
  using assms
  by (auto simp: lock_voucher_handler_eq_Inr new_claim_def claim_wf_def lock_delta_pos)

lemma claim_history:
  assumes "(claim_step)\<^sup>*\<^sup>* c c'" and "claim_wf c"
  shows "claim_wf c' \<and> same_claim c c' \<and> (lc_status c \<noteq> Pending \<longrightarrow> c' = c)"
  using assms
proof (induction rule: rtranclp_induct)
  case base
  then show ?case by (simp add: same_claim_def)
next
  case (step y z)
  then have "claim_wf z" "same_claim y z" "lc_status y = Pending"
    using claim_step_wf terminal_claim_stuck by blast+
  with step show ?case by (auto simp: same_claim_def)
qed

section \<open>Passkey gate\<close>

interpretation recover_gate: passkey_gated
  "\<lambda>h e (v, vk, c, ck) args. recover_abandoned_lock h e v vk c ck args"
  "\<lambda>(v, vk, c, ck). passkey_pubkey v" "\<lambda>(v, vk, c, ck) args. OpRecoverAbandoned vk ck"
  rl_client_data_json rl_authenticator_data
  by unfold_locales (auto simp: recover_abandoned_lock_eq_Inr)

end
