(* ===== verification/Credit.thy ===== *)
theory Credit
  imports Vault_Admin
begin

text \<open>
  The credit line: \<open>set_standby_reserve.rs\<close>, \<open>open_standby.rs\<close>, \<open>close_standby.rs\<close>, \<open>draw_credit.rs\<close>,
  \<open>repay_credit.rs\<close>, \<open>seize_collateral.rs\<close>. A financier commits a reserve on a ledger, backs vaults up
  to a cap each, and the vault's loan lives between zero and its cap.
\<close>

section \<open>The financier's ledger\<close>

record set_standby_reserve_accounts =
  sr_financier_swig :: pubkey
  sr_financier_swig_wallet :: pubkey
  sr_standby_backer :: pubkey
  sr_fee_payer :: pubkey

definition set_standby_reserve_handler ::
  "standby_backer_ledger \<Rightarrow> u8 \<Rightarrow> pubkey \<Rightarrow> u64 \<Rightarrow> error + standby_backer_ledger" where
  "set_standby_reserve_handler sb bump_seed financier_swig new_reserve =
     (let sb' = (if sb_version sb = 0
                 then sb\<lparr>sb_version := STANDBY_BACKER_VERSION_V1, sb_bump := bump_seed,
                         sb_financier_swig := financier_swig, sb_aggregate_promised := 0,
                         sb_reserve_kind := Declared\<rparr>
                 else sb) in
      require (sb_aggregate_promised sb' \<le> new_reserve) (VaultError ReserveBelowPromised) (
      Inr (sb'\<lparr>sb_committed_reserve := new_reserve\<rparr>)))"

definition set_standby_reserve ::
  "host \<Rightarrow> tx_env \<Rightarrow> standby_backer_ledger option \<Rightarrow> set_standby_reserve_accounts \<Rightarrow> u64 \<Rightarrow>
     error + standby_backer_ledger" where
  "set_standby_reserve h e existing accs new_reserve =
     bind_res (check_signer e (sr_financier_swig_wallet accs)) (\<lambda>_.
     bind_res (check_signer e (sr_fee_payer accs)) (\<lambda>_.
     bind_res (ok_or (find_program_address h (standby_seeds (sr_financier_swig accs)) PROGRAM_ID)
                 Panic) (\<lambda>(derived, bump_seed).
     require (sr_standby_backer accs = derived) (AnchorError ConstraintSeeds) (
     require (seeds_canonical h (swig_wallet_seeds (sr_financier_swig accs)) SWIG_PROGRAM_ID
                (sr_financier_swig_wallet accs)) (AnchorError ConstraintSeeds) (
     set_standby_reserve_handler
       (case existing of None \<Rightarrow> fresh_standby_backer | Some sb \<Rightarrow> sb)
       bump_seed (sr_financier_swig accs) new_reserve)))))"

definition reserved_ledger ::
  "standby_backer_ledger \<Rightarrow> u8 \<Rightarrow> pubkey \<Rightarrow> u64 \<Rightarrow> standby_backer_ledger" where
  "reserved_ledger sb b f r =
     (if sb_version sb = 0
      then \<lparr> sb_version = 1, sb_bump = b, sb_financier_swig = f, sb_committed_reserve = r,
             sb_aggregate_promised = 0, sb_reserve_kind = Declared \<rparr>
      else sb\<lparr>sb_committed_reserve := r\<rparr>)"

lemma set_standby_reserve_handler_eq_Inr:
  "set_standby_reserve_handler sb b f r = Inr sb' \<longleftrightarrow>
     (sb_version sb = 0 \<or> sb_aggregate_promised sb \<le> r) \<and> sb' = reserved_ledger sb b f r"
  by (auto simp: set_standby_reserve_handler_def Let_def reserved_ledger_def result_simps)

lemma set_standby_reserve_eq_Inr:
  "set_standby_reserve h e existing accs r = Inr sb' \<longleftrightarrow>
     sr_financier_swig_wallet accs \<in> set (signers e) \<and> sr_fee_payer accs \<in> set (signers e) \<and>
     seeds_canonical h (swig_wallet_seeds (sr_financier_swig accs)) SWIG_PROGRAM_ID
       (sr_financier_swig_wallet accs) \<and>
     (\<exists>b sb. find_program_address h (standby_seeds (sr_financier_swig accs)) PROGRAM_ID =
          Some (sr_standby_backer accs, b) \<and>
        sb = (case existing of None \<Rightarrow> fresh_standby_backer | Some sb \<Rightarrow> sb) \<and>
        (sb_version sb = 0 \<or> sb_aggregate_promised sb \<le> r) \<and>
        sb' = reserved_ledger sb b (sr_financier_swig accs) r)"
  by (auto simp: set_standby_reserve_def set_standby_reserve_handler_eq_Inr result_simps
      split: prod.splits)

section \<open>Opening and resizing a standby\<close>

record open_standby_args =
  os_cap :: u64
  os_client_data_json :: "byte list"
  os_authenticator_data :: "byte list"

definition open_standby_handler ::
  "host \<Rightarrow> tx_env \<Rightarrow> vault \<Rightarrow> pubkey \<Rightarrow> pubkey \<Rightarrow> standby_backer_ledger \<Rightarrow> open_standby_args \<Rightarrow>
     error + vault \<times> standby_backer_ledger" where
  "open_standby_handler h e v vault_key financier_swig sb args =
     require (credit_version (version v)) (VaultError UnsupportedVaultVersion) (
     require (0 < os_cap args) (VaultError StandbyCapZero) (
     let op_msg = open_standby_message vault_key financier_swig (os_cap args) in
     bind_res (verify_passkey_signed h (sysvar e) (passkey_pubkey v)
                 (os_client_data_json args) (os_authenticator_data args) op_msg) (\<lambda>_.
     require (case standby_backer v of None \<Rightarrow> True | Some existing \<Rightarrow> existing = financier_swig)
       (VaultError StandbyBackerMismatch) (
     require (sb_financier_swig sb = financier_swig) (VaultError NoStandbyBackerLedger) (
     require (borrowed v \<le> os_cap args) (VaultError ResizeBelowBorrowed) (
     let old_cap = (if standby_backer v \<noteq> None then standby_cap v else 0);
         new_cap = os_cap args in
     bind_res (if old_cap \<le> new_cap then
                 bind_res (ok_or (checked_add (sb_aggregate_promised sb) (new_cap - old_cap))
                             (VaultError StandbyWouldExceedReserve)) (\<lambda>new_aggregate.
                 require (new_aggregate \<le> sb_committed_reserve sb)
                   (VaultError StandbyWouldExceedReserve) (
                 Inr new_aggregate))
               else Inr (saturating_sub (sb_aggregate_promised sb) (old_cap - new_cap)))
       (\<lambda>new_aggregate.
     Inr (v\<lparr>standby_backer := Some financier_swig, standby_cap := os_cap args\<rparr>,
          sb\<lparr>sb_aggregate_promised := new_aggregate\<rparr>))))))))"

definition check_standby_seeds ::
  "host \<Rightarrow> pubkey \<Rightarrow> standby_backer_ledger \<Rightarrow> pubkey \<Rightarrow> error + unit" where
  "check_standby_seeds h financier_swig sb k =
     require (seeds_with_bump h (standby_seeds financier_swig) (sb_bump sb) k)
       (AnchorError ConstraintSeeds) (Inr ())"

lemma check_standby_seeds_eq_Inr [result_simps]:
  "check_standby_seeds h f sb k = Inr u \<longleftrightarrow>
     create_program_address h (standby_seeds f @ [[sb_bump sb]]) PROGRAM_ID = Some k"
  by (simp add: check_standby_seeds_def seeds_with_bump_def result_simps)

definition open_standby ::
  "host \<Rightarrow> tx_env \<Rightarrow> vault \<Rightarrow> pubkey \<Rightarrow> pubkey \<Rightarrow> standby_backer_ledger \<Rightarrow> pubkey \<Rightarrow>
     open_standby_args \<Rightarrow> error + vault \<times> standby_backer_ledger" where
  "open_standby h e v vault_key financier_swig sb sb_key args =
     bind_res (check_standby_seeds h financier_swig sb sb_key) (\<lambda>_.
     open_standby_handler h e v vault_key financier_swig sb args)"

definition current_cap :: "vault \<Rightarrow> u64" where
  "current_cap v = (if standby_backer v = None then 0 else standby_cap v)"

text \<open>How a promise replaces the previous one: up to the reserve when it grows, clamped at zero when it
  shrinks.\<close>

definition promise_replaced ::
  "standby_backer_ledger \<Rightarrow> u64 \<Rightarrow> u64 \<Rightarrow> standby_backer_ledger \<Rightarrow> bool" where
  "promise_replaced sb old new sb' \<longleftrightarrow>
     (\<exists>agg. sb' = sb\<lparr>sb_aggregate_promised := agg\<rparr> \<and>
        (if old \<le> new
         then unat agg + unat old = unat (sb_aggregate_promised sb) + unat new \<and>
           agg \<le> sb_committed_reserve sb
         else agg = saturating_sub (sb_aggregate_promised sb) (old - new)))"

lemma new_aggregate_iff:
  fixes agg old new reserve x :: "'a::len word"
  shows "(if old \<le> new then
       bind_res (ok_or (checked_add agg (new - old)) err) (\<lambda>a. require (a \<le> reserve) err (Inr a))
     else Inr (saturating_sub agg (old - new))) = Inr x \<longleftrightarrow>
     (if old \<le> new then unat x + unat old = unat agg + unat new \<and> x \<le> reserve
      else x = saturating_sub agg (old - new))"
proof (cases "old \<le> new")
  case True
  then have "unat (new - old) = unat new - unat old" "unat old \<le> unat new"
    by (simp_all add: unat_sub word_le_nat_alt)
  with True show ?thesis by (auto simp: result_simps checked_add_eq_Some)
qed auto

lemma promise_replaced_exact:
  assumes "promise_replaced sb old new sb'" and "unat old \<le> unat (sb_aggregate_promised sb)"
  shows "unat (sb_aggregate_promised sb') + unat old = unat (sb_aggregate_promised sb) + unat new"
    and "sb_aggregate_promised sb \<le> sb_committed_reserve sb \<Longrightarrow>
      sb_aggregate_promised sb' \<le> sb_committed_reserve sb"
proof -
  have "unat (old - new) = unat old - unat new" if "\<not> old \<le> new"
    using that by (simp add: unat_sub)
  then show "unat (sb_aggregate_promised sb') + unat old =
      unat (sb_aggregate_promised sb) + unat new"
    using assms by (auto simp: promise_replaced_def word_le_nat_alt split: if_splits)
  show "sb_aggregate_promised sb' \<le> sb_committed_reserve sb"
    if "sb_aggregate_promised sb \<le> sb_committed_reserve sb"
    using assms(1) that by (auto simp: promise_replaced_def word_le_nat_alt split: if_splits)
qed

lemma open_standby_eq_Inr:
  "open_standby h e v vk f sb k args = Inr (v', sb') \<longleftrightarrow>
     create_program_address h (standby_seeds f @ [[sb_bump sb]]) PROGRAM_ID = Some k \<and>
     credit_version (version v) \<and> 0 < os_cap args \<and>
     passkey_authorized h (sysvar e) (passkey_pubkey v) (os_client_data_json args)
       (os_authenticator_data args) (open_standby_message vk f (os_cap args)) \<and>
     (standby_backer v = None \<or> standby_backer v = Some f) \<and> sb_financier_swig sb = f \<and>
     borrowed v \<le> os_cap args \<and>
     v' = v\<lparr>standby_backer := Some f, standby_cap := os_cap args\<rparr> \<and>
     promise_replaced sb (current_cap v) (os_cap args) sb'" (is "?l \<longleftrightarrow> ?r")
proof -
  have cap: "(if standby_backer v \<noteq> None then standby_cap v else 0) = current_cap v"
    by (auto simp: current_cap_def)
  have backer: "(case standby_backer v of None \<Rightarrow> True | Some existing \<Rightarrow> existing = f) \<longleftrightarrow>
      standby_backer v = None \<or> standby_backer v = Some f"
    by (auto split: option.splits)
  show ?thesis
    unfolding open_standby_def open_standby_handler_def Let_def cap backer bind_res_eq_Inr
      check_standby_seeds_eq_Inr require_eq_Inr verify_passkey_signed_eq_Inr new_aggregate_iff
      promise_replaced_def sum.inject prod.inject
    by fast
qed

section \<open>Closing a standby\<close>

datatype closer = User | Financier

record close_standby_accounts =
  cs_financier_swig :: pubkey
  cs_financier_swig_wallet :: pubkey
  cs_vault :: pubkey
  cs_standby_backer :: pubkey

record close_standby_args =
  cs_closer :: closer
  cs_client_data_json :: "byte list"
  cs_authenticator_data :: "byte list"

definition close_standby_core ::
  "vault \<Rightarrow> standby_backer_ledger \<Rightarrow> error + vault \<times> standby_backer_ledger" where
  "close_standby_core v sb =
     require (credit_version (version v)) (VaultError UnsupportedVaultVersion) (
     bind_res (ok_or (standby_backer v) (VaultError NoStandbyBacker)) (\<lambda>backer.
     require (borrowed v = 0) (VaultError StandbyStillBorrowed) (
     require (sb_financier_swig sb = backer) (VaultError NoStandbyBackerLedger) (
     Inr (v\<lparr>standby_backer := None, standby_cap := 0\<rparr>,
          sb\<lparr>sb_aggregate_promised :=
               saturating_sub (sb_aggregate_promised sb) (standby_cap v)\<rparr>)))))"

definition close_standby_handler ::
  "host \<Rightarrow> tx_env \<Rightarrow> vault \<Rightarrow> standby_backer_ledger \<Rightarrow> close_standby_accounts \<Rightarrow>
     close_standby_args \<Rightarrow> error + vault \<times> standby_backer_ledger" where
  "close_standby_handler h e v sb accs args =
     bind_res (ok_or (standby_backer v) (VaultError NoStandbyBacker)) (\<lambda>backer.
     bind_res (case cs_closer args of
                 User \<Rightarrow>
                   let op_msg = close_standby_message (cs_vault accs) backer in
                   verify_passkey_signed h (sysvar e) (passkey_pubkey v)
                     (cs_client_data_json args) (cs_authenticator_data args) op_msg
               | Financier \<Rightarrow>
                   require (cs_financier_swig accs = backer) (VaultError StandbyBackerMismatch) (
                   require (cs_financier_swig_wallet accs \<in> set (signers e))
                     (VaultError FinancierConsentMissing) (
                   Inr ()))) (\<lambda>_.
     close_standby_core v sb))"

definition close_standby ::
  "host \<Rightarrow> tx_env \<Rightarrow> vault \<Rightarrow> standby_backer_ledger \<Rightarrow> close_standby_accounts \<Rightarrow>
     close_standby_args \<Rightarrow> error + vault \<times> standby_backer_ledger" where
  "close_standby h e v sb accs args =
     bind_res (if seeds_canonical h (swig_wallet_seeds (cs_financier_swig accs)) SWIG_PROGRAM_ID
                    (cs_financier_swig_wallet accs)
               then Inr () else Inl (AnchorError ConstraintSeeds)) (\<lambda>_.
     bind_res (check_standby_seeds h (cs_financier_swig accs) sb (cs_standby_backer accs)) (\<lambda>_.
     close_standby_handler h e v sb accs args))"

text \<open>The consent of one of the two parties.\<close>

definition close_consent ::
  "host \<Rightarrow> tx_env \<Rightarrow> vault \<Rightarrow> pubkey \<Rightarrow> close_standby_accounts \<Rightarrow> close_standby_args \<Rightarrow> bool" where
  "close_consent h e v backer accs args \<longleftrightarrow>
     (case cs_closer args of
        User \<Rightarrow> passkey_authorized h (sysvar e) (passkey_pubkey v) (cs_client_data_json args)
          (cs_authenticator_data args) (close_standby_message (cs_vault accs) backer)
      | Financier \<Rightarrow> cs_financier_swig accs = backer \<and>
          cs_financier_swig_wallet accs \<in> set (signers e))"

lemma close_standby_eq_Inr:
  "close_standby h e v sb accs args = Inr (v', sb') \<longleftrightarrow>
     seeds_canonical h (swig_wallet_seeds (cs_financier_swig accs)) SWIG_PROGRAM_ID
       (cs_financier_swig_wallet accs) \<and>
     create_program_address h (standby_seeds (cs_financier_swig accs) @ [[sb_bump sb]]) PROGRAM_ID
       = Some (cs_standby_backer accs) \<and>
     (\<exists>backer. standby_backer v = Some backer \<and> close_consent h e v backer accs args \<and>
        sb_financier_swig sb = backer) \<and>
     credit_version (version v) \<and> borrowed v = 0 \<and>
     v' = v\<lparr>standby_backer := None, standby_cap := 0\<rparr> \<and>
     sb' = sb\<lparr>sb_aggregate_promised := saturating_sub (sb_aggregate_promised sb) (standby_cap v)\<rparr>"
  by (cases "cs_closer args")
    (auto simp: close_standby_def close_standby_handler_def close_standby_core_def
      close_consent_def Let_def result_simps)

section \<open>Drawing, repaying, seizing\<close>

record draw_credit_accounts =
  dc_financier_swig :: pubkey
  dc_financier_swig_wallet :: pubkey
  dc_dexter_authority :: pubkey

record draw_credit_args =
  dc_amount :: u64
  dc_recovery_window_seconds :: i64

definition draw_credit_handler ::
  "tx_env \<Rightarrow> vault \<Rightarrow> pubkey \<Rightarrow> draw_credit_args \<Rightarrow> error + vault" where
  "draw_credit_handler e v financier_swig args =
     require (credit_version (version v)) (VaultError UnsupportedVaultVersion) (
     bind_res (ok_or (standby_backer v) (VaultError NoStandbyBacker)) (\<lambda>backer.
     require (backer = financier_swig) (VaultError NoStandbyBacker) (
     bind_res (ok_or (checked_add (borrowed v) (dc_amount args))
                 (VaultError CreditWouldExceedStandbyCap)) (\<lambda>new_borrowed.
     require (new_borrowed \<le> standby_cap v) (VaultError CreditWouldExceedStandbyCap) (
     let v' = v\<lparr>borrowed := new_borrowed\<rparr> in
     if borrow_recovery_at v' = None then
       bind_res (ok_or (checked_add_i64 (now e) (dc_recovery_window_seconds args))
                   (VaultError CreditWouldExceedStandbyCap)) (\<lambda>deadline.
       Inr (v'\<lparr>borrow_recovery_at := Some deadline\<rparr>))
     else Inr v')))))"

definition check_authority :: "vault \<Rightarrow> pubkey \<Rightarrow> error + unit" where
  "check_authority v authority =
     require (dexter_authority v = authority) (VaultError PasskeyVerificationFailed) (Inr ())"

lemma check_authority_eq_Inr [result_simps]:
  "check_authority v a = Inr u \<longleftrightarrow> a = dexter_authority v"
  by (auto simp: check_authority_def result_simps)

definition draw_credit ::
  "host \<Rightarrow> tx_env \<Rightarrow> vault \<Rightarrow> draw_credit_accounts \<Rightarrow> draw_credit_args \<Rightarrow> error + vault" where
  "draw_credit h e v accs args =
     bind_res (check_signer e (dc_dexter_authority accs)) (\<lambda>_.
     require (seeds_canonical h (swig_wallet_seeds (dc_financier_swig accs)) SWIG_PROGRAM_ID
                (dc_financier_swig_wallet accs)) (AnchorError ConstraintSeeds) (
     bind_res (check_authority v (dc_dexter_authority accs)) (\<lambda>_.
     draw_credit_handler e v (dc_financier_swig accs) args)))"

record user_swig_accounts = \<comment> \<open>the accounts of \<open>RepayCredit\<close> and \<open>SeizeCollateral\<close>\<close>
  us_swig :: pubkey
  us_swig_wallet :: pubkey
  us_dexter_authority :: pubkey

definition repay_credit_handler :: "vault \<Rightarrow> u64 \<Rightarrow> error + vault" where
  "repay_credit_handler v amount =
     require (credit_version (version v)) (VaultError UnsupportedVaultVersion) (
     require (0 < borrowed v) (VaultError NothingBorrowed) (
     let repay = min amount (borrowed v);
         v' = v\<lparr>borrowed := saturating_sub (borrowed v) repay\<rparr> in
     Inr (if borrowed v' = 0 then v'\<lparr>borrow_recovery_at := None\<rparr> else v')))"

definition check_user_swig :: "host \<Rightarrow> tx_env \<Rightarrow> vault \<Rightarrow> user_swig_accounts \<Rightarrow> error + unit" where
  "check_user_swig h e v accs =
     bind_res (check_signer e (us_dexter_authority accs)) (\<lambda>_.
     bind_res (check_swig_pair h (swig_address v) (us_swig accs) (us_swig_wallet accs)) (\<lambda>_.
     check_authority v (us_dexter_authority accs)))"

definition repay_credit ::
  "host \<Rightarrow> tx_env \<Rightarrow> vault \<Rightarrow> user_swig_accounts \<Rightarrow> u64 \<Rightarrow> error + vault" where
  "repay_credit h e v accs amount =
     bind_res (check_user_swig h e v accs) (\<lambda>_. repay_credit_handler v amount)"

definition seize_collateral_handler :: "tx_env \<Rightarrow> vault \<Rightarrow> error + vault" where
  "seize_collateral_handler e v =
     require (credit_version (version v)) (VaultError UnsupportedVaultVersion) (
     require (0 < borrowed v) (VaultError NothingBorrowed) (
     bind_res (ok_or (borrow_recovery_at v) (VaultError NothingBorrowed)) (\<lambda>deadline.
     require (sint deadline \<le> sint (now e)) (VaultError BorrowRecoveryTooEarly) (
     Inr (v\<lparr>borrowed := 0, borrow_recovery_at := None\<rparr>)))))"

definition seize_collateral ::
  "host \<Rightarrow> tx_env \<Rightarrow> vault \<Rightarrow> user_swig_accounts \<Rightarrow> error + vault" where
  "seize_collateral h e v accs =
     bind_res (check_user_swig h e v accs) (\<lambda>_. seize_collateral_handler e v)"

section \<open>When they succeed and what they write\<close>

text \<open>The deadline a draw leaves: the armed one, or the window from now.\<close>

definition deadline_after :: "tx_env \<Rightarrow> vault \<Rightarrow> draw_credit_args \<Rightarrow> i64 option" where
  "deadline_after e v args =
     (case borrow_recovery_at v of
        Some d \<Rightarrow> Some d
      | None \<Rightarrow> checked_add_i64 (now e) (dc_recovery_window_seconds args))"

lemma draw_credit_handler_eq_Inr:
  "draw_credit_handler e v f args = Inr v' \<longleftrightarrow>
     credit_version (version v) \<and> standby_backer v = Some f \<and>
     unat (borrowed v) + unat (dc_amount args) \<le> unat (standby_cap v) \<and>
     deadline_after e v args \<noteq> None \<and>
     v' = v\<lparr>borrowed := borrowed v + dc_amount args,
            borrow_recovery_at := deadline_after e v args\<rparr>"
proof -
  have "(\<exists>b. checked_add (borrowed v) (dc_amount args) = Some b \<and> b \<le> standby_cap v \<and> P b) \<longleftrightarrow>
      unat (borrowed v) + unat (dc_amount args) \<le> unat (standby_cap v) \<and>
      P (borrowed v + dc_amount args)" for P
    using unat_less_2p [of "standby_cap v"]
    by (auto simp: checked_add_def word_le_nat_alt unat_word_ariths)
  moreover have "draw_credit_handler e v f args = Inr v' \<longleftrightarrow>
     credit_version (version v) \<and> standby_backer v = Some f \<and>
     (\<exists>b. checked_add (borrowed v) (dc_amount args) = Some b \<and> b \<le> standby_cap v \<and>
        deadline_after e v args \<noteq> None \<and>
        v' = v\<lparr>borrowed := b, borrow_recovery_at := deadline_after e v args\<rparr>)"
  proof (cases "borrow_recovery_at v")
    case None
    then show ?thesis
      by (auto simp: draw_credit_handler_def Let_def result_simps deadline_after_def)
  next
    case (Some d)
    then have "v\<lparr>borrowed := b, borrow_recovery_at := Some d\<rparr> = v\<lparr>borrowed := b\<rparr>" for b by simp
    with Some show ?thesis
      by (auto simp: draw_credit_handler_def Let_def result_simps deadline_after_def)
  qed
  ultimately show ?thesis by simp
qed

lemma check_user_swig_eq_Inr [result_simps]:
  "check_user_swig h e v accs = Inr u \<longleftrightarrow>
     us_dexter_authority accs \<in> set (signers e) \<and> us_dexter_authority accs = dexter_authority v \<and>
     us_swig accs = swig_address v \<and>
     seeds_canonical h (swig_wallet_seeds (us_swig accs)) SWIG_PROGRAM_ID (us_swig_wallet accs)"
  by (auto simp: check_user_swig_def result_simps)

lemma draw_credit_eq_Inr:
  "draw_credit h e v accs args = Inr v' \<longleftrightarrow>
     dc_dexter_authority accs \<in> set (signers e) \<and> dc_dexter_authority accs = dexter_authority v \<and>
     seeds_canonical h (swig_wallet_seeds (dc_financier_swig accs)) SWIG_PROGRAM_ID
       (dc_financier_swig_wallet accs) \<and>
     draw_credit_handler e v (dc_financier_swig accs) args = Inr v'"
  by (auto simp: draw_credit_def result_simps)

definition repaid :: "vault \<Rightarrow> u64 \<Rightarrow> vault" where
  "repaid v amount =
     v\<lparr>borrowed := borrowed v - min amount (borrowed v),
       borrow_recovery_at := (if borrowed v \<le> amount then None else borrow_recovery_at v)\<rparr>"

lemma repay_credit_handler_eq_Inr:
  "repay_credit_handler v amount = Inr v' \<longleftrightarrow>
     credit_version (version v) \<and> 0 < borrowed v \<and> v' = repaid v amount"
  by (auto simp: repay_credit_handler_def Let_def result_simps repaid_def saturating_sub_def
      min_def)

lemma repay_credit_eq_Inr:
  "repay_credit h e v accs amount = Inr v' \<longleftrightarrow>
     check_user_swig h e v accs = Inr () \<and> credit_version (version v) \<and> 0 < borrowed v \<and>
     v' = repaid v amount"
  by (auto simp: repay_credit_def repay_credit_handler_eq_Inr result_simps)

lemma seize_collateral_eq_Inr:
  "seize_collateral h e v accs = Inr v' \<longleftrightarrow>
     check_user_swig h e v accs = Inr () \<and> credit_version (version v) \<and> 0 < borrowed v \<and>
     (\<exists>d. borrow_recovery_at v = Some d \<and> sint d \<le> sint (now e)) \<and>
     v' = v\<lparr>borrowed := 0, borrow_recovery_at := None\<rparr>"
  by (auto simp: seize_collateral_def seize_collateral_handler_def result_simps)

section \<open>The credit invariant of a vault\<close>

definition credit_ok :: "vault \<Rightarrow> bool" where
  "credit_ok v \<longleftrightarrow>
     borrowed v \<le> standby_cap v \<and>
     (standby_backer v = None \<longrightarrow> borrowed v = 0 \<and> standby_cap v = 0) \<and>
     (0 < borrowed v \<longrightarrow> borrow_recovery_at v \<noteq> None)"

lemma credit_ok_draw:
  assumes "draw_credit h e v accs args = Inr v'" and "credit_ok v"
  shows "credit_ok v'"
  using assms unat_less_2p [of "standby_cap v"]
  by (auto simp: draw_credit_eq_Inr draw_credit_handler_eq_Inr credit_ok_def word_le_nat_alt
      unat_word_ariths)

lemma credit_ok_repay:
  assumes "repay_credit h e v accs amount = Inr v'" and "credit_ok v"
  shows "credit_ok v'"
proof -
  have "borrowed v - min amount (borrowed v) \<le> borrowed v"
    by (simp add: word_le_nat_alt unat_sub min_def)
  then show ?thesis
    using assms by (auto simp: repay_credit_eq_Inr credit_ok_def repaid_def min_def)
qed

lemma credit_ok_seize:
  assumes "seize_collateral h e v accs = Inr v'" and "credit_ok v"
  shows "credit_ok v'"
  using assms by (auto simp: seize_collateral_eq_Inr credit_ok_def)

lemma credit_ok_close:
  assumes "close_standby h e v sb accs args = Inr (v', sb')"
  shows "credit_ok v'"
  using assms by (auto simp: close_standby_eq_Inr credit_ok_def)

lemma credit_ok_open:
  assumes "open_standby h e v vk f sb k args = Inr (v', sb')" and "credit_ok v"
  shows "credit_ok v'"
proof -
  from assms(1) have "v' = v\<lparr>standby_backer := Some f, standby_cap := os_cap args\<rparr>"
    and "borrowed v \<le> os_cap args"
    by (auto simp: open_standby_def open_standby_handler_def Let_def result_simps)
  with assms(2) show ?thesis by (simp add: credit_ok_def)
qed

text \<open>A first draw of nothing arms the deadline, and the next draw inherits it.\<close>

lemma empty_draw_arms_deadline:
  assumes "draw_credit h e v accs args = Inr v'" and "dc_amount args = 0" and "borrowed v = 0"
    and "borrow_recovery_at v = None"
  shows "borrowed v' = 0 \<and> borrow_recovery_at v' \<noteq> None \<and>
    (\<forall>e2 accs2 args2 v2. draw_credit h e2 v' accs2 args2 = Inr v2 \<longrightarrow>
       borrow_recovery_at v2 = borrow_recovery_at v')"
  using assms by (auto simp: draw_credit_eq_Inr draw_credit_handler_eq_Inr deadline_after_def)

section \<open>Passkey gate\<close>

interpretation open_standby_gate: passkey_gated
  "\<lambda>h e (v, vk, f, sb, k) args. open_standby h e v vk f sb k args"
  "\<lambda>(v, vk, f, sb, k). passkey_pubkey v"
  "\<lambda>(v, vk, f, sb, k) args. OpOpenStandby vk f (os_cap args)"
  os_client_data_json os_authenticator_data
  by unfold_locales (auto simp: open_standby_def open_standby_handler_def Let_def result_simps)

end
