(* ===== verification/Swig_Atomic.thy ===== *)
theory Swig_Atomic
  imports Vault_Admin
begin

text \<open>
  Creating the Swig wallet in one instruction: the wire format of \<open>swig_compat.rs\<close> and the handler of
  \<open>set_swig_atomic.rs\<close>. The layouts that live in the \<open>swig_state\<close> crate (action headers and bodies,
  the numbers of the authority types) are the record \<open>swig_state\<close>, an argument of every definition
  that uses them; the Swig program itself is the argument \<open>cpi\<close>, which says whether an inner call
  succeeds after the calls already made.
\<close>

section \<open>The wire format\<close>

datatype authority_type = Ed25519 | Ed25519Session | ProgramExec

datatype client_action =
    ManageAuthority
  | All
  | ProgramAll
  | TokenLimit pubkey u64

record swig_state =
  authority_code :: "authority_type \<Rightarrow> u16"
  action_len :: nat \<comment> \<open>\<open>Action::LEN\<close>\<close>
  action_header :: "client_action \<Rightarrow> u16 \<Rightarrow> u32 \<Rightarrow> byte list option" \<comment> \<open>\<open>Action::new(permission, length, boundary).into_bytes()\<close>\<close>
  body_len :: "client_action \<Rightarrow> nat" \<comment> \<open>the \<open>LEN\<close> of the variant\<close>
  body_bytes :: "client_action \<Rightarrow> byte list option"

definition SWIG_IX_CREATE_V1 :: u16 where "SWIG_IX_CREATE_V1 = 0"
definition SWIG_IX_ADD_AUTHORITY_V1 :: u16 where "SWIG_IX_ADD_AUTHORITY_V1 = 1"

record create_v1_args =
  ca_discriminator :: u16
  ca_authority_type :: u16
  ca_authority_data_len :: u16
  ca_bump :: u8
  ca_wallet_address_bump :: u8
  ca_id :: "32 bytes"

definition create_v1_new ::
  "swig_state \<Rightarrow> 32 bytes \<Rightarrow> u8 \<Rightarrow> authority_type \<Rightarrow> u16 \<Rightarrow> u8 \<Rightarrow> create_v1_args" where
  "create_v1_new ss swig_id bump_seed authority len wallet_bump =
     \<lparr> ca_discriminator = SWIG_IX_CREATE_V1, ca_authority_type = authority_code ss authority,
       ca_authority_data_len = len, ca_bump = bump_seed, ca_wallet_address_bump = wallet_bump,
       ca_id = swig_id \<rparr>"

text \<open>\<open>repr(C, align(8))\<close>, 40 bytes without padding, little-endian on the target.\<close>

definition create_v1_bytes :: "create_v1_args \<Rightarrow> byte list" where
  "create_v1_bytes a =
     le_bytes 2 (ca_discriminator a) @ le_bytes 2 (ca_authority_type a) @
     le_bytes 2 (ca_authority_data_len a) @ [ca_bump a, ca_wallet_address_bump a] @
     to_list (ca_id a)"

record add_authority_args =
  aa_discriminator :: u16
  aa_new_authority_data_len :: u16
  aa_actions_data_len :: u16
  aa_new_authority_type :: u16
  aa_num_actions :: u8
  aa_acting_role_id :: u32

definition add_authority_new ::
  "swig_state \<Rightarrow> u32 \<Rightarrow> authority_type \<Rightarrow> u16 \<Rightarrow> u16 \<Rightarrow> u8 \<Rightarrow> add_authority_args" where
  "add_authority_new ss role authority data_len actions_len n =
     \<lparr> aa_discriminator = SWIG_IX_ADD_AUTHORITY_V1, aa_new_authority_data_len = data_len,
       aa_actions_data_len = actions_len, aa_new_authority_type = authority_code ss authority,
       aa_num_actions = n, aa_acting_role_id = role \<rparr>"

definition add_authority_bytes :: "add_authority_args \<Rightarrow> byte list" where
  "add_authority_bytes a =
     le_bytes 2 (aa_discriminator a) @ le_bytes 2 (aa_new_authority_data_len a) @
     le_bytes 2 (aa_actions_data_len a) @ le_bytes 2 (aa_new_authority_type a) @
     [aa_num_actions a] @ replicate 3 0 @ le_bytes 4 (aa_acting_role_id a)"

text \<open>\<open>ClientActionCompat::write\<close> appends one action; its header carries the end offset.\<close>

definition write_action :: "swig_state \<Rightarrow> client_action \<Rightarrow> byte list \<Rightarrow> error + byte list" where
  "write_action ss a buf =
     (let len = body_len ss a;
          offset = word_of_nat (length buf) :: u32 in
      bind_res (ok_or (checked_add offset (word_of_nat (action_len ss))) Panic) (\<lambda>o1.
      bind_res (ok_or (checked_add o1 (word_of_nat len)) Panic) (\<lambda>boundary.
      bind_res (ok_or (action_header ss a (word_of_nat len) boundary)
                  (VaultError PasskeyVerificationFailed)) (\<lambda>header_bytes.
      bind_res (ok_or (body_bytes ss a) (VaultError PasskeyVerificationFailed)) (\<lambda>body.
      Inr (buf @ header_bytes @ body))))))"

fun write_actions :: "swig_state \<Rightarrow> client_action list \<Rightarrow> byte list \<Rightarrow> error + byte list" where
  "write_actions ss [] buf = Inr buf"
| "write_actions ss (a # as) buf = bind_res (write_action ss a buf) (write_actions ss as)"

definition build_create_v1_data ::
  "swig_state \<Rightarrow> 32 bytes \<Rightarrow> u8 \<Rightarrow> u8 \<Rightarrow> authority_type \<Rightarrow> byte list \<Rightarrow> client_action list \<Rightarrow>
     error + byte list" where
  "build_create_v1_data ss swig_id swig_bump wallet_bump authority authority_bytes actions =
     (let args = create_v1_new ss swig_id swig_bump authority
                   (word_of_nat (length authority_bytes)) wallet_bump in
      bind_res (write_actions ss actions []) (\<lambda>action_bytes.
      Inr (create_v1_bytes args @ authority_bytes @ action_bytes)))"

definition build_add_authority_data ::
  "swig_state \<Rightarrow> u32 \<Rightarrow> authority_type \<Rightarrow> byte list \<Rightarrow> client_action list \<Rightarrow> u8 \<Rightarrow>
     error + byte list" where
  "build_add_authority_data ss role authority authority_bytes actions account_index =
     bind_res (write_actions ss actions []) (\<lambda>action_bytes.
     let args = add_authority_new ss role authority (word_of_nat (length authority_bytes))
                  (word_of_nat (length action_bytes)) (word_of_nat (length actions)) in
     Inr (add_authority_bytes args @ authority_bytes @ action_bytes @ [account_index]))"

section \<open>The handler\<close>

definition SWIG_MARKER_FINALIZE_WITHDRAWAL :: "byte list" where
  "SWIG_MARKER_FINALIZE_WITHDRAWAL = [178, 87, 206, 68, 201, 186, 164, 232]"

definition SWIG_MARKER_SETTLE_TAB :: "byte list" where
  "SWIG_MARKER_SETTLE_TAB = [173, 22, 98, 31, 110, 129, 59, 161]"

definition DEFAULT_SESSION_TTL_SECONDS :: u64 where
  "DEFAULT_SESSION_TTL_SECONDS = 30 * 24 * 60 * 60"

definition DEFAULT_SPEND_LIMIT_ATOMIC :: u64 where "DEFAULT_SPEND_LIMIT_ATOMIC = 1000000000"

definition USDC_MAINNET :: pubkey where
  "USDC_MAINNET = pubkey_of ''EPjFWdd5AufqSSqeM2qN1xzybapC8G4wEGGkZwyTDt1v''"

definition ACTING_AUTHORITY_ACCOUNT_INDEX :: u8 where "ACTING_AUTHORITY_ACCOUNT_INDEX = 3"

definition PROGRAM_EXEC_MAX_PREFIX_LEN :: nat where "PROGRAM_EXEC_MAX_PREFIX_LEN = 40"

text \<open>The 80-byte payload: program, prefix length, padding, prefix padded with zeros.\<close>

definition build_program_exec_authority_bytes :: "pubkey \<Rightarrow> byte list \<Rightarrow> byte list" where
  "build_program_exec_authority_bytes program_id prefix =
     (let prefix_len = min (length prefix) PROGRAM_EXEC_MAX_PREFIX_LEN in
      to_list program_id @ [word_of_nat prefix_len] @ replicate 7 0 @
      take prefix_len prefix @ replicate (40 - prefix_len) 0)"

record account_meta =
  am_pubkey :: pubkey
  am_is_signer :: bool
  am_is_writable :: bool

record cpi_instruction =
  cpi_program_id :: pubkey
  cpi_accounts :: "account_meta list"
  cpi_data :: "byte list"

definition SYSTEM_PROGRAM_ID :: pubkey where "SYSTEM_PROGRAM_ID = 0"

record set_swig_atomic_accounts =
  at_fee_payer :: pubkey
  at_swig_account :: pubkey
  at_swig_wallet_address :: pubkey
  at_swig_program :: pubkey

record set_swig_atomic_args =
  at_swig_id :: "32 bytes"
  at_swig_account_bump :: u8
  at_swig_wallet_address_bump :: u8
  at_dexter_master_pubkey :: pubkey
  at_client_data_json :: "byte list"
  at_authenticator_data :: "byte list"

definition meta :: "pubkey \<Rightarrow> bool \<Rightarrow> account_meta" where \<comment> \<open>\<open>AccountMeta::new\<close>\<close>
  "meta k s = \<lparr> am_pubkey = k, am_is_signer = s, am_is_writable = True \<rparr>"

definition meta_readonly :: "pubkey \<Rightarrow> bool \<Rightarrow> account_meta" where
  "meta_readonly k s = \<lparr> am_pubkey = k, am_is_signer = s, am_is_writable = False \<rparr>"

definition add_role_ix :: "set_swig_atomic_accounts \<Rightarrow> byte list \<Rightarrow> cpi_instruction" where
  "add_role_ix accs dat =
     \<lparr> cpi_program_id = SWIG_PROGRAM_ID,
       cpi_accounts = [meta (at_swig_account accs) False, meta (at_fee_payer accs) True,
         meta_readonly SYSTEM_PROGRAM_ID False, meta_readonly (at_fee_payer accs) True],
       cpi_data = dat \<rparr>"

definition create_ix :: "set_swig_atomic_accounts \<Rightarrow> byte list \<Rightarrow> cpi_instruction" where
  "create_ix accs dat =
     \<lparr> cpi_program_id = SWIG_PROGRAM_ID,
       cpi_accounts = [meta (at_swig_account accs) False, meta (at_fee_payer accs) True,
         meta (at_swig_wallet_address accs) False, meta_readonly SYSTEM_PROGRAM_ID False],
       cpi_data = dat \<rparr>"

definition invoke_cpi ::
  "(cpi_instruction list \<Rightarrow> cpi_instruction \<Rightarrow> bool) \<Rightarrow> cpi_instruction list \<Rightarrow> cpi_instruction \<Rightarrow>
     error + cpi_instruction list" where
  "invoke_cpi cpi done_ixs ix =
     require (cpi done_ixs ix) (VaultError PasskeyVerificationFailed) (Inr (done_ixs @ [ix]))"

definition session_authority_bytes :: "pubkey \<Rightarrow> byte list" where
  "session_authority_bytes dexter_master =
     to_list dexter_master @ replicate 32 0 @ le_bytes 8 DEFAULT_SESSION_TTL_SECONDS"

text \<open>The fourth call, and the end of the handler: the ceremony over the swig address, checked after the
  calls, and the write.\<close>

definition add_settle_tab_role ::
  "swig_state \<Rightarrow> (cpi_instruction list \<Rightarrow> cpi_instruction \<Rightarrow> bool) \<Rightarrow> set_swig_atomic_accounts \<Rightarrow>
     cpi_instruction list \<Rightarrow> error + cpi_instruction list" where
  "add_settle_tab_role ss cpi accs calls =
     bind_res (build_add_authority_data ss 0 ProgramExec
                 (build_program_exec_authority_bytes PROGRAM_ID SWIG_MARKER_SETTLE_TAB)
                 [All] ACTING_AUTHORITY_ACCOUNT_INDEX) (\<lambda>role3_data.
     invoke_cpi cpi calls (add_role_ix accs role3_data))"

definition bind_swig_address ::
  "host \<Rightarrow> tx_env \<Rightarrow> vault \<Rightarrow> set_swig_atomic_accounts \<Rightarrow> set_swig_atomic_args \<Rightarrow>
     cpi_instruction list \<Rightarrow> error + vault \<times> cpi_instruction list" where
  "bind_swig_address h e v accs args calls =
     (let op_msg = set_swig_message (at_swig_account accs) in
      bind_res (verify_passkey_signed h (sysvar e) (passkey_pubkey v)
                  (at_client_data_json args) (at_authenticator_data args) op_msg) (\<lambda>_.
      Inr (v\<lparr>swig_address := at_swig_account accs\<rparr>, calls)))"

definition set_swig_atomic_handler ::
  "host \<Rightarrow> swig_state \<Rightarrow> (cpi_instruction list \<Rightarrow> cpi_instruction \<Rightarrow> bool) \<Rightarrow> tx_env \<Rightarrow> vault \<Rightarrow>
     set_swig_atomic_accounts \<Rightarrow> set_swig_atomic_args \<Rightarrow> error + vault \<times> cpi_instruction list" where
  "set_swig_atomic_handler h ss cpi e v accs args =
     require (any_supported_version (version v)) (VaultError UnsupportedVaultVersion) (
     require (swig_address v = 0) (VaultError PasskeyVerificationFailed) (
     bind_res (build_create_v1_data ss (at_swig_id args) (at_swig_account_bump args)
                 (at_swig_wallet_address_bump args) Ed25519 (to_list (at_fee_payer accs))
                 [ManageAuthority]) (\<lambda>create_data.
     bind_res (invoke_cpi cpi [] (create_ix accs create_data)) (\<lambda>d1.
     bind_res (build_add_authority_data ss 0 ProgramExec
                 (build_program_exec_authority_bytes PROGRAM_ID SWIG_MARKER_FINALIZE_WITHDRAWAL)
                 [All] ACTING_AUTHORITY_ACCOUNT_INDEX) (\<lambda>role1_data.
     bind_res (invoke_cpi cpi d1 (add_role_ix accs role1_data)) (\<lambda>d2.
     bind_res (build_add_authority_data ss 0 Ed25519Session
                 (session_authority_bytes (at_dexter_master_pubkey args))
                 [TokenLimit USDC_MAINNET DEFAULT_SPEND_LIMIT_ATOMIC, ProgramAll]
                 ACTING_AUTHORITY_ACCOUNT_INDEX) (\<lambda>role2_data.
     bind_res (invoke_cpi cpi d2 (add_role_ix accs role2_data)) (\<lambda>d3.
     bind_res (add_settle_tab_role ss cpi accs d3) (\<lambda>d4.
     bind_swig_address h e v accs args d4)))))))))"

definition set_swig_atomic ::
  "host \<Rightarrow> swig_state \<Rightarrow> (cpi_instruction list \<Rightarrow> cpi_instruction \<Rightarrow> bool) \<Rightarrow> tx_env \<Rightarrow> vault \<Rightarrow>
     set_swig_atomic_accounts \<Rightarrow> set_swig_atomic_args \<Rightarrow> error + vault \<times> cpi_instruction list" where
  "set_swig_atomic h ss cpi e v accs args =
     bind_res (check_signer e (at_fee_payer accs)) (\<lambda>_.
     require (at_swig_program accs = SWIG_PROGRAM_ID) (AnchorError ConstraintAddress) (
     set_swig_atomic_handler h ss cpi e v accs args))"

section \<open>Lengths and positions\<close>

lemma length_create_v1_bytes [simp]: "length (create_v1_bytes a) = 40"
  by (simp add: create_v1_bytes_def)

lemma length_add_authority_bytes [simp]: "length (add_authority_bytes a) = 16"
  by (simp add: add_authority_bytes_def)

lemma length_program_exec_bytes [simp]: "length (build_program_exec_authority_bytes p x) = 80"
  by (simp add: build_program_exec_authority_bytes_def Let_def PROGRAM_EXEC_MAX_PREFIX_LEN_def)

lemma length_session_authority_bytes [simp]: "length (session_authority_bytes k) = 72"
  by (simp add: session_authority_bytes_def)

text \<open>How the Swig program reads the payload back.\<close>

definition parse_program_exec :: "byte list \<Rightarrow> byte list \<times> byte list" where
  "parse_program_exec b = (take 32 b, take (unat (b ! 32)) (drop 40 b))"

lemma parse_program_exec_build:
  assumes "length x \<le> 40"
  shows "parse_program_exec (build_program_exec_authority_bytes p x) = (to_list p, x)"
proof -
  have "unat (word_of_nat (length x) :: u8) = length x"
    using assms by (simp add: unat_of_nat take_bit_nat_eq_self)
  then show ?thesis
    using assms by (simp add: parse_program_exec_def build_program_exec_authority_bytes_def Let_def
        PROGRAM_EXEC_MAX_PREFIX_LEN_def nth_append)
qed

text \<open>What the layouts of \<open>swig_state\<close> promise: the bytes have the declared lengths.\<close>

definition swig_layout :: "swig_state \<Rightarrow> bool" where
  "swig_layout ss \<longleftrightarrow>
     (\<forall>a l b hd. action_header ss a l b = Some hd \<longrightarrow> length hd = action_len ss) \<and>
     (\<forall>a b. body_bytes ss a = Some b \<longrightarrow> length b = body_len ss a)"

text \<open>The buffer a reader walks: each header names the offset at which its action ends.\<close>

fun actions_layout :: "swig_state \<Rightarrow> nat \<Rightarrow> client_action list \<Rightarrow> byte list \<Rightarrow> bool" where
  "actions_layout ss pos [] bs \<longleftrightarrow> bs = []"
| "actions_layout ss pos (a # as) bs \<longleftrightarrow>
     (\<exists>hd body rest. bs = hd @ body @ rest \<and> body_bytes ss a = Some body \<and>
        action_header ss a (word_of_nat (body_len ss a))
          (word_of_nat (pos + length hd + length body)) = Some hd \<and>
        actions_layout ss (pos + length hd + length body) as rest)"

lemma checked_add_of_nat:
  fixes x :: "'a::len word"
  assumes "checked_add (word_of_nat m) (word_of_nat n) = Some x"
  shows "x = word_of_nat (m + n)"
  using assms by (simp add: checked_add_def split: if_splits)

lemma write_action_layout:
  assumes "swig_layout ss" and "write_action ss a buf = Inr out"
  obtains hd body where "out = buf @ hd @ body" and "body_bytes ss a = Some body"
    and "action_header ss a (word_of_nat (body_len ss a))
      (word_of_nat (length buf + length hd + length body)) = Some hd"
proof -
  from assms(2) obtain o1 b hd body
    where o1: "checked_add (word_of_nat (length buf) :: u32) (word_of_nat (action_len ss)) = Some o1"
      and b: "checked_add o1 (word_of_nat (body_len ss a)) = Some b"
      and h: "action_header ss a (word_of_nat (body_len ss a)) b = Some hd"
      and body: "body_bytes ss a = Some body" and out: "out = buf @ hd @ body"
    by (auto simp: write_action_def Let_def result_simps)
  have "o1 = word_of_nat (length buf + action_len ss)" by (rule checked_add_of_nat [OF o1])
  with b have "b = word_of_nat (length buf + action_len ss + body_len ss a)"
    using checked_add_of_nat by blast
  moreover have "length hd = action_len ss" "length body = body_len ss a"
    using assms(1) h body by (auto simp: swig_layout_def)
  ultimately show ?thesis using that [OF out body] h by simp
qed

lemma write_actions_layout:
  assumes "swig_layout ss" and "write_actions ss as buf = Inr out"
  shows "\<exists>bs. out = buf @ bs \<and> actions_layout ss (length buf) as bs"
  using assms(2)
proof (induction as arbitrary: buf)
  case (Cons a as)
  then obtain mid where m: "write_action ss a buf = Inr mid" and
    w: "write_actions ss as mid = Inr out"
    by (auto simp: result_simps)
  obtain hd body where hb: "mid = buf @ hd @ body" "body_bytes ss a = Some body"
    "action_header ss a (word_of_nat (body_len ss a))
      (word_of_nat (length buf + length hd + length body)) = Some hd"
    using write_action_layout [OF assms(1) m] by blast
  obtain bs where "out = mid @ bs" "actions_layout ss (length mid) as bs"
    using Cons.IH [OF w] by blast
  with hb show ?case by (auto simp: add.assoc)
qed simp

lemma write_action_length:
  assumes "swig_layout ss" and "write_action ss a buf = Inr out"
  shows "length out = length buf + action_len ss + body_len ss a"
proof -
  obtain hd body where "out = buf @ hd @ body" "body_bytes ss a = Some body"
    "action_header ss a (word_of_nat (body_len ss a))
      (word_of_nat (length buf + length hd + length body)) = Some hd"
    using write_action_layout [OF assms] by blast
  moreover from this assms(1) have "length hd = action_len ss" "length body = body_len ss a"
    unfolding swig_layout_def by blast+
  ultimately show ?thesis by simp
qed

text \<open>A reader of small layouts accepts exactly the buffers that are written.\<close>

definition small_layout :: "swig_state \<Rightarrow> bool" where
  "small_layout ss \<longleftrightarrow> swig_layout ss \<and> (\<forall>a. action_len ss + body_len ss a < 2 ^ 16)"

lemma checked_add_fits:
  assumes "m + n < 2 ^ LENGTH('a)"
  shows "checked_add (word_of_nat m :: 'a::len word) (word_of_nat n) = Some (word_of_nat (m + n))"
proof -
  have "unat (word_of_nat m :: 'a word) = m" "unat (word_of_nat n :: 'a word) = n"
    using assms by (simp_all add: unat_of_nat take_bit_nat_eq_self)
  then show ?thesis using assms by (simp add: checked_add_def)
qed

lemma write_action_eq_Inr:
  assumes "swig_layout ss" and "length buf + action_len ss + body_len ss a < 2 ^ 32"
  shows "write_action ss a buf = Inr out \<longleftrightarrow>
    (\<exists>hd body. out = buf @ hd @ body \<and> body_bytes ss a = Some body \<and>
       action_header ss a (word_of_nat (body_len ss a))
         (word_of_nat (length buf + length hd + length body)) = Some hd)"
proof -
  let ?stop = "word_of_nat (length buf + action_len ss + body_len ss a) :: u32"
  have offset: "checked_add (word_of_nat (length buf) :: u32) (word_of_nat (action_len ss)) =
      Some (word_of_nat (length buf + action_len ss))"
    by (rule checked_add_fits) (use assms(2) in simp)
  have boundary: "checked_add (word_of_nat (length buf + action_len ss) :: u32)
      (word_of_nat (body_len ss a)) = Some ?stop"
    by (rule checked_add_fits) (use assms(2) in simp)
  have "write_action ss a buf = Inr out \<longleftrightarrow>
    (\<exists>hd body. action_header ss a (word_of_nat (body_len ss a)) ?stop = Some hd \<and>
       body_bytes ss a = Some body \<and> out = buf @ hd @ body)"
    unfolding write_action_def Let_def offset ok_or_Some bind_res_Inr boundary
    by (auto simp: result_simps)
  moreover have "length hd = action_len ss" if "action_header ss a l b = Some hd" for hd l b
    using assms(1) that by (simp add: swig_layout_def)
  moreover have "length body = body_len ss a" if "body_bytes ss a = Some body" for body
    using assms(1) that by (simp add: swig_layout_def)
  ultimately show ?thesis by metis
qed

lemma write_actions_eq_Inr:
  assumes "small_layout ss" and "length buf + length as * 2 ^ 16 < 2 ^ 32"
  shows "write_actions ss as buf = Inr out \<longleftrightarrow>
    (\<exists>bs. out = buf @ bs \<and> actions_layout ss (length buf) as bs)"
  using assms(2)
proof (induction as arbitrary: buf)
  case (Cons a as)
  from assms(1) have lay: "swig_layout ss" and small: "action_len ss + body_len ss a < 2 ^ 16"
    by (auto simp: small_layout_def)
  have fits: "length buf + action_len ss + body_len ss a < 2 ^ 32" using Cons.prems small by simp
  have "write_actions ss (a # as) buf = Inr out \<longleftrightarrow>
    (\<exists>mid. write_action ss a buf = Inr mid \<and>
       (\<exists>bs. out = mid @ bs \<and> actions_layout ss (length mid) as bs))"
    using Cons.prems small write_action_length [OF lay] Cons.IH
    by (fastforce simp: result_simps)
  also have "\<dots> \<longleftrightarrow> (\<exists>hd body bs. out = buf @ hd @ body @ bs \<and> body_bytes ss a = Some body \<and>
      action_header ss a (word_of_nat (body_len ss a))
        (word_of_nat (length buf + length hd + length body)) = Some hd \<and>
      actions_layout ss (length buf + length hd + length body) as bs)" (is "_ \<longleftrightarrow> ?r")
    unfolding write_action_eq_Inr [OF lay fits]
    by (rule iffI; elim exE conjE; hypsubst)
      (simp only: append_assoc length_append add.assoc, blast,
        intro exI conjI, rule refl, assumption, assumption, simp, simp add: add.assoc)
  also have "?r \<longleftrightarrow> (\<exists>bs. out = buf @ bs \<and> actions_layout ss (length buf) (a # as) bs)"
    unfolding actions_layout.simps by blast
  finally show ?case .
qed auto

section \<open>The calls on the wire\<close>

text \<open>The four calls byte by byte, as the Swig program expects them: the accounts with their signer and
  writable flags; discriminator, lengths, type code and count in little-endian order; then the
  authority, the actions and, for an added role, the index of the acting authority's account.\<close>

definition swig_call :: "(pubkey \<times> bool \<times> bool) list \<Rightarrow> byte list \<Rightarrow> cpi_instruction" where
  "swig_call ks dat =
     \<lparr> cpi_program_id = SWIG_PROGRAM_ID,
       cpi_accounts = map (\<lambda>(k, s, w). \<lparr> am_pubkey = k, am_is_signer = s, am_is_writable = w \<rparr>) ks,
       cpi_data = dat \<rparr>"

definition create_wire :: "swig_state \<Rightarrow> 32 bytes \<Rightarrow> u8 \<Rightarrow> u8 \<Rightarrow> pubkey \<Rightarrow> byte list \<Rightarrow> byte list" where
  "create_wire ss swig_id b wb payer actions =
     [0, 0] @ le_bytes 2 (authority_code ss Ed25519) @ [32, 0] @ [b, wb] @ to_list swig_id @
     to_list payer @ actions"

definition exec_role_wire :: "swig_state \<Rightarrow> byte list \<Rightarrow> byte list \<Rightarrow> byte list" where
  "exec_role_wire ss marker actions =
     [1, 0] @ [80, 0] @ le_bytes 2 (word_of_nat (length actions) :: u16) @
     le_bytes 2 (authority_code ss ProgramExec) @ [1, 0, 0, 0] @ [0, 0, 0, 0] @
     to_list PROGRAM_ID @ [8, 0, 0, 0, 0, 0, 0, 0] @ marker @ replicate 32 0 @ actions @ [3]"

definition session_role_wire :: "swig_state \<Rightarrow> pubkey \<Rightarrow> byte list \<Rightarrow> byte list" where
  "session_role_wire ss master actions =
     [1, 0] @ [72, 0] @ le_bytes 2 (word_of_nat (length actions) :: u16) @
     le_bytes 2 (authority_code ss Ed25519Session) @ [2, 0, 0, 0] @ [0, 0, 0, 0] @
     to_list master @ replicate 32 0 @ [0x00, 0x8D, 0x27, 0, 0, 0, 0, 0] @ actions @ [3]"

lemma le_bytes_examples:
  "le_bytes 2 (0 :: u16) = [0, 0]" "le_bytes 2 (1 :: u16) = [1, 0]" "le_bytes 2 (32 :: u16) = [32, 0]"
  "le_bytes 2 (72 :: u16) = [72, 0]" "le_bytes 2 (80 :: u16) = [80, 0]"
  "le_bytes 4 (0 :: u32) = [0, 0, 0, 0]"
  "le_bytes 8 (2592000 :: u64) = [0x00, 0x8D, 0x27, 0, 0, 0, 0, 0]"
  by code_simp+

lemma create_data_wire:
  assumes "small_layout ss"
  shows "build_create_v1_data ss i b wb Ed25519 (to_list k) [ManageAuthority] = Inr dat \<longleftrightarrow>
    (\<exists>acts. actions_layout ss 0 [ManageAuthority] acts \<and> dat = create_wire ss i b wb k acts)"
  using write_actions_eq_Inr [OF assms, of "[]" "[ManageAuthority]"]
  by (auto simp: build_create_v1_data_def result_simps create_wire_def create_v1_new_def
      create_v1_bytes_def SWIG_IX_CREATE_V1_def le_bytes_examples)

lemma role_header_bytes:
  "add_authority_bytes (add_authority_new ss 0 ty 80 n 1) =
     [1, 0] @ [80, 0] @ le_bytes 2 n @ le_bytes 2 (authority_code ss ty) @ [1, 0, 0, 0] @ [0, 0, 0, 0]"
  "add_authority_bytes (add_authority_new ss 0 ty 72 n 2) =
     [1, 0] @ [72, 0] @ le_bytes 2 n @ le_bytes 2 (authority_code ss ty) @ [2, 0, 0, 0] @ [0, 0, 0, 0]"
  by (simp_all add: add_authority_bytes_def add_authority_new_def SWIG_IX_ADD_AUTHORITY_V1_def
      le_bytes_examples numeral_3_eq_3)

lemma program_exec_wire:
  assumes "length x = 8"
  shows "build_program_exec_authority_bytes p x =
    to_list p @ [8, 0, 0, 0, 0, 0, 0, 0] @ x @ replicate 32 0"
proof -
  have "replicate 7 (0 :: byte) = [0, 0, 0, 0, 0, 0, 0]" by (simp add: eval_nat_numeral)
  then show ?thesis
    using assms by (simp add: build_program_exec_authority_bytes_def PROGRAM_EXEC_MAX_PREFIX_LEN_def)
qed

lemma exec_role_data_wire:
  assumes "small_layout ss" and "length x = 8"
  shows "build_add_authority_data ss 0 ProgramExec
      (build_program_exec_authority_bytes PROGRAM_ID x) [All] ACTING_AUTHORITY_ACCOUNT_INDEX = Inr dat \<longleftrightarrow>
    (\<exists>acts. actions_layout ss 0 [All] acts \<and> dat = exec_role_wire ss x acts)"
  using write_actions_eq_Inr [OF assms(1), of "[]" "[All]"] assms(2)
  by (auto simp: build_add_authority_data_def result_simps exec_role_wire_def role_header_bytes
      program_exec_wire [OF assms(2)] ACTING_AUTHORITY_ACCOUNT_INDEX_def
      simp del: actions_layout.simps)

lemma session_role_data_wire:
  assumes "small_layout ss"
  shows "build_add_authority_data ss 0 Ed25519Session (session_authority_bytes m)
      [TokenLimit k n, ProgramAll] ACTING_AUTHORITY_ACCOUNT_INDEX = Inr dat \<longleftrightarrow>
    (\<exists>acts. actions_layout ss 0 [TokenLimit k n, ProgramAll] acts \<and>
      dat = session_role_wire ss m acts)"
  using write_actions_eq_Inr [OF assms(1), of "[]" "[TokenLimit k n, ProgramAll]"]
  by (auto simp: build_add_authority_data_def result_simps session_role_wire_def role_header_bytes
      session_authority_bytes_def DEFAULT_SESSION_TTL_SECONDS_def le_bytes_examples
      ACTING_AUTHORITY_ACCOUNT_INDEX_def simp del: actions_layout.simps)

section \<open>What success establishes\<close>

lemma invoke_cpi_eq_Inr [result_simps]:
  "invoke_cpi cpi ds ix = Inr ds' \<longleftrightarrow> cpi ds ix \<and> ds' = ds @ [ix]"
  by (auto simp: invoke_cpi_def result_simps)

definition role_data ::
  "swig_state \<Rightarrow> authority_type \<Rightarrow> byte list \<Rightarrow> client_action list \<Rightarrow> byte list \<Rightarrow> bool" where
  "role_data ss ty authority actions dat \<longleftrightarrow>
     build_add_authority_data ss 0 ty authority actions ACTING_AUTHORITY_ACCOUNT_INDEX = Inr dat"

lemma all_less_4: "(\<forall>i<4. P i) \<longleftrightarrow> P 0 \<and> P 1 \<and> P 2 \<and> P (3::nat)"
  by (auto simp: numeral_eq_Suc less_Suc_eq)

lemma set_swig_atomic_eq_Inr:
  "set_swig_atomic h ss cpi e v accs args = Inr (v', ixs) \<longleftrightarrow>
     at_fee_payer accs \<in> set (signers e) \<and> at_swig_program accs = SWIG_PROGRAM_ID \<and>
     any_supported_version (version v) \<and> swig_address v = 0 \<and>
     (\<exists>d0 d1 d2 d3.
        build_create_v1_data ss (at_swig_id args) (at_swig_account_bump args)
          (at_swig_wallet_address_bump args) Ed25519 (to_list (at_fee_payer accs)) [ManageAuthority]
          = Inr d0 \<and>
        role_data ss ProgramExec
          (build_program_exec_authority_bytes PROGRAM_ID SWIG_MARKER_FINALIZE_WITHDRAWAL) [All] d1 \<and>
        role_data ss Ed25519Session (session_authority_bytes (at_dexter_master_pubkey args))
          [TokenLimit USDC_MAINNET DEFAULT_SPEND_LIMIT_ATOMIC, ProgramAll] d2 \<and>
        role_data ss ProgramExec
          (build_program_exec_authority_bytes PROGRAM_ID SWIG_MARKER_SETTLE_TAB) [All] d3 \<and>
        ixs = [create_ix accs d0, add_role_ix accs d1, add_role_ix accs d2, add_role_ix accs d3] \<and>
        (\<forall>i<4. cpi (take i ixs) (ixs ! i))) \<and>
     passkey_authorized h (sysvar e) (passkey_pubkey v) (at_client_data_json args)
       (at_authenticator_data args) (set_swig_message (at_swig_account accs)) \<and>
     v' = v\<lparr>swig_address := at_swig_account accs\<rparr>"
  unfolding set_swig_atomic_def set_swig_atomic_handler_def add_settle_tab_role_def
    bind_swig_address_def Let_def bind_res_eq_Inr
    require_eq_Inr check_signer_eq_Inr invoke_cpi_eq_Inr verify_passkey_signed_eq_Inr
    role_data_def all_less_4 sum.inject prod.inject
  by (auto simp: numeral_eq_Suc)

interpretation set_swig_atomic_gate: passkey_gated
  "\<lambda>h e (ss, cpi, v, accs) args. set_swig_atomic h ss cpi e v accs args"
  "\<lambda>(ss, cpi, v, accs). passkey_pubkey v" "\<lambda>(ss, cpi, v, accs) args. OpSetSwig (at_swig_account accs)"
  at_client_data_json at_authenticator_data
  by unfold_locales (auto simp: set_swig_atomic_eq_Inr)

end
