(* ===== verification/Map_Sums.thy ===== *)
theory Map_Sums
  imports Main
begin

text \<open>
  Totals over the entries of a finite map: the accounting side of the ledger. \<open>map_total f m\<close> adds
  \<open>f\<close> over the entries; the update laws say how one write moves it.
\<close>

definition map_total :: "('k \<Rightarrow> 'a \<Rightarrow> nat) \<Rightarrow> ('k \<Rightarrow> 'a option) \<Rightarrow> nat" where
  "map_total f m = (\<Sum>k\<in>dom m. f k (the (m k)))"

definition weight_at :: "('k \<Rightarrow> 'a \<Rightarrow> nat) \<Rightarrow> ('k \<Rightarrow> 'a option) \<Rightarrow> 'k \<Rightarrow> nat" where
  "weight_at f m k = (case m k of None \<Rightarrow> 0 | Some x \<Rightarrow> f k x)"

lemma map_total_empty [simp]: "map_total f (\<lambda>_. None) = 0"
  by (simp add: map_total_def)

lemma map_total_remove:
  assumes "finite (dom m)"
  shows "map_total f (m(k := None)) + weight_at f m k = map_total f m"
proof (cases "m k")
  case None
  then have "m(k := None) = m" by (simp add: fun_upd_idem)
  with None show ?thesis by (simp add: weight_at_def)
next
  case (Some x)
  have "map_total f m = f k x + (\<Sum>j\<in>dom m - {k}. f j (the (m j)))"
    unfolding map_total_def using Some assms by (subst sum.remove [of _ k]) auto
  moreover have "map_total f (m(k := None)) = (\<Sum>j\<in>dom m - {k}. f j (the (m j)))"
    unfolding map_total_def by (rule sum.cong) auto
  ultimately show ?thesis using Some by (simp add: weight_at_def)
qed

lemma map_total_update:
  assumes "finite (dom m)"
  shows "map_total f (m(k \<mapsto> x)) + weight_at f m k = map_total f m + f k x"
proof -
  have "map_total f ((m(k \<mapsto> x))(k := None)) + weight_at f (m(k \<mapsto> x)) k = map_total f (m(k \<mapsto> x))"
    using assms by (intro map_total_remove) simp
  moreover have "(m(k \<mapsto> x))(k := None) = m(k := None)" by simp
  ultimately show ?thesis
    using map_total_remove [OF assms, of f k] by (simp add: weight_at_def)
qed

lemma map_total_same:
  assumes "finite (dom m)" and "f k x = weight_at f m k"
  shows "map_total f (m(k \<mapsto> x)) = map_total f m"
  using map_total_update [OF assms(1), of f k x] assms(2) by simp

lemma map_total_eq_0: "(\<And>k x. m k = Some x \<Longrightarrow> f k x = 0) \<Longrightarrow> map_total f m = 0"
  unfolding map_total_def by (intro sum.neutral) auto

lemma map_total_ge:
  assumes "finite (dom m)" and "m k = Some x"
  shows "f k x \<le> map_total f m"
  using map_total_remove [OF assms(1), of f k] assms(2) by (simp add: weight_at_def)

text \<open>Several writes at distinct keys, as the sweep does them.\<close>

definition upd_all :: "('k \<Rightarrow> 'a option) \<Rightarrow> ('k \<times> 'a) list \<Rightarrow> 'k \<Rightarrow> 'a option" where
  "upd_all m kxs = fold (\<lambda>(k, x) m. m(k \<mapsto> x)) kxs m"

lemma upd_all_simps [simp]:
  "upd_all m [] = m"
  "upd_all m ((k, x) # kxs) = upd_all (m(k \<mapsto> x)) kxs"
  by (simp_all add: upd_all_def)

lemma upd_all_notin: "k \<notin> fst ` set kxs \<Longrightarrow> upd_all m kxs k = m k"
  by (induction kxs arbitrary: m) auto

lemma upd_all_in:
  assumes "distinct (map fst kxs)" and "(k, x) \<in> set kxs"
  shows "upd_all m kxs k = Some x"
  using assms
proof (induction kxs arbitrary: m)
  case (Cons kx kxs)
  obtain k0 x0 where [simp]: "kx = (k0, x0)" by (cases kx)
  show ?case
  proof (cases "(k, x) \<in> set kxs")
    case True
    with Cons show ?thesis by simp
  next
    case False
    with Cons.prems have "k = k0" "x = x0" by auto
    moreover have "k0 \<notin> fst ` set kxs" using Cons.prems by simp
    ultimately show ?thesis by (simp add: upd_all_notin)
  qed
qed simp

lemma upd_all_cases:
  assumes "upd_all m kxs k = Some x"
  shows "(k, x) \<in> set kxs \<or> k \<notin> fst ` set kxs \<and> m k = Some x"
  using assms
proof (induction kxs arbitrary: m)
  case (Cons kx kxs)
  obtain k0 x0 where [simp]: "kx = (k0, x0)" by (cases kx)
  from Cons.prems have "upd_all (m(k0 \<mapsto> x0)) kxs k = Some x" by simp
  from Cons.IH [OF this] show ?case by (auto split: if_splits)
qed simp

lemma dom_upd_all: "dom (upd_all m kxs) = dom m \<union> fst ` set kxs"
proof (induction kxs arbitrary: m)
  case (Cons kx kxs)
  obtain k x where [simp]: "kx = (k, x)" by (cases kx)
  have "dom (upd_all m (kx # kxs)) = dom (m(k \<mapsto> x)) \<union> fst ` set kxs"
    unfolding \<open>kx = (k, x)\<close> upd_all_simps by (rule Cons.IH)
  then show ?case by simp
qed simp

lemma map_total_upd_all:
  assumes "finite (dom m)" and "distinct (map fst kxs)"
  shows "map_total f (upd_all m kxs) + (\<Sum>(k, x)\<leftarrow>kxs. weight_at f m k) =
    map_total f m + (\<Sum>(k, x)\<leftarrow>kxs. f k x)"
  using assms
proof (induction kxs arbitrary: m)
  case (Cons kx kxs)
  obtain k x where [simp]: "kx = (k, x)" by (cases kx)
  have "weight_at f (m(k \<mapsto> x)) j = weight_at f m j" if "j \<in> fst ` set kxs" for j
    using that Cons.prems(2) by (auto simp: weight_at_def)
  then have "(\<Sum>(j, y)\<leftarrow>kxs. weight_at f (m(k \<mapsto> x)) j) = (\<Sum>(j, y)\<leftarrow>kxs. weight_at f m j)"
    by (intro arg_cong [where f = sum_list] map_cong) force+
  moreover have "map_total f (upd_all (m(k \<mapsto> x)) kxs) + (\<Sum>(j, y)\<leftarrow>kxs. weight_at f (m(k \<mapsto> x)) j) =
      map_total f (m(k \<mapsto> x)) + (\<Sum>(j, y)\<leftarrow>kxs. f j y)"
    using Cons.prems by (intro Cons.IH) (simp_all del: fun_upd_apply)
  moreover have "map_total f (m(k \<mapsto> x)) + weight_at f m k = map_total f m + f k x"
    using Cons.prems(1) by (rule map_total_update)
  ultimately show ?case by simp
qed simp

end
