(* ===== verification/Ledger.thy ===== *)
theory Ledger
  imports Locked_Claims Credit Swig_Atomic Map_Sums
begin

text \<open>
  The program as a whole: the accounts it owns, its instruction set (\<open>lib.rs\<close>) and one transaction
  step. \<open>exec\<close> loads the accounts an instruction names, runs it, and writes back what it returned; an
  error leaves the ledger as it was, because Solana drops the effects of a failed transaction. The
  ledger holds the accounts of the current layout; the byte-level migrations of older layouts are in
  \<open>Migrations\<close>.
\<close>

section \<open>State\<close>

record ledger =
  vaults :: "pubkey \<Rightarrow> vault option"
  sessions :: "pubkey \<Rightarrow> session_account option"
  claims :: "pubkey \<Rightarrow> locked_claim option"
  backers :: "pubkey \<Rightarrow> standby_backer_ledger option"

definition empty_ledger :: ledger where
  "empty_ledger = \<lparr> vaults = \<lambda>_. None, sessions = \<lambda>_. None, claims = \<lambda>_. None,
     backers = \<lambda>_. None \<rparr>"

section \<open>Instructions\<close>

text \<open>The current-layout instructions of \<open>lib.rs\<close> with the accounts and arguments they carry.\<close>

datatype vault_instruction =
    InitializeVault pubkey pubkey pubkey initialize_vault_args
  | SetSwig pubkey set_swig_args
  | SetSwigAtomic pubkey set_swig_atomic_accounts set_swig_atomic_args
  | RotatePasskey pubkey rotate_passkey_args
  | RotateDexterAuthority pubkey pubkey pubkey
  | ProvePasskey pubkey prove_passkey_args
  | RequestWithdrawal pubkey request_withdrawal_args
  | FinalizeWithdrawal pubkey finalize_withdrawal_accounts finalize_withdrawal_args
  | ForceRelease pubkey force_release_args
  | SettleVoucher pubkey "pubkey option" pubkey settle_voucher_args
  | RegisterSessionKey register_session_key_accounts register_session_key_args
  | RevokeSessionKey pubkey pubkey revoke_session_key_args
  | CloseSession pubkey pubkey pubkey pubkey
  | SettleTabVoucher settle_tab_voucher_accounts settle_tab_voucher_args
  | LockVoucher lock_voucher_accounts lock_voucher_args
  | SettleLockedVoucher settle_locked_accounts
  | RecoverAbandonedLock pubkey pubkey recover_abandoned_args
  | TransferLockOwnership pubkey pubkey pubkey
  | SetStandbyReserve set_standby_reserve_accounts u64
  | OpenStandby pubkey pubkey pubkey open_standby_args
  | CloseStandby close_standby_accounts close_standby_args
  | DrawCredit pubkey draw_credit_accounts draw_credit_args
  | RepayCredit pubkey user_swig_accounts u64
  | SeizeCollateral pubkey user_swig_accounts

text \<open>The Swig program and its crate, which \<open>set_swig_atomic\<close> calls.\<close>

record swig_world =
  swig_lib :: swig_state
  swig_cpi :: "cpi_instruction list \<Rightarrow> cpi_instruction \<Rightarrow> bool"

section \<open>One step\<close>

definition load :: "('k \<Rightarrow> 'a option) \<Rightarrow> 'k \<Rightarrow> error + 'a" where
  "load m k = ok_or (m k) (AnchorError AccountNotInitialized)"

lemma load_eq_Inr [result_simps]: "load m k = Inr x \<longleftrightarrow> m k = Some x"
  by (simp add: load_def result_simps)

definition put_vault :: "ledger \<Rightarrow> pubkey \<Rightarrow> vault \<Rightarrow> ledger" where
  "put_vault l k v = l\<lparr>vaults := (vaults l)(k \<mapsto> v)\<rparr>"

definition put_session :: "ledger \<Rightarrow> pubkey \<Rightarrow> session_account \<Rightarrow> ledger" where
  "put_session l k a = l\<lparr>sessions := (sessions l)(k \<mapsto> a)\<rparr>"

definition put_claim :: "ledger \<Rightarrow> pubkey \<Rightarrow> locked_claim \<Rightarrow> ledger" where
  "put_claim l k c = l\<lparr>claims := (claims l)(k \<mapsto> c)\<rparr>"

definition put_backer :: "ledger \<Rightarrow> pubkey \<Rightarrow> standby_backer_ledger \<Rightarrow> ledger" where
  "put_backer l k b = l\<lparr>backers := (backers l)(k \<mapsto> b)\<rparr>"

lemmas put_defs = put_vault_def put_session_def put_claim_def put_backer_def

text \<open>An instruction whose only account of the program is one vault.\<close>

definition on_vault :: "ledger \<Rightarrow> pubkey \<Rightarrow> (vault \<Rightarrow> error + vault) \<Rightarrow> error + ledger" where
  "on_vault l k run =
     bind_res (load (vaults l) k) (\<lambda>v. bind_res (run v) (\<lambda>v'. Inr (put_vault l k v')))"

lemma on_vault_eq_Inr [result_simps]:
  "on_vault l k run = Inr l' \<longleftrightarrow>
     (\<exists>v v'. vaults l k = Some v \<and> run v = Inr v' \<and> l' = put_vault l k v')"
  by (auto simp: on_vault_def result_simps)

definition siblings_of :: "ledger \<Rightarrow> (pubkey \<times> bool) list \<Rightarrow> sibling list" where
  "siblings_of l = map (\<lambda>(k, w). \<lparr> sib_key = k, sib_account = sessions l k, sib_writable = w \<rparr>)"

fun exec :: "host \<Rightarrow> swig_world \<Rightarrow> tx_env \<Rightarrow> vault_instruction \<Rightarrow> ledger \<Rightarrow> error + ledger" where
  "exec h sw e (InitializeVault k payer authority args) l =
     bind_res (initialize_vault h e k payer authority (vaults l k) args) (\<lambda>v.
     Inr (put_vault l k v))"
| "exec h sw e (SetSwig k args) l = on_vault l k (\<lambda>v. set_swig h e v args)"
| "exec h sw e (SetSwigAtomic k accs args) l =
     on_vault l k (\<lambda>v. bind_res (set_swig_atomic h (swig_lib sw) (swig_cpi sw) e v accs args)
       (\<lambda>(v', ixs). Inr v'))"
| "exec h sw e (RotatePasskey k args) l = on_vault l k (\<lambda>v. rotate_passkey h e v args)"
| "exec h sw e (RotateDexterAuthority k authority new_authority) l =
     on_vault l k (\<lambda>v. rotate_dexter_authority e v authority new_authority)"
| "exec h sw e (ProvePasskey k args) l =
     bind_res (load (vaults l) k) (\<lambda>v. bind_res (prove_passkey h e v args) (\<lambda>_. Inr l))"
| "exec h sw e (RequestWithdrawal k args) l = on_vault l k (\<lambda>v. request_withdrawal h e v args)"
| "exec h sw e (FinalizeWithdrawal k accs args) l =
     on_vault l k (\<lambda>v. finalize_withdrawal h e v accs args)"
| "exec h sw e (ForceRelease k args) l = on_vault l k (\<lambda>v. force_release h e v args)"
| "exec h sw e (SettleVoucher k None authority args) l =
     on_vault l k (\<lambda>v. bind_res (settle_voucher h e v k None authority args) (\<lambda>(v', _). Inr v'))"
| "exec h sw e (SettleVoucher k (Some sk) authority args) l =
     bind_res (load (vaults l) k) (\<lambda>v.
     bind_res (load (sessions l) sk) (\<lambda>sa.
     bind_res (settle_voucher h e v k (Some (sk, sa)) authority args) (\<lambda>(v', sa').
     Inr (put_session (put_vault l k v') sk (case sa' of None \<Rightarrow> sa | Some x \<Rightarrow> x)))))"
| "exec h sw e (RegisterSessionKey accs args) l =
     bind_res (load (vaults l) (rg_vault accs)) (\<lambda>v.
     bind_res (register_session_key h e v (sessions l (rg_session accs))
                 (siblings_of l (rg_siblings accs)) accs args) (\<lambda>(v', sa', cl).
     let l1 = put_vault l (rg_vault accs) v';
         l2 = l1\<lparr>sessions := upd_all (sessions l1) cl\<rparr> in
     Inr (put_session l2 (rg_session accs) sa')))"
| "exec h sw e (RevokeSessionKey k sk args) l =
     bind_res (load (vaults l) k) (\<lambda>v.
     bind_res (load (sessions l) sk) (\<lambda>sa.
     bind_res (revoke_session_key h e v k sa sk args) (\<lambda>(v', sa').
     Inr (put_session (put_vault l k v') sk sa'))))"
| "exec h sw e (CloseSession k sk authority counterparty) l =
     bind_res (load (vaults l) k) (\<lambda>v.
     bind_res (load (sessions l) sk) (\<lambda>sa.
     bind_res (close_session h e v k sa sk authority counterparty) (\<lambda>_.
     Inr (l\<lparr>sessions := (sessions l)(sk := None)\<rparr>))))"
| "exec h sw e (SettleTabVoucher accs args) l =
     bind_res (load (vaults l) (st_vault accs)) (\<lambda>v.
     bind_res (load (sessions l) (st_session accs)) (\<lambda>sa.
     bind_res (settle_tab_voucher h e v sa accs args) (\<lambda>(v', sa').
     Inr (put_session (put_vault l (st_vault accs) v') (st_session accs) sa'))))"
| "exec h sw e (LockVoucher accs args) l =
     bind_res (load (vaults l) (lk_vault accs)) (\<lambda>v.
     bind_res (load (sessions l) (lk_session accs)) (\<lambda>sa.
     bind_res (lock_voucher h e v sa (claims l (lk_claim accs)) accs args) (\<lambda>(v', sa', c).
     Inr (put_claim (put_session (put_vault l (lk_vault accs) v') (lk_session accs) sa')
            (lk_claim accs) c))))"
| "exec h sw e (SettleLockedVoucher accs) l =
     bind_res (load (claims l) (sl_claim accs)) (\<lambda>c.
     bind_res (load (vaults l) (sl_vault accs)) (\<lambda>v.
     bind_res (settle_locked_voucher h e v c accs) (\<lambda>(v', c').
     Inr (put_claim (put_vault l (sl_vault accs) v') (sl_claim accs) c'))))"
| "exec h sw e (RecoverAbandonedLock k ck args) l =
     bind_res (load (claims l) ck) (\<lambda>c.
     bind_res (load (vaults l) k) (\<lambda>v.
     bind_res (recover_abandoned_lock h e v k c ck args) (\<lambda>(v', c').
     Inr (put_claim (put_vault l k v') ck c'))))"
| "exec h sw e (TransferLockOwnership ck holder new_holder) l =
     bind_res (load (claims l) ck) (\<lambda>c.
     bind_res (transfer_lock_ownership e c holder new_holder) (\<lambda>c'.
     Inr (put_claim l ck c')))"
| "exec h sw e (SetStandbyReserve accs reserve) l =
     bind_res (set_standby_reserve h e (backers l (sr_standby_backer accs)) accs reserve) (\<lambda>b.
     Inr (put_backer l (sr_standby_backer accs) b))"
| "exec h sw e (OpenStandby k financier bk args) l =
     bind_res (load (vaults l) k) (\<lambda>v.
     bind_res (load (backers l) bk) (\<lambda>b.
     bind_res (open_standby h e v k financier b bk args) (\<lambda>(v', b').
     Inr (put_backer (put_vault l k v') bk b'))))"
| "exec h sw e (CloseStandby accs args) l =
     bind_res (load (vaults l) (cs_vault accs)) (\<lambda>v.
     bind_res (load (backers l) (cs_standby_backer accs)) (\<lambda>b.
     bind_res (close_standby h e v b accs args) (\<lambda>(v', b').
     Inr (put_backer (put_vault l (cs_vault accs) v') (cs_standby_backer accs) b'))))"
| "exec h sw e (DrawCredit k accs args) l = on_vault l k (\<lambda>v. draw_credit h e v accs args)"
| "exec h sw e (RepayCredit k accs amount) l = on_vault l k (\<lambda>v. repay_credit h e v accs amount)"
| "exec h sw e (SeizeCollateral k accs) l = on_vault l k (\<lambda>v. seize_collateral h e v accs)"

section \<open>Sequences of transactions\<close>

fun exec_all :: "host \<Rightarrow> swig_world \<Rightarrow> (tx_env \<times> vault_instruction) list \<Rightarrow> ledger \<Rightarrow> error + ledger" where
  "exec_all h sw [] l = Inr l"
| "exec_all h sw ((e, ix) # txs) l = bind_res (exec h sw e ix l) (exec_all h sw txs)"

lemma exec_all_append:
  "exec_all h sw (txs @ txs') l = bind_res (exec_all h sw txs l) (exec_all h sw txs')"
  by (induction h sw txs l rule: exec_all.induct) (simp_all add: bind_res_assoc cong: bind_res_cong)

section \<open>Runs\<close>

text \<open>\<open>allowed\<close> restricts the instructions of a run, where a property holds only without some.\<close>

inductive ledger_step ::
  "host \<Rightarrow> swig_world \<Rightarrow> (vault_instruction \<Rightarrow> bool) \<Rightarrow> ledger \<Rightarrow> ledger \<Rightarrow> bool"
  for h sw allowed where
  "\<lbrakk> allowed ix; exec h sw e ix l = Inr l' \<rbrakk> \<Longrightarrow> ledger_step h sw allowed l l'"

inductive_cases ledger_stepE: "ledger_step h sw allowed l l'"

inductive reachable :: "host \<Rightarrow> swig_world \<Rightarrow> (vault_instruction \<Rightarrow> bool) \<Rightarrow> ledger \<Rightarrow> bool"
  for h sw allowed where
  init: "reachable h sw allowed empty_ledger"
| step: "\<lbrakk> reachable h sw allowed l; ledger_step h sw allowed l l' \<rbrakk> \<Longrightarrow>
    reachable h sw allowed l'"

lemma reachable_mono:
  assumes "reachable h sw allowed l" and "\<And>ix. allowed ix \<Longrightarrow> allowed' ix"
  shows "reachable h sw allowed' l"
  using assms
  by (induction rule: reachable.induct)
    (auto elim!: ledger_stepE intro: reachable.intros ledger_step.intros)

lemma reachable_any: "reachable h sw allowed l \<Longrightarrow> reachable h sw (\<lambda>_. True) l"
  by (erule reachable_mono) simp

text \<open>The rule by which every ledger invariant is proved.\<close>

locale ledger_invariant =
  fixes h :: host and allowed :: "vault_instruction \<Rightarrow> bool" and inv :: "ledger \<Rightarrow> bool"
  assumes inv_empty: "inv empty_ledger"
    and inv_exec: "\<lbrakk> inv l; allowed ix; exec h sw e ix l = Inr l' \<rbrakk> \<Longrightarrow> inv l'"
begin

lemma inv_step: "\<lbrakk> inv l; ledger_step h sw allowed l l' \<rbrakk> \<Longrightarrow> inv l'"
  by (auto elim: ledger_stepE intro: inv_exec)

lemma inv_reachable: "reachable h sw allowed l \<Longrightarrow> inv l"
  by (induction rule: reachable.induct) (auto intro: inv_empty inv_step)

lemma inv_steps: "\<lbrakk> (ledger_step h sw allowed)\<^sup>*\<^sup>* l l'; inv l \<rbrakk> \<Longrightarrow> inv l'"
  by (induction rule: rtranclp_induct) (auto intro: inv_step)

end

end
