(* ===== verification/Books.thy ===== *)
theory Books
  imports Ledger
begin

text \<open>
  The abstract specification of the ledger: \<open>book\<close> says what an instruction may do to the accounting
  fields, without passkeys, signatures or messages, and \<open>exec_books\<close> shows that every instruction of the
  program does one of these things. The invariants of the ledger are proved over \<open>book\<close>.
\<close>

section \<open>Vocabulary\<close>

definition fresh_books :: "vault \<Rightarrow> bool" where
  "fresh_books v \<longleftrightarrow>
     live_session_count v = 0 \<and> outstanding_locked_amount v = 0 \<and> borrowed v = 0 \<and>
     standby_backer v = None \<and> standby_cap v = 0 \<and> borrow_recovery_at v = None"

definition same_books :: "vault \<Rightarrow> vault \<Rightarrow> bool" where
  "same_books v v' \<longleftrightarrow>
     live_session_count v' = live_session_count v \<and>
     outstanding_locked_amount v' = outstanding_locked_amount v \<and> borrowed v' = borrowed v \<and>
     standby_backer v' = standby_backer v \<and> standby_cap v' = standby_cap v \<and>
     borrow_recovery_at v' = borrow_recovery_at v"

definition session_sound :: "session_registration \<Rightarrow> bool" where
  "session_sound s \<longleftrightarrow>
     sr_current_outstanding s \<le> sr_max_revolving_capacity s \<and> frontier s \<le> sr_max_amount s"

definition existing_session :: "ledger \<Rightarrow> pubkey \<Rightarrow> session_account" where
  "existing_session l k = (case sessions l k of None \<Rightarrow> fresh_session_account | Some a \<Rightarrow> a)"

definition existing_backer :: "ledger \<Rightarrow> pubkey \<Rightarrow> standby_backer_ledger" where
  "existing_backer l k = (case backers l k of None \<Rightarrow> fresh_standby_backer | Some b \<Rightarrow> b)"

section \<open>The bookkeeping machine\<close>

text \<open>\<open>nz\<close>: sessions are registered for a counterparty other than the default key.\<close>

inductive book :: "host \<Rightarrow> bool \<Rightarrow> ledger \<Rightarrow> ledger \<Rightarrow> bool" for h nz where
  unchanged: "book h nz l l"
| vault_born: "\<lbrakk> vaults l k = None; fresh_books v \<rbrakk> \<Longrightarrow> book h nz l (put_vault l k v)"
| vault_kept: "\<lbrakk> vaults l k = Some v; same_books v v' \<rbrakk> \<Longrightarrow> book h nz l (put_vault l k v')"
| loan: "\<lbrakk> vaults l k = Some v; v' = v\<lparr>borrowed := b, borrow_recovery_at := d\<rparr>;
    credit_ok v \<longrightarrow> credit_ok v' \<rbrakk> \<Longrightarrow> book h nz l (put_vault l k v')"
| session_used: "\<lbrakk> vaults l k = Some v; sessions l sk = Some a; same_books v v';
    same_terms (sa_session a) s; session_sound (sa_session a) \<longrightarrow> session_sound s;
    sa_version a = 0 \<longrightarrow> s = sa_session a \<rbrakk> \<Longrightarrow>
    book h nz l (put_session (put_vault l k v') sk (a\<lparr>sa_session := s\<rparr>))"
| registered: "\<lbrakk> vaults l k = Some v;
    find_program_address h (session_seeds k (ra_allowed_counterparty args)) PROGRAM_ID = Some (sk, b);
    nz \<longrightarrow> ra_allowed_counterparty args \<noteq> 0;
    admitted h n v k bal sk (existing_session l sk) (siblings_of l sibs) (ra_max_amount args);
    count_after v n (existing_session l sk) (siblings_of l sibs) c;
    l' = put_session ((put_vault l k (v\<lparr>live_session_count := c\<rparr>))\<lparr>sessions :=
        upd_all (sessions l) (map sib_clear (filter (Not \<circ> sib_live n) (siblings_of l sibs)))\<rparr>)
      sk (registered_session (existing_session l sk) b k args) \<rbrakk> \<Longrightarrow> book h nz l l'"
| revoked: "\<lbrakk> vaults l k = Some v; sessions l sk = Some a; sa_version a \<noteq> 0;
    create_program_address h (session_seeds k cp @ [[sa_bump a]]) PROGRAM_ID = Some sk;
    0 < live_session_count v \<rbrakk> \<Longrightarrow>
    book h nz l (put_session
      (put_vault l k (v\<lparr>live_session_count := live_session_count v - 1\<rparr>)) sk (clear_session a))"
| session_closed: "\<lbrakk> sessions l sk = Some a; sa_version a = 0 \<rbrakk> \<Longrightarrow>
    book h nz l (l\<lparr>sessions := (sessions l)(sk := None)\<rparr>)"
| locked: "\<lbrakk> vaults l k = Some v; sessions l sk = Some a; claims l ck = None; sa_version a \<noteq> 0;
    frontier (sa_session a) < cum; cum \<le> sr_max_amount (sa_session a);
    unat proposed = unat (outstanding_locked_amount v) + unat (lc_amount c);
    lc_vault c = k; lc_status c = Pending; claim_wf c; lc_amount c = lock_delta (sa_session a) cum;
    v' = v\<lparr>outstanding_locked_amount := proposed, total_crystallized_amount := tc\<rparr>;
    a' = a\<lparr>sa_session := graduate_session (sa_session a) (lc_amount c) sq\<rparr> \<rbrakk> \<Longrightarrow>
    book h nz l (put_claim (put_session (put_vault l k v') sk a') ck c)"
| claim_ended: "\<lbrakk> vaults l k = Some v; claims l ck = Some c; lc_vault c = k; claim_step c c';
    lc_status c' \<noteq> Pending;
    v' = v\<lparr>outstanding_locked_amount := saturating_sub (outstanding_locked_amount v) (lc_amount c),
           total_settled_amount := ts\<rparr> \<rbrakk> \<Longrightarrow>
    book h nz l (put_claim (put_vault l k v') ck c')"
| claim_moved: "\<lbrakk> claims l ck = Some c; claim_step c c'; lc_status c' = Pending \<rbrakk> \<Longrightarrow>
    book h nz l (put_claim l ck c')"
| reserved: "\<lbrakk> find_program_address h (standby_seeds f) PROGRAM_ID = Some (bk, b);
    sb_version (existing_backer l bk) = 0 \<or> sb_aggregate_promised (existing_backer l bk) \<le> r;
    sb' = reserved_ledger (existing_backer l bk) b f r \<rbrakk> \<Longrightarrow> book h nz l (put_backer l bk sb')"
| standby_opened: "\<lbrakk> vaults l k = Some v; backers l bk = Some sb;
    standby_backer v = None \<or> standby_backer v = Some (sb_financier_swig sb); borrowed v \<le> cap;
    promise_replaced sb (current_cap v) cap sb';
    v' = v\<lparr>standby_backer := Some (sb_financier_swig sb), standby_cap := cap\<rparr> \<rbrakk> \<Longrightarrow>
    book h nz l (put_backer (put_vault l k v') bk sb')"
| standby_closed: "\<lbrakk> vaults l k = Some v; backers l bk = Some sb;
    standby_backer v = Some (sb_financier_swig sb); borrowed v = 0;
    v' = v\<lparr>standby_backer := None, standby_cap := 0\<rparr>;
    sb' = sb\<lparr>sb_aggregate_promised :=
            saturating_sub (sb_aggregate_promised sb) (standby_cap v)\<rparr> \<rbrakk> \<Longrightarrow>
    book h nz l (put_backer (put_vault l k v') bk sb')"

section \<open>Every instruction is a bookkeeping step\<close>

definition nonzero_counterparty :: "vault_instruction \<Rightarrow> bool" where
  "nonzero_counterparty ix \<longleftrightarrow>
     (case ix of RegisterSessionKey accs args \<Rightarrow> ra_allowed_counterparty args \<noteq> 0 | _ \<Rightarrow> True)"

lemma same_books_refl [simp]: "same_books v v"
  by (simp add: same_books_def)

lemma book_on_vault:
  assumes "on_vault l k run = Inr l'" and "\<And>v v'. run v = Inr v' \<Longrightarrow> same_books v v'"
  shows "book h nz l l'"
  using assms by (auto simp: result_simps intro: vault_kept)

lemma book_loan:
  assumes "on_vault l k run = Inr l'"
    and "\<And>v v'. run v = Inr v' \<Longrightarrow> \<exists>b d. v' = v\<lparr>borrowed := b, borrow_recovery_at := d\<rparr>"
    and "\<And>v v'. run v = Inr v' \<Longrightarrow> credit_ok v \<Longrightarrow> credit_ok v'"
  shows "book h nz l l'"
proof -
  from assms(1) obtain v v' where v: "vaults l k = Some v" "run v = Inr v'" "l' = put_vault l k v'"
    by (auto simp: result_simps)
  from assms(2) [OF v(2)] obtain b d where "v' = v\<lparr>borrowed := b, borrow_recovery_at := d\<rparr>" by blast
  with v assms(3) [OF v(2)] show ?thesis by (auto intro: loan)
qed

lemma same_books_admin:
  "set_swig h e v args1 = Inr v' \<Longrightarrow> same_books v v'"
  "rotate_passkey h e v args2 = Inr v' \<Longrightarrow> same_books v v'"
  "rotate_dexter_authority e v a n = Inr v' \<Longrightarrow> same_books v v'"
  "request_withdrawal h e v args3 = Inr v' \<Longrightarrow> same_books v v'"
  "finalize_withdrawal h e v accs args4 = Inr v' \<Longrightarrow> same_books v v'"
  "force_release h e v args5 = Inr v' \<Longrightarrow> same_books v v'"
  by (auto simp: same_books_def set_swig_eq_Inr rotate_passkey_eq_Inr
      rotate_dexter_authority_eq_Inr request_withdrawal_eq_Inr finalize_withdrawal_eq_Inr
      force_release_eq_Inr)

lemma fresh_books_initialize:
  "initialize_vault h e k p a existing args = Inr v \<Longrightarrow> fresh_books v \<and> existing = None"
  by (auto simp: initialize_vault_eq_Inr initialize_vault_handler_eq_Inr fresh_books_def)

lemma settle_voucher_book:
  assumes "settle_voucher h e v k (Some (sk, a)) auth args = Inr (v', a')"
  shows "same_books v v' \<and> (\<exists>s. a' = Some (a\<lparr>sa_session := s\<rparr>) \<and> same_terms (sa_session a) s \<and>
    (session_sound (sa_session a) \<longrightarrow> session_sound s) \<and> (sa_version a = 0 \<longrightarrow> s = sa_session a))"
proof (cases "sv_increment args")
  case True
  with assms show ?thesis
    by (auto simp: settle_voucher_eq_Inr settle_voucher_handler_eq_Inr same_books_def
        same_terms_def session_sound_def frontier_def)
next
  case False
  with assms have "same_books v v'" "a' = Some (a\<lparr>sa_session := sa_session a\<rparr>)"
    by (auto simp: settle_voucher_eq_Inr settle_voucher_handler_eq_Inr same_books_def)
  then show ?thesis by (intro conjI exI [of _ "sa_session a"]) (auto simp: same_terms_def)
qed

lemma settle_voucher_none_book:
  assumes "settle_voucher h e v k None auth args = Inr (v', a')"
  shows "same_books v v'"
  using assms by (auto simp: settle_voucher_eq_Inr settle_voucher_handler_eq_Inr same_books_def
      split: if_splits)

lemma saturating_sub_le: "saturating_sub a b \<le> a"
  by (simp add: word_le_nat_alt)

lemma session_sound_settled:
  assumes "session_sound s" and "frontier s < c" and "c \<le> sr_max_amount s"
  shows "session_sound (s\<lparr>sr_spent := c,
    sr_current_outstanding := saturating_sub (sr_current_outstanding s) i\<rparr>)"
proof -
  have "saturating_sub (sr_current_outstanding s) i \<le> sr_max_revolving_capacity s"
    using assms(1) order.trans [OF saturating_sub_le] unfolding session_sound_def by blast
  then show ?thesis using assms by (simp add: session_sound_def frontier_settled)
qed

lemma session_sound_graduated:
  assumes "session_sound s" and "frontier s < c" and "c \<le> sr_max_amount s"
  shows "session_sound (graduate_session s (lock_delta s c) n)"
proof -
  have "sr_max_amount (graduate_session s (lock_delta s c) n) = sr_max_amount s"
    "sr_max_revolving_capacity (graduate_session s (lock_delta s c) n) = sr_max_revolving_capacity s"
    "sr_current_outstanding (graduate_session s (lock_delta s c) n) \<le> sr_current_outstanding s"
    by (simp_all add: graduate_session_def saturating_sub_le)
  then show ?thesis using assms by (auto simp: session_sound_def frontier_locked)
qed

lemma settle_tab_book:
  assumes "settle_tab_voucher h e v a accs args = Inr (v', a')"
  shows "same_books v v' \<and> sa_version a \<noteq> 0 \<and>
    (\<exists>s. a' = a\<lparr>sa_session := s\<rparr> \<and> same_terms (sa_session a) s \<and>
      (session_sound (sa_session a) \<longrightarrow> session_sound s))"
  using assms session_sound_settled
  by (auto simp: settle_tab_voucher_eq_Inr settle_tab_voucher_handler_eq_Inr same_books_def)

lemma lock_book:
  assumes "lock_voucher h e v a existing accs args = Inr (v', a', c)"
  shows "existing = None \<and> sa_version a \<noteq> 0 \<and>
    frontier (sa_session a) < lk_cumulative_amount args \<and>
    lk_cumulative_amount args \<le> sr_max_amount (sa_session a) \<and>
    lc_vault c = lk_vault accs \<and> lc_status c = Pending \<and> claim_wf c \<and>
    lc_amount c = lock_delta (sa_session a) (lk_cumulative_amount args) \<and>
    (\<exists>proposed tc. unat proposed = unat (outstanding_locked_amount v) + unat (lc_amount c) \<and>
       v' = v\<lparr>outstanding_locked_amount := proposed, total_crystallized_amount := tc\<rparr>) \<and>
    a' = a\<lparr>sa_session := graduate_session (sa_session a) (lc_amount c) (lk_sequence_number args)\<rparr>"
proof -
  from assms obtain ata b where none: "existing = None" and
    run: "lock_voucher_handler h e v (lk_vault accs) ata (lk_swig_wallet accs) a b
      (lk_seller_holder accs) args = Inr (v', a', c)"
    by (auto simp: lock_voucher_eq_Inr)
  have c: "c = new_claim e (lk_vault accs) (sa_session a) b (lk_seller_holder accs) args"
    using run by (simp add: lock_voucher_handler_eq_Inr)
  have "lc_amount c = lock_delta (sa_session a) (lk_cumulative_amount args)"
    "lc_vault c = lk_vault accs" "lc_status c = Pending"
    by (simp_all add: c new_claim_def)
  with none run new_claim_wf [OF run] show ?thesis
    by (auto simp: lock_voucher_handler_eq_Inr)
qed

text \<open>Instructions on one vault that leave its books alone.\<close>

lemma book_admin:
  "exec h sw e (InitializeVault k p a args0) l = Inr l' \<Longrightarrow> book h nz l l'"
  "exec h sw e (SetSwig k args1) l = Inr l' \<Longrightarrow> book h nz l l'"
  "exec h sw e (RotatePasskey k args2) l = Inr l' \<Longrightarrow> book h nz l l'"
  "exec h sw e (RotateDexterAuthority k a n) l = Inr l' \<Longrightarrow> book h nz l l'"
  "exec h sw e (ProvePasskey k args3) l = Inr l' \<Longrightarrow> book h nz l l'"
  "exec h sw e (RequestWithdrawal k args4) l = Inr l' \<Longrightarrow> book h nz l l'"
  "exec h sw e (FinalizeWithdrawal k accs args5) l = Inr l' \<Longrightarrow> book h nz l l'"
  "exec h sw e (ForceRelease k args6) l = Inr l' \<Longrightarrow> book h nz l l'"
  using fresh_books_initialize
  by (auto simp: result_simps intro: same_books_admin unchanged vault_born vault_kept)

lemma book_set_swig_atomic:
  "exec h sw e (SetSwigAtomic k accs args) l = Inr l' \<Longrightarrow> book h nz l l'"
  by (auto simp: result_simps set_swig_atomic_eq_Inr same_books_def intro!: vault_kept)

text \<open>Sessions.\<close>

lemma book_settle_voucher:
  assumes "exec h sw e (SettleVoucher k sk a args) l = Inr l'"
  shows "book h nz l l'"
proof (cases sk)
  case None
  with assms show ?thesis
    by (auto simp: result_simps split: prod.splits intro!: vault_kept dest!: settle_voucher_none_book)
next
  case (Some s)
  with assms obtain v sa v' sa' where at: "vaults l k = Some v" "sessions l s = Some sa"
    and run: "settle_voucher h e v k (Some (s, sa)) a args = Inr (v', sa')"
    and l': "l' = put_session (put_vault l k v') s (case sa' of None \<Rightarrow> sa | Some x \<Rightarrow> x)"
    by (auto simp: result_simps)
  from settle_voucher_book [OF run] obtain r where "same_books v v'"
    "sa' = Some (sa\<lparr>sa_session := r\<rparr>)" "same_terms (sa_session sa) r"
    "session_sound (sa_session sa) \<longrightarrow> session_sound r" "sa_version sa = 0 \<longrightarrow> r = sa_session sa"
    by blast
  with session_used [OF at] show ?thesis by (simp add: l')
qed

lemma book_register:
  assumes "exec h sw e (RegisterSessionKey accs args) l = Inr l'"
    and "nz \<longrightarrow> ra_allowed_counterparty args \<noteq> 0"
  shows "book h nz l l'"
  using assms
  by (auto simp: result_simps register_session_key_eq_Inr register_session_key_handler_eq_Inr
      Let_def existing_session_def put_vault_def intro!: registered)

lemma book_sessions:
  "exec h sw e (RevokeSessionKey k sk args1) l = Inr l' \<Longrightarrow> book h nz l l'"
  "exec h sw e (CloseSession k sk a c) l = Inr l' \<Longrightarrow> book h nz l l'"
  "exec h sw e (SettleTabVoucher accs2 args2) l = Inr l' \<Longrightarrow> book h nz l l'"
  "exec h sw e (LockVoucher accs3 args3) l = Inr l' \<Longrightarrow> book h nz l l'"
  by (auto simp: result_simps revoke_session_key_eq_Inr close_session_eq_Inr
      dest!: settle_tab_book lock_book intro!: revoked session_closed session_used locked)

text \<open>Claims.\<close>

lemma book_settle_locked:
  assumes "exec h sw e (SettleLockedVoucher accs) l = Inr l'"
  shows "book h nz l l'"
proof -
  from assms obtain c v c' v' where "claims l (sl_claim accs) = Some c"
    "vaults l (sl_vault accs) = Some v" "settle_locked_voucher h e v c accs = Inr (v', c')"
    "l' = put_claim (put_vault l (sl_vault accs) v') (sl_claim accs) c'"
    by (auto simp: result_simps)
  then show ?thesis
    using claim_instructions_step(1) [of h e v c accs v' c']
    by (auto simp: settle_locked_voucher_eq_Inr settled_claim_def intro!: claim_ended)
qed

lemma book_recover:
  assumes "exec h sw e (RecoverAbandonedLock k ck args) l = Inr l'"
  shows "book h nz l l'"
proof -
  from assms obtain c v c' v' where "claims l ck = Some c"
    "vaults l k = Some v" "recover_abandoned_lock h e v k c ck args = Inr (v', c')"
    "l' = put_claim (put_vault l k v') ck c'"
    by (auto simp: result_simps)
  then show ?thesis
    using claim_instructions_step(2) [of h e v k c ck args v' c']
    by (auto simp: recover_abandoned_lock_eq_Inr abandoned_claim_def
        intro!: claim_ended [where ts = "total_settled_amount v"])
qed

lemma book_transfer:
  assumes "exec h sw e (TransferLockOwnership ck k n) l = Inr l'"
  shows "book h nz l l'"
proof -
  from assms obtain c c' where "claims l ck = Some c"
    "transfer_lock_ownership e c k n = Inr c'" "l' = put_claim l ck c'"
    by (auto simp: result_simps)
  then show ?thesis
    using claim_instructions_step(3) [of e c k n c']
    by (auto simp: transfer_lock_ownership_eq_Inr intro!: claim_moved)
qed

text \<open>Credit.\<close>

lemma book_reserve:
  "exec h sw e (SetStandbyReserve accs r) l = Inr l' \<Longrightarrow> book h nz l l'"
  by (auto simp: result_simps set_standby_reserve_eq_Inr existing_backer_def
      intro!: reserved [where r = r])

lemma book_open_standby:
  "exec h sw e (OpenStandby k f bk args) l = Inr l' \<Longrightarrow> book h nz l l'"
  by (auto simp: result_simps open_standby_eq_Inr intro!: standby_opened)

lemma book_close_standby:
  "exec h sw e (CloseStandby accs args) l = Inr l' \<Longrightarrow> book h nz l l'"
  by (auto simp: result_simps close_standby_eq_Inr intro!: standby_closed)

lemma book_draw:
  assumes "exec h sw e (DrawCredit k accs args) l = Inr l'"
  shows "book h nz l l'"
proof (rule book_loan)
  show "on_vault l k (\<lambda>v. draw_credit h e v accs args) = Inr l'" using assms by simp
next
  fix v v' assume "draw_credit h e v accs args = Inr v'"
  then show "\<exists>b d. v' = v\<lparr>borrowed := b, borrow_recovery_at := d\<rparr>"
    by (auto simp: draw_credit_eq_Inr draw_credit_handler_eq_Inr)
qed (rule credit_ok_draw)

lemma book_repay:
  assumes "exec h sw e (RepayCredit k accs amount) l = Inr l'"
  shows "book h nz l l'"
proof (rule book_loan)
  show "on_vault l k (\<lambda>v. repay_credit h e v accs amount) = Inr l'" using assms by simp
next
  fix v v' assume "repay_credit h e v accs amount = Inr v'"
  then show "\<exists>b d. v' = v\<lparr>borrowed := b, borrow_recovery_at := d\<rparr>"
    unfolding repay_credit_eq_Inr repaid_def by blast
qed (rule credit_ok_repay)

lemma book_seize:
  assumes "exec h sw e (SeizeCollateral k accs) l = Inr l'"
  shows "book h nz l l'"
proof (rule book_loan)
  show "on_vault l k (\<lambda>v. seize_collateral h e v accs) = Inr l'" using assms by simp
next
  fix v v' assume "seize_collateral h e v accs = Inr v'"
  then show "\<exists>b d. v' = v\<lparr>borrowed := b, borrow_recovery_at := d\<rparr>"
    by (auto simp: seize_collateral_eq_Inr)
qed (rule credit_ok_seize)

lemmas book_steps = book_admin book_set_swig_atomic book_settle_voucher book_register book_sessions
  book_settle_locked book_recover book_transfer book_reserve book_open_standby
  book_close_standby book_draw book_repay book_seize

lemma exec_books:
  assumes "exec h sw e ix l = Inr l'" and "nz \<longrightarrow> nonzero_counterparty ix"
  shows "book h nz l l'"
  using assms
  by (cases ix) (auto simp: nonzero_counterparty_def intro: book_steps simp del: exec.simps)

end
