(* ===== verification/Ledger_Invariants.thy ===== *)
theory Ledger_Invariants
  imports Books
begin

text \<open>
  What holds of every reachable ledger: the accumulators on a vault are exactly the totals over the
  accounts they summarise (open claims, registered sessions, promised caps), and every account is
  well formed. Each invariant is proved over the bookkeeping machine and interpreted as a
  \<open>ledger_invariant\<close> of the program.
\<close>

section \<open>Claims: the locked amount\<close>

definition pending_weight :: "pubkey \<Rightarrow> pubkey \<Rightarrow> locked_claim \<Rightarrow> nat" where
  "pending_weight k ck c =
     (if lc_vault c = k \<and> lc_status c = Pending then unat (lc_amount c) else 0)"

definition pending_total :: "ledger \<Rightarrow> pubkey \<Rightarrow> nat" where
  "pending_total l k = map_total (pending_weight k) (claims l)"

definition claims_inv :: "ledger \<Rightarrow> bool" where
  "claims_inv l \<longleftrightarrow>
     finite (dom (claims l)) \<and>
     (\<forall>ck c. claims l ck = Some c \<longrightarrow> claim_wf c \<and> vaults l (lc_vault c) \<noteq> None) \<and>
     (\<forall>k v. vaults l k = Some v \<longrightarrow> unat (outstanding_locked_amount v) = pending_total l k)"

lemma claims_invI:
  assumes "finite (dom (claims l))"
    and "\<And>ck c. claims l ck = Some c \<Longrightarrow> claim_wf c \<and> vaults l (lc_vault c) \<noteq> None"
    and "\<And>k v. vaults l k = Some v \<Longrightarrow> unat (outstanding_locked_amount v) = pending_total l k"
  shows "claims_inv l"
  using assms by (simp add: claims_inv_def)

lemma claims_invD:
  assumes "claims_inv l"
  shows "finite (dom (claims l))"
    and "claims l ck = Some c \<Longrightarrow> claim_wf c"
    and "claims l ck = Some c \<Longrightarrow> \<exists>v. vaults l (lc_vault c) = Some v"
    and "vaults l k = Some v \<Longrightarrow> unat (outstanding_locked_amount v) = pending_total l k"
  using assms by (auto simp: claims_inv_def)

text \<open>Steps that leave the claims alone.\<close>

lemma claims_inv_frame:
  assumes inv: "claims_inv l" and cl: "claims l' = claims l"
    and vs: "\<And>j w. vaults l' j = Some w \<Longrightarrow>
      (\<exists>w0. vaults l j = Some w0 \<and> outstanding_locked_amount w = outstanding_locked_amount w0) \<or>
      vaults l j = None \<and> outstanding_locked_amount w = 0"
    and grow: "\<And>j. vaults l j \<noteq> None \<Longrightarrow> vaults l' j \<noteq> None"
  shows "claims_inv l'"
proof (rule claims_invI)
  show "finite (dom (claims l'))" using claims_invD(1) [OF inv] cl by simp
next
  fix ck c assume "claims l' ck = Some c"
  then have at: "claims l ck = Some c" using cl by simp
  show "claim_wf c \<and> vaults l' (lc_vault c) \<noteq> None"
    using claims_invD(2,3) [OF inv at] grow by blast
next
  fix k w assume "vaults l' k = Some w"
  from vs [OF this] show "unat (outstanding_locked_amount w) = pending_total l' k"
  proof
    assume "\<exists>w0. vaults l k = Some w0 \<and> outstanding_locked_amount w = outstanding_locked_amount w0"
    then show ?thesis using claims_invD(4) [OF inv] cl by (auto simp: pending_total_def)
  next
    assume new: "vaults l k = None \<and> outstanding_locked_amount w = 0"
    then have "pending_weight k ck c = 0" if "claims l ck = Some c" for ck c
      using claims_invD(3) [OF inv that] by (auto simp: pending_weight_def)
    then have "pending_total l k = 0" unfolding pending_total_def by (rule map_total_eq_0)
    then show ?thesis using new cl by (simp add: pending_total_def)
  qed
qed

text \<open>A write to one claim of vault \<open>k\<close> together with a write to that vault.\<close>

lemma claims_inv_write:
  assumes inv: "claims_inv l" and v: "vaults l k = Some v"
    and c: "claim_wf c" "lc_vault c = k"
    and old: "\<And>c0. claims l ck = Some c0 \<Longrightarrow> lc_vault c0 = k"
    and bal: "unat (outstanding_locked_amount v') + weight_at (pending_weight k) (claims l) ck =
      unat (outstanding_locked_amount v) + pending_weight k ck c"
    and vs: "vaults l' = (vaults l)(k \<mapsto> v')" and cs: "claims l' = (claims l)(ck \<mapsto> c)"
  shows "claims_inv l'"
proof (rule claims_invI)
  note fin = claims_invD(1) [OF inv]
  show "finite (dom (claims l'))" using fin cs by simp
  fix j d assume "claims l' j = Some d"
  then show "claim_wf d \<and> vaults l' (lc_vault d) \<noteq> None"
    using claims_invD(2,3) [OF inv] c v by (auto simp: vs cs split: if_splits)
next
  note fin = claims_invD(1) [OF inv]
  fix j w assume at: "vaults l' j = Some w"
  show "unat (outstanding_locked_amount w) = pending_total l' j"
  proof (cases "j = k")
    case True
    then have "w = v'" using at vs by simp
    moreover have "pending_total l' k + weight_at (pending_weight k) (claims l) ck =
        pending_total l k + pending_weight k ck c"
      unfolding pending_total_def cs by (rule map_total_update [OF fin])
    ultimately show ?thesis using True bal claims_invD(4) [OF inv v] by simp
  next
    case False
    then have "vaults l j = Some w" using at vs by simp
    moreover have "pending_weight j ck c = weight_at (pending_weight j) (claims l) ck"
      using False c(2) old by (auto simp: pending_weight_def weight_at_def split: option.splits)
    then have "pending_total l' j = pending_total l j"
      unfolding pending_total_def cs by (rule map_total_same [OF fin])
    ultimately show ?thesis using claims_invD(4) [OF inv] by simp
  qed
qed

lemma claims_inv_lock:
  assumes "claims_inv l" and "vaults l k = Some v" and "claims l ck = None"
    and "claim_wf c" and "lc_vault c = k" and "lc_status c = Pending"
    and "unat (outstanding_locked_amount v') = unat (outstanding_locked_amount v) + unat (lc_amount c)"
  shows "claims_inv (put_claim (put_session (put_vault l k v') sk a) ck c)"
  by (rule claims_inv_write [of l k v c ck v'])
    (use assms in \<open>auto simp: pending_weight_def weight_at_def put_defs\<close>)

lemma claims_inv_end:
  assumes inv: "claims_inv l" and v: "vaults l k = Some v" and c: "claims l ck = Some c"
    and k: "lc_vault c = k" and st: "claim_step c c'" and fin: "lc_status c' \<noteq> Pending"
    and v': "v' = v\<lparr>outstanding_locked_amount := saturating_sub (outstanding_locked_amount v)
      (lc_amount c), total_settled_amount := ts\<rparr>"
  shows "claims_inv (put_claim (put_vault l k v') ck c')"
proof -
  have pend: "lc_status c = Pending" using claim_step_shape [OF st] by simp
  have wf: "claim_wf c'" "lc_vault c' = k"
    using claim_step_wf [OF st claims_invD(2) [OF inv c]] k by (auto simp: same_claim_def)
  have "pending_weight k ck c \<le> pending_total l k"
    unfolding pending_total_def using claims_invD(1) [OF inv] c by (rule map_total_ge)
  then have "unat (lc_amount c) \<le> unat (outstanding_locked_amount v)"
    using pend k claims_invD(4) [OF inv v] by (simp add: pending_weight_def)
  then show ?thesis
    by - (rule claims_inv_write [of l k v c' ck v'],
      use inv v wf c k pend fin v' in \<open>auto simp: pending_weight_def weight_at_def put_defs\<close>)
qed

lemma claims_inv_move:
  assumes inv: "claims_inv l" and c: "claims l ck = Some c" and st: "claim_step c c'"
    and pend: "lc_status c' = Pending"
  shows "claims_inv (put_claim l ck c')"
proof -
  have wf: "claim_wf c'" "same_claim c c'"
    using claim_step_wf [OF st claims_invD(2) [OF inv c]] by auto
  obtain v where v: "vaults l (lc_vault c) = Some v" using claims_invD(3) [OF inv c] by blast
  have "lc_status c = Pending" using claim_step_shape [OF st] by simp
  then show ?thesis
    by - (rule claims_inv_write [of l "lc_vault c" v c' ck v],
      use inv v wf c pend in
        \<open>auto simp: pending_weight_def weight_at_def put_defs same_claim_def\<close>)
qed

lemma claims_inv_book:
  assumes "book h nz l l'" and "claims_inv l"
  shows "claims_inv l'"
  using assms
proof (induction rule: book.induct)
  case (locked l k v sk a ck cum proposed c v' tc a' sq)
  then show ?case by - (rule claims_inv_lock, auto)
next
  case (claim_ended l k v ck c c' v' ts)
  then show ?case by - (rule claims_inv_end, auto)
next
  case (claim_moved l ck c c')
  then show ?case by - (rule claims_inv_move, auto)
qed (rule claims_inv_frame; auto simp: put_defs same_books_def fresh_books_def split: if_splits)+

interpretation claims_books: ledger_invariant h "\<lambda>_. True" claims_inv for h
proof
  show "claims_inv empty_ledger" by (simp add: claims_inv_def empty_ledger_def)
next
  fix l sw e ix l' assume "claims_inv l" "exec h sw e ix l = Inr l'"
  then show "claims_inv l'" using claims_inv_book [OF exec_books [where nz = False]] by blast
qed

section \<open>Loans\<close>

definition credit_inv :: "ledger \<Rightarrow> bool" where
  "credit_inv l \<longleftrightarrow> (\<forall>k v. vaults l k = Some v \<longrightarrow> credit_ok v)"

lemma credit_invD: "credit_inv l \<Longrightarrow> vaults l k = Some v \<Longrightarrow> credit_ok v"
  by (simp add: credit_inv_def)

lemma credit_ok_same_books: "same_books v v' \<Longrightarrow> credit_ok v \<Longrightarrow> credit_ok v'"
  by (simp add: same_books_def credit_ok_def)

lemma credit_ok_other [simp]:
  "credit_ok (v\<lparr>live_session_count := c\<rparr>) = credit_ok v"
  "credit_ok (v\<lparr>outstanding_locked_amount := x, total_crystallized_amount := tc\<rparr>) = credit_ok v"
  "credit_ok (v\<lparr>outstanding_locked_amount := x, total_settled_amount := ts\<rparr>) = credit_ok v"
  by (simp_all add: credit_ok_def)

lemma credit_inv_write:
  assumes "credit_inv l" and "vaults l' = (vaults l)(k \<mapsto> v)" and "credit_ok v"
  shows "credit_inv l'"
  using assms by (simp add: credit_inv_def)

lemma credit_inv_book:
  assumes "book h nz l l'" and "credit_inv l"
  shows "credit_inv l'"
  using assms
proof (induction rule: book.induct)
  case (vault_born l k v)
  then show ?case
    by - (rule credit_inv_write [of l _ k v], auto simp: put_defs fresh_books_def credit_ok_def)
next
  case (vault_kept l k v v')
  then show ?case
    using credit_ok_same_books credit_invD
    by - (rule credit_inv_write [of l _ k v'], auto simp: put_defs)
next
  case (loan l k v v' b d)
  then show ?case
    using credit_invD by - (rule credit_inv_write [of l _ k v'], auto simp: put_defs)
next
  case (session_used l k v sk a v' s)
  then show ?case
    using credit_ok_same_books credit_invD
    by - (rule credit_inv_write [of l _ k v'], auto simp: put_defs)
next
  case (standby_opened l k v bk sb cap sb' v')
  then show ?case
    using credit_invD [of l k v]
    by - (rule credit_inv_write [of l _ k v'], auto simp: put_defs credit_ok_def)
next
  case (standby_closed l k v bk sb v' sb')
  then show ?case
    by - (rule credit_inv_write [of l _ k v'], auto simp: put_defs credit_ok_def)
qed (auto simp: credit_inv_def put_defs)

interpretation credit_books: ledger_invariant h "\<lambda>_. True" credit_inv for h
proof
  show "credit_inv empty_ledger" by (simp add: credit_inv_def empty_ledger_def)
next
  fix l sw e ix l' assume "credit_inv l" "exec h sw e ix l = Inr l'"
  then show "credit_inv l'" using credit_inv_book [OF exec_books [where nz = False]] by blast
qed

section \<open>Meters of a session\<close>

definition meters_inv :: "ledger \<Rightarrow> bool" where
  "meters_inv l \<longleftrightarrow> (\<forall>k a. sessions l k = Some a \<longrightarrow> session_sound (sa_session a))"

lemma meters_invD: "meters_inv l \<Longrightarrow> sessions l k = Some a \<Longrightarrow> session_sound (sa_session a)"
  by (simp add: meters_inv_def)

lemma session_sound_zero [simp]: "session_sound zero_registration"
  by (simp add: session_sound_def zero_registration_def frontier_def)

lemma session_sound_registration [simp]: "session_sound (registration_of args)"
  by (simp add: session_sound_def registration_of_def frontier_def)

lemma sa_session_registered [simp]: "sa_session (registered_session a b k args) = registration_of args"
  by (simp add: registered_session_def)

lemma sa_session_cleared [simp]: "sa_session (clear_session a) = zero_registration"
  by (simp add: clear_session_def)

lemma meters_inv_book:
  assumes "book h nz l l'" and "meters_inv l"
  shows "meters_inv l'"
  using assms
proof (induction rule: book.induct)
  case (registered l k v args sk b n bal sibs c l')
  have "session_sound (sa_session a)"
    if "upd_all (sessions l) (map sib_clear (filter (Not \<circ> sib_live n) (siblings_of l sibs))) j
      = Some a" for j a
    using upd_all_cases [OF that] meters_invD [OF registered.prems] by (auto simp: sib_clear_def)
  then show ?case using registered by (auto simp: meters_inv_def put_defs)
next
  case (session_used l k v sk a v' s)
  then show ?case using meters_invD [of l sk a] by (auto simp: meters_inv_def put_defs)
next
  case (locked l k v sk a ck cum proposed c v' tc a' sq)
  then have "session_sound (sa_session a')"
    using session_sound_graduated meters_invD [of l sk a] by auto
  then show ?case using locked.prems by (auto simp: meters_inv_def put_defs)
qed (auto simp: meters_inv_def put_defs split: if_splits)

interpretation meters_books: ledger_invariant h "\<lambda>_. True" meters_inv for h
proof
  show "meters_inv empty_ledger" by (simp add: meters_inv_def empty_ledger_def)
next
  fix l sw e ix l' assume "meters_inv l" "exec h sw e ix l = Inr l'"
  then show "meters_inv l'" using meters_inv_book [OF exec_books [where nz = False]] by blast
qed

section \<open>Reserves: the promised caps\<close>

definition promise_weight :: "pubkey \<Rightarrow> pubkey \<Rightarrow> vault \<Rightarrow> nat" where
  "promise_weight f k v = (if standby_backer v = Some f then unat (standby_cap v) else 0)"

definition promised_total :: "ledger \<Rightarrow> pubkey \<Rightarrow> nat" where
  "promised_total l f = map_total (promise_weight f) (vaults l)"

definition backer_placed :: "host \<Rightarrow> pubkey \<Rightarrow> standby_backer_ledger \<Rightarrow> bool" where
  "backer_placed h bk sb \<longleftrightarrow>
     sb_version sb \<noteq> 0 \<and>
     find_program_address h (standby_seeds (sb_financier_swig sb)) PROGRAM_ID = Some (bk, sb_bump sb)"

definition reserve_inv :: "host \<Rightarrow> ledger \<Rightarrow> bool" where
  "reserve_inv h l \<longleftrightarrow>
     finite (dom (vaults l)) \<and>
     (\<forall>bk sb. backers l bk = Some sb \<longrightarrow> backer_placed h bk sb \<and>
        unat (sb_aggregate_promised sb) = promised_total l (sb_financier_swig sb) \<and>
        sb_aggregate_promised sb \<le> sb_committed_reserve sb) \<and>
     (\<forall>k v f. vaults l k = Some v \<longrightarrow> standby_backer v = Some f \<longrightarrow>
        (\<exists>bk sb. backers l bk = Some sb \<and> sb_financier_swig sb = f)) \<and>
     (\<forall>k v. vaults l k = Some v \<longrightarrow> standby_backer v = None \<longrightarrow> standby_cap v = 0)"

lemma reserve_invI:
  assumes "finite (dom (vaults l))"
    and "\<And>bk sb. backers l bk = Some sb \<Longrightarrow> backer_placed h bk sb"
    and "\<And>bk sb. backers l bk = Some sb \<Longrightarrow>
      unat (sb_aggregate_promised sb) = promised_total l (sb_financier_swig sb)"
    and "\<And>bk sb. backers l bk = Some sb \<Longrightarrow> sb_aggregate_promised sb \<le> sb_committed_reserve sb"
    and "\<And>k v f. vaults l k = Some v \<Longrightarrow> standby_backer v = Some f \<Longrightarrow>
      \<exists>bk sb. backers l bk = Some sb \<and> sb_financier_swig sb = f"
    and "\<And>k v. vaults l k = Some v \<Longrightarrow> standby_backer v = None \<Longrightarrow> standby_cap v = 0"
  shows "reserve_inv h l"
  using assms by (simp add: reserve_inv_def)

lemma reserve_invD:
  assumes "reserve_inv h l"
  shows "finite (dom (vaults l))"
    and "backers l bk = Some sb \<Longrightarrow> backer_placed h bk sb"
    and "backers l bk = Some sb \<Longrightarrow>
      unat (sb_aggregate_promised sb) = promised_total l (sb_financier_swig sb)"
    and "backers l bk = Some sb \<Longrightarrow> sb_aggregate_promised sb \<le> sb_committed_reserve sb"
    and "vaults l k = Some v \<Longrightarrow> standby_backer v = Some f \<Longrightarrow>
      \<exists>bk sb. backers l bk = Some sb \<and> sb_financier_swig sb = f"
    and "vaults l k = Some v \<Longrightarrow> standby_backer v = None \<Longrightarrow> standby_cap v = 0"
  using assms unfolding reserve_inv_def by blast+

text \<open>One ledger per financier.\<close>

lemma backer_unique:
  assumes "backer_placed h bk sb" and "backer_placed h bk' sb'"
    and "sb_financier_swig sb = sb_financier_swig sb'"
  shows "bk = bk'"
  using assms by (simp add: backer_placed_def)

lemma reserve_inv_vault:
  assumes inv: "reserve_inv h l" and bs: "backers l' = backers l"
    and vs: "vaults l' = (vaults l)(k \<mapsto> v')"
    and same: "\<And>v. vaults l k = Some v \<Longrightarrow>
      standby_backer v' = standby_backer v \<and> standby_cap v' = standby_cap v"
    and new: "vaults l k = None \<Longrightarrow> standby_backer v' = None \<and> standby_cap v' = 0"
  shows "reserve_inv h l'"
proof -
  have "promise_weight f k v' = weight_at (promise_weight f) (vaults l) k" for f
    using same new by (auto simp: promise_weight_def weight_at_def split: option.splits)
  then have tot: "promised_total l' f = promised_total l f" for f
    unfolding promised_total_def vs by (rule map_total_same [OF reserve_invD(1) [OF inv]])
  show ?thesis
  proof (rule reserve_invI)
    show "finite (dom (vaults l'))" using reserve_invD(1) [OF inv] vs by simp
    show "\<exists>bk sb. backers l' bk = Some sb \<and> sb_financier_swig sb = f"
      if "vaults l' j = Some w" "standby_backer w = Some f" for j w f
      using that reserve_invD(5) [OF inv] same new bs
      by (cases "vaults l k") (auto simp: vs split: if_splits)
    show "standby_cap w = 0" if "vaults l' j = Some w" "standby_backer w = None" for j w
      using that reserve_invD(6) [OF inv] same new
      by (cases "vaults l k") (auto simp: vs split: if_splits)
  qed (use reserve_invD(2-4) [OF inv] bs tot in auto)
qed

lemma reserve_inv_frame:
  assumes "reserve_inv h l" and "backers l' = backers l" and "vaults l' = vaults l"
  shows "reserve_inv h l'"
  using assms by (simp add: reserve_inv_def promised_total_def)

text \<open>A ledger write keeps every financier's ledger findable.\<close>

lemma still_backed:
  assumes "\<exists>j x. backers l j = Some x \<and> sb_financier_swig x = g"
    and "\<And>x. backers l bk = Some x \<Longrightarrow> sb_financier_swig sb' = sb_financier_swig x"
  shows "\<exists>j x. ((backers l)(bk \<mapsto> sb')) j = Some x \<and> sb_financier_swig x = g"
proof -
  from assms(1) obtain j x where j: "backers l j = Some x" "sb_financier_swig x = g" by blast
  show ?thesis
  proof (cases "j = bk")
    case True
    with j assms(2) show ?thesis by (intro exI [of _ bk] exI [of _ sb']) simp
  next
    case False
    with j show ?thesis by (intro exI [of _ j] exI [of _ x]) simp
  qed
qed

lemma reserve_inv_put:
  assumes inv: "reserve_inv h l" and placed: "backer_placed h bk sb'"
    and agg: "unat (sb_aggregate_promised sb') = promised_total l (sb_financier_swig sb')"
    and lim: "sb_aggregate_promised sb' \<le> sb_committed_reserve sb'"
    and same: "\<And>x. backers l bk = Some x \<Longrightarrow> sb_financier_swig sb' = sb_financier_swig x"
  shows "reserve_inv h (put_backer l bk sb')"
proof (rule reserve_invI)
  show "\<exists>j x. backers (put_backer l bk sb') j = Some x \<and> sb_financier_swig x = g"
    if "vaults (put_backer l bk sb') k = Some v" "standby_backer v = Some g" for k v g
    using still_backed [OF reserve_invD(5) [OF inv, of k v g] same] that by (simp add: put_defs)
qed (use reserve_invD(1-4,6) [OF inv] placed agg lim in
    \<open>auto simp: put_defs promised_total_def split: if_splits\<close>)

lemma no_ledger_no_promise:
  assumes inv: "reserve_inv h l" and none: "backers l bk = None"
    and at: "find_program_address h (standby_seeds f) PROGRAM_ID = Some (bk, b)"
  shows "promised_total l f = 0"
proof -
  have "standby_backer v \<noteq> Some f" if v: "vaults l k = Some v" for k v
  proof
    assume "standby_backer v = Some f"
    then obtain bk' sb where sb: "backers l bk' = Some sb" "sb_financier_swig sb = f"
      using reserve_invD(5) [OF inv v] by blast
    then have "bk' = bk" using reserve_invD(2) [OF inv] at by (auto simp: backer_placed_def)
    with sb none show False by simp
  qed
  then show ?thesis
    unfolding promised_total_def by (intro map_total_eq_0) (simp add: promise_weight_def)
qed

lemma reserve_inv_set:
  assumes inv: "reserve_inv h l"
    and at: "find_program_address h (standby_seeds f) PROGRAM_ID = Some (bk, b)"
    and guard: "sb_version (existing_backer l bk) = 0 \<or>
      sb_aggregate_promised (existing_backer l bk) \<le> r"
  shows "reserve_inv h (put_backer l bk (reserved_ledger (existing_backer l bk) b f r))"
proof (cases "backers l bk")
  case None
  then show ?thesis
    using no_ledger_no_promise [OF inv None at] at
    by (intro reserve_inv_put [OF inv])
      (auto simp: existing_backer_def reserved_ledger_def fresh_standby_backer_def
        backer_placed_def)
next
  case (Some sb)
  then have placed: "backer_placed h bk sb" using reserve_invD(2) [OF inv] by simp
  then have upd: "reserved_ledger (existing_backer l bk) b f r = sb\<lparr>sb_committed_reserve := r\<rparr>"
    and "sb_aggregate_promised sb \<le> r"
    using Some guard by (auto simp: existing_backer_def reserved_ledger_def backer_placed_def)
  then show ?thesis
    unfolding upd using placed Some reserve_invD(3) [OF inv Some]
    by (intro reserve_inv_put [OF inv]) (auto simp: backer_placed_def)
qed

text \<open>A vault takes up, changes or drops a promise, and its financier's ledger follows.\<close>

lemma reserve_inv_promise:
  assumes inv: "reserve_inv h l" and v: "vaults l k = Some v" and sb: "backers l bk = Some sb"
    and old: "standby_backer v = None \<or> standby_backer v = Some (sb_financier_swig sb)"
    and new: "standby_backer v' = Some (sb_financier_swig sb) \<or>
      standby_backer v' = None \<and> standby_cap v' = 0"
    and sb': "sb' = sb\<lparr>sb_aggregate_promised := agg\<rparr>"
    and bal: "unat agg + unat (current_cap v) = unat (sb_aggregate_promised sb) + unat (current_cap v')"
    and lim: "agg \<le> sb_committed_reserve sb"
  shows "reserve_inv h (put_backer (put_vault l k v') bk sb')"
proof -
  let ?f = "sb_financier_swig sb"
  let ?l = "put_backer (put_vault l k v') bk sb'"
  note fin = reserve_invD(1) [OF inv]
  have cap: "promise_weight ?f k v' = unat (current_cap v')"
    "weight_at (promise_weight ?f) (vaults l) k = unat (current_cap v)"
    using old new v by (auto simp: promise_weight_def weight_at_def current_cap_def)
  have "promised_total ?l ?f + unat (current_cap v) = promised_total l ?f + unat (current_cap v')"
    using map_total_update [OF fin, of "promise_weight ?f" k v'] cap
    by (simp add: promised_total_def put_defs)
  then have mine: "unat agg = promised_total ?l ?f"
    using bal reserve_invD(3) [OF inv sb] by linarith
  have others: "promised_total ?l g = promised_total l g" if "g \<noteq> ?f" for g
  proof -
    have "promise_weight g k v' = weight_at (promise_weight g) (vaults l) k"
      using that old new v by (auto simp: promise_weight_def weight_at_def)
    then show ?thesis
      using map_total_same [OF fin] by (simp add: promised_total_def put_defs)
  qed
  have only: "sb_financier_swig x \<noteq> ?f" if "backers l j = Some x" "j \<noteq> bk" for j x
    using backer_unique reserve_invD(2) [OF inv] sb that by blast
  show ?thesis
  proof (rule reserve_invI)
    show "\<exists>j x. backers ?l j = Some x \<and> sb_financier_swig x = g"
      if w: "vaults ?l i = Some w" "standby_backer w = Some g" for i w g
    proof -
      have "\<exists>j x. backers l j = Some x \<and> sb_financier_swig x = g"
        using w new sb reserve_invD(5) [OF inv, of i w g] by (auto simp: put_defs split: if_splits)
      from still_backed [OF this, of bk sb'] show ?thesis using sb sb' by (simp add: put_defs)
    qed
    show "backer_placed h j x" if "backers ?l j = Some x" for j x
      using that reserve_invD(2) [OF inv] sb sb' by (auto simp: put_defs backer_placed_def split: if_splits)
    show "unat (sb_aggregate_promised x) = promised_total ?l (sb_financier_swig x)"
      if "backers ?l j = Some x" for j x
      using that mine others only reserve_invD(3) [OF inv] sb'
      by (cases "j = bk") (auto simp: put_defs)
    show "sb_aggregate_promised x \<le> sb_committed_reserve x" if "backers ?l j = Some x" for j x
      using that lim reserve_invD(4) [OF inv] sb' by (auto simp: put_defs split: if_splits)
  qed (use fin reserve_invD(6) [OF inv] new in \<open>auto simp: put_defs split: if_splits\<close>)
qed

lemma cap_within_promises:
  assumes inv: "reserve_inv h l" and v: "vaults l k = Some v" and sb: "backers l bk = Some sb"
    and old: "standby_backer v = None \<or> standby_backer v = Some (sb_financier_swig sb)"
  shows "unat (current_cap v) \<le> unat (sb_aggregate_promised sb)"
proof -
  have "promise_weight (sb_financier_swig sb) k v \<le> promised_total l (sb_financier_swig sb)"
    unfolding promised_total_def using reserve_invD(1) [OF inv] v by (rule map_total_ge)
  then show ?thesis
    using old reserve_invD(3) [OF inv sb] by (auto simp: promise_weight_def current_cap_def)
qed

lemma reserve_inv_open:
  assumes inv: "reserve_inv h l" and v: "vaults l k = Some v" and sb: "backers l bk = Some sb"
    and old: "standby_backer v = None \<or> standby_backer v = Some (sb_financier_swig sb)"
    and rep: "promise_replaced sb (current_cap v) cap sb'"
  shows "reserve_inv h (put_backer (put_vault l k
    (v\<lparr>standby_backer := Some (sb_financier_swig sb), standby_cap := cap\<rparr>)) bk sb')"
proof -
  note exact = promise_replaced_exact [OF rep cap_within_promises [OF inv v sb old]]
  have shape: "sb' = sb\<lparr>sb_aggregate_promised := sb_aggregate_promised sb'\<rparr>"
    using rep by (auto simp: promise_replaced_def)
  show ?thesis
    by (rule reserve_inv_promise [OF inv v sb old _ shape])
      (use exact reserve_invD(4) [OF inv sb] in \<open>auto simp: current_cap_def\<close>)
qed

lemma reserve_inv_close:
  assumes inv: "reserve_inv h l" and v: "vaults l k = Some v" and sb: "backers l bk = Some sb"
    and old: "standby_backer v = Some (sb_financier_swig sb)"
  shows "reserve_inv h (put_backer (put_vault l k (v\<lparr>standby_backer := None, standby_cap := 0\<rparr>)) bk
    (sb\<lparr>sb_aggregate_promised := saturating_sub (sb_aggregate_promised sb) (standby_cap v)\<rparr>))"
proof -
  have "unat (standby_cap v) \<le> unat (sb_aggregate_promised sb)"
    using cap_within_promises [OF inv v sb] old by (simp add: current_cap_def)
  then show ?thesis
    by - (rule reserve_inv_promise [OF inv v sb disjI2 [OF old] _ refl],
      use old order.trans [OF saturating_sub_le reserve_invD(4) [OF inv sb]] in
        \<open>auto simp: current_cap_def\<close>)
qed

lemma reserve_inv_book:
  assumes "book h nz l l'" and "reserve_inv h l"
  shows "reserve_inv h l'"
  using assms
proof (induction rule: book.induct)
  case (vault_born l k v)
  then show ?case by - (rule reserve_inv_vault [of h l _ k v], auto simp: put_defs fresh_books_def)
next
  case (vault_kept l k v v')
  then show ?case by - (rule reserve_inv_vault [of h l _ k v'], auto simp: put_defs same_books_def)
next
  case (loan l k v v' b d)
  then show ?case by - (rule reserve_inv_vault [of h l _ k v'], auto simp: put_defs)
next
  case (session_used l k v sk a v' s)
  then show ?case by - (rule reserve_inv_vault [of h l _ k v'], auto simp: put_defs same_books_def)
next
  case (registered l k v args sk b n bal sibs c l')
  then show ?case
    by - (rule reserve_inv_vault [of h l _ k "v\<lparr>live_session_count := c\<rparr>"], auto simp: put_defs)
next
  case (revoked l k v sk a cp)
  then show ?case
    by - (rule reserve_inv_vault [of h l _ k "v\<lparr>live_session_count := live_session_count v - 1\<rparr>"],
      auto simp: put_defs)
next
  case (locked l k v sk a ck cum proposed c v' tc a' sq)
  then show ?case by - (rule reserve_inv_vault [of h l _ k v'], auto simp: put_defs)
next
  case (claim_ended l k v ck c c' v' ts)
  then show ?case by - (rule reserve_inv_vault [of h l _ k v'], auto simp: put_defs)
next
  case (reserved f bk b l r sb')
  then show ?case using reserve_inv_set by blast
next
  case (standby_opened l k v bk sb cap sb' v')
  then show ?case using reserve_inv_open by blast
next
  case (standby_closed l k v bk sb v' sb')
  then show ?case using reserve_inv_close by blast
qed (auto intro: reserve_inv_frame simp: put_defs)

interpretation reserve_books: ledger_invariant h "\<lambda>_. True" "reserve_inv h" for h
proof
  show "reserve_inv h empty_ledger" by (simp add: reserve_inv_def empty_ledger_def)
next
  fix l sw e ix l' assume "reserve_inv h l" "exec h sw e ix l = Inr l'"
  then show "reserve_inv h l'" using reserve_inv_book [OF exec_books [where nz = False]] by blast
qed

section \<open>Sessions: the live count\<close>

definition registered_weight :: "pubkey \<Rightarrow> pubkey \<Rightarrow> session_account \<Rightarrow> nat" where
  "registered_weight k sk a = (if sa_vault a = k \<and> sa_version a \<noteq> 0 then 1 else 0)"

definition registered_total :: "ledger \<Rightarrow> pubkey \<Rightarrow> nat" where
  "registered_total l k = map_total (registered_weight k) (sessions l)"

text \<open>A session account sits at the address of its vault and a counterparty that is not the default
  key; while it is registered it names that counterparty.\<close>

definition session_placed :: "host \<Rightarrow> pubkey \<Rightarrow> session_account \<Rightarrow> bool" where
  "session_placed h sk a \<longleftrightarrow>
     (\<exists>cp. cp \<noteq> 0 \<and>
        create_program_address h (session_seeds (sa_vault a) cp @ [[sa_bump a]]) PROGRAM_ID = Some sk \<and>
        (if sa_version a = 0 then sr_allowed_counterparty (sa_session a) = 0
         else sr_allowed_counterparty (sa_session a) = cp))"

definition sessions_inv :: "host \<Rightarrow> ledger \<Rightarrow> bool" where
  "sessions_inv h l \<longleftrightarrow>
     finite (dom (sessions l)) \<and>
     (\<forall>sk a. sessions l sk = Some a \<longrightarrow> session_placed h sk a \<and> vaults l (sa_vault a) \<noteq> None) \<and>
     (\<forall>k v. vaults l k = Some v \<longrightarrow> unat (live_session_count v) = registered_total l k)"

lemma sessions_invI:
  assumes "finite (dom (sessions l))"
    and "\<And>sk a. sessions l sk = Some a \<Longrightarrow> session_placed h sk a"
    and "\<And>sk a. sessions l sk = Some a \<Longrightarrow> vaults l (sa_vault a) \<noteq> None"
    and "\<And>k v. vaults l k = Some v \<Longrightarrow> unat (live_session_count v) = registered_total l k"
  shows "sessions_inv h l"
  using assms by (simp add: sessions_inv_def)

lemma sessions_invD:
  assumes "sessions_inv h l"
  shows "finite (dom (sessions l))"
    and "sessions l sk = Some a \<Longrightarrow> session_placed h sk a"
    and "sessions l sk = Some a \<Longrightarrow> \<exists>v. vaults l (sa_vault a) = Some v"
    and "vaults l k = Some v \<Longrightarrow> unat (live_session_count v) = registered_total l k"
  using assms by (auto simp: sessions_inv_def)

lemma sessions_inv_frame:
  assumes inv: "sessions_inv h l" and ss: "sessions l' = sessions l"
    and vs: "\<And>j w. vaults l' j = Some w \<Longrightarrow>
      (\<exists>w0. vaults l j = Some w0 \<and> live_session_count w = live_session_count w0) \<or>
      vaults l j = None \<and> live_session_count w = 0"
    and grow: "\<And>j. vaults l j \<noteq> None \<Longrightarrow> vaults l' j \<noteq> None"
  shows "sessions_inv h l'"
proof (rule sessions_invI)
  fix k w assume "vaults l' k = Some w"
  from vs [OF this] show "unat (live_session_count w) = registered_total l' k"
  proof
    assume "\<exists>w0. vaults l k = Some w0 \<and> live_session_count w = live_session_count w0"
    then show ?thesis using sessions_invD(4) [OF inv] ss by (auto simp: registered_total_def)
  next
    assume new: "vaults l k = None \<and> live_session_count w = 0"
    then have "registered_weight k sk a = 0" if "sessions l sk = Some a" for sk a
      using sessions_invD(3) [OF inv that] by (auto simp: registered_weight_def)
    then have "registered_total l k = 0" unfolding registered_total_def by (rule map_total_eq_0)
    then show ?thesis using new ss by (simp add: registered_total_def)
  qed
next
  show "vaults l' (sa_vault a) \<noteq> None" if "sessions l' sk = Some a" for sk a
    using that sessions_invD(3) [OF inv, of sk a] grow ss by auto
qed (use sessions_invD(1,2) [OF inv] ss in auto)

text \<open>One write to a session of vault \<open>k\<close>, with the count of \<open>k\<close> following.\<close>

lemma sessions_inv_write:
  assumes inv: "sessions_inv h l" and v: "vaults l k = Some v"
    and vs: "vaults l' = (vaults l)(k \<mapsto> v')" and ss: "sessions l' = (sessions l)(sk \<mapsto> a)"
    and a: "session_placed h sk a" "sa_vault a = k"
    and old: "\<And>a0. sessions l sk = Some a0 \<Longrightarrow> sa_vault a0 = k"
    and bal: "unat (live_session_count v') + weight_at (registered_weight k) (sessions l) sk =
      unat (live_session_count v) + registered_weight k sk a"
  shows "sessions_inv h l'"
proof (rule sessions_invI)
  note fin = sessions_invD(1) [OF inv]
  show "finite (dom (sessions l'))" using fin ss by simp
  show "session_placed h j x" if "sessions l' j = Some x" for j x
    using that sessions_invD(2) [OF inv] a by (auto simp: ss split: if_splits)
  show "vaults l' (sa_vault x) \<noteq> None" if "sessions l' j = Some x" for j x
    using that sessions_invD(3) [OF inv] a v by (fastforce simp: ss vs split: if_splits)
  show "unat (live_session_count w) = registered_total l' j" if at: "vaults l' j = Some w" for j w
  proof (cases "j = k")
    case True
    have "registered_total l' k + weight_at (registered_weight k) (sessions l) sk =
        registered_total l k + registered_weight k sk a"
      unfolding registered_total_def ss by (rule map_total_update [OF fin])
    then show ?thesis using True at vs bal sessions_invD(4) [OF inv v] by simp
  next
    case False
    have "registered_weight j sk a = weight_at (registered_weight j) (sessions l) sk"
      using False a(2) old by (auto simp: registered_weight_def weight_at_def split: option.splits)
    then have "registered_total l' j = registered_total l j"
      unfolding registered_total_def ss by (rule map_total_same [OF fin])
    then show ?thesis using False at vs sessions_invD(4) [OF inv] by simp
  qed
qed

text \<open>A session's vault can be read off its address.\<close>

lemma session_placed_vault:
  assumes "pda_laws h" and "session_placed h sk a"
    and "create_program_address h (session_seeds k cp @ [[b]]) PROGRAM_ID = Some sk"
  shows "sa_vault a = k" and "sa_bump a = b" and "cp \<noteq> 0"
    and "sa_version a \<noteq> 0 \<Longrightarrow> sr_allowed_counterparty (sa_session a) = cp"
  using assms session_address_inj unfolding pda_laws_def session_placed_def
  by (metis (no_types, lifting))+

lemma session_placed_used:
  assumes "session_placed h sk a" and "same_terms (sa_session a) s"
  shows "session_placed h sk (a\<lparr>sa_session := s\<rparr>)"
  using assms by (auto simp: session_placed_def same_terms_def)

lemma session_placed_cleared:
  assumes "session_placed h sk a"
  shows "session_placed h sk (clear_session a)"
  using assms by (auto simp: session_placed_def clear_session_def zero_registration_def)

text \<open>A use of a session keeps its registration, so no count moves, whichever vault the step names.\<close>

lemma sessions_inv_used:
  assumes inv: "sessions_inv h l" and v: "vaults l k = Some v" and a: "sessions l sk = Some a"
    and s: "same_terms (sa_session a) s" and cnt: "live_session_count v' = live_session_count v"
  shows "sessions_inv h (put_session (put_vault l k v') sk (a\<lparr>sa_session := s\<rparr>))"
proof -
  let ?m = "put_session l sk (a\<lparr>sa_session := s\<rparr>)"
  obtain w where w: "vaults l (sa_vault a) = Some w" using sessions_invD(3) [OF inv a] by blast
  have "session_placed h sk (a\<lparr>sa_session := s\<rparr>)"
    using session_placed_used [OF sessions_invD(2) [OF inv a] s] .
  then have "sessions_inv h ?m"
    using inv w a
    by - (rule sessions_inv_write [of h l "sa_vault a" w ?m w sk "a\<lparr>sa_session := s\<rparr>"],
      auto simp: put_defs registered_weight_def weight_at_def)
  then show ?thesis
    by (rule sessions_inv_frame) (use v cnt in \<open>auto simp: put_defs split: if_splits\<close>)
qed

lemma sessions_inv_revoked:
  assumes inv: "sessions_inv h l" and laws: "pda_laws h" and v: "vaults l k = Some v"
    and a: "sessions l sk = Some a" and live: "sa_version a \<noteq> 0"
    and at: "create_program_address h (session_seeds k cp @ [[sa_bump a]]) PROGRAM_ID = Some sk"
    and pos: "0 < live_session_count v"
  shows "sessions_inv h (put_session
    (put_vault l k (v\<lparr>live_session_count := live_session_count v - 1\<rparr>)) sk (clear_session a))"
proof -
  note placed = sessions_invD(2) [OF inv a]
  have k: "sa_vault a = k" using session_placed_vault(1) [OF laws placed at] .
  have "unat (live_session_count v - 1) + 1 = unat (live_session_count v)"
    using checked_sub_one [OF pos] by (simp add: checked_sub_eq_Some)
  then show ?thesis
    by - (rule sessions_inv_write [OF inv v, where sk = sk and a = "clear_session a" and
        v' = "v\<lparr>live_session_count := live_session_count v - 1\<rparr>"],
      use session_placed_cleared [OF placed] a k live in
        \<open>auto simp: put_defs registered_weight_def weight_at_def clear_session_def\<close>)
qed

lemma sessions_inv_closed:
  assumes inv: "sessions_inv h l" and a: "sessions l sk = Some a" and dead: "sa_version a = 0"
  shows "sessions_inv h (l\<lparr>sessions := (sessions l)(sk := None)\<rparr>)"
proof (rule sessions_invI)
  let ?l = "l\<lparr>sessions := (sessions l)(sk := None)\<rparr>"
  show "unat (live_session_count w) = registered_total ?l j" if "vaults ?l j = Some w" for j w
  proof -
    have "weight_at (registered_weight j) (sessions l) sk = 0"
      using a dead by (simp add: weight_at_def registered_weight_def)
    then have "registered_total ?l j = registered_total l j"
      using map_total_remove [OF sessions_invD(1) [OF inv], of "registered_weight j" sk]
      by (simp add: registered_total_def)
    then show ?thesis using that sessions_invD(4) [OF inv] by simp
  qed
qed (use sessions_invD(1-3) [OF inv] in \<open>auto split: if_splits\<close>)

text \<open>A sweep clears registered sessions of vault \<open>k\<close>, and the count falls by as many.\<close>

definition sweeps :: "ledger \<Rightarrow> pubkey \<Rightarrow> (pubkey \<times> session_account) list \<Rightarrow> bool" where
  "sweeps l k cl \<longleftrightarrow>
     distinct (map fst cl) \<and>
     (\<forall>(j, x)\<in>set cl. \<exists>a. sessions l j = Some a \<and> x = clear_session a \<and> sa_vault a = k \<and>
        sa_version a \<noteq> 0)"

lemma sweep_total:
  assumes fin: "finite (dom (sessions l))" and sw: "sweeps l k cl"
  shows "map_total (registered_weight k) (upd_all (sessions l) cl) + length cl =
      map_total (registered_weight k) (sessions l)"
    and "j \<noteq> k \<Longrightarrow> map_total (registered_weight j) (upd_all (sessions l) cl) =
      map_total (registered_weight j) (sessions l)"
proof -
  have dist: "distinct (map fst cl)" using sw by (simp add: sweeps_def)
  have w: "weight_at (registered_weight i) (sessions l) (fst p) = (if i = k then 1 else 0)"
    "registered_weight i (fst p) (snd p) = 0" if "p \<in> set cl" for i p
    using that sw by (fastforce simp: sweeps_def weight_at_def registered_weight_def
        clear_session_def)+
  have "(\<Sum>(j, x)\<leftarrow>cl. weight_at (registered_weight i) (sessions l) j) =
      (\<Sum>p\<leftarrow>cl. if i = k then 1 else 0)" for i
    using w(1) by (intro arg_cong [where f = sum_list] map_cong) auto
  moreover have "(\<Sum>(j, x)\<leftarrow>cl. registered_weight i j x) = (\<Sum>p\<leftarrow>cl. 0)" for i
    using w(2) by (intro arg_cong [where f = sum_list] map_cong) auto
  ultimately show "map_total (registered_weight k) (upd_all (sessions l) cl) + length cl =
      map_total (registered_weight k) (sessions l)"
    and "j \<noteq> k \<Longrightarrow> map_total (registered_weight j) (upd_all (sessions l) cl) =
      map_total (registered_weight j) (sessions l)"
    using map_total_upd_all [OF fin dist, of "registered_weight k"]
      map_total_upd_all [OF fin dist, of "registered_weight j"]
    by (simp_all add: sum_list_triv)
qed

lemma sessions_inv_swept:
  assumes inv: "sessions_inv h l" and v: "vaults l k = Some v" and sw: "sweeps l k cl"
    and cnt: "unat (live_session_count v1) + length cl = unat (live_session_count v)"
    and vs: "vaults l' = (vaults l)(k \<mapsto> v1)" and ss: "sessions l' = upd_all (sessions l) cl"
  shows "sessions_inv h l'"
proof (rule sessions_invI)
  note fin = sessions_invD(1) [OF inv]
  show "finite (dom (sessions l'))" using fin by (simp add: ss dom_upd_all)
  have entry: "\<exists>a0. sessions l j = Some a0 \<and> (a = a0 \<or> a = clear_session a0)"
    if "sessions l' j = Some a" for j a
    using upd_all_cases [OF that [unfolded ss]] sw by (auto simp: sweeps_def)
  show "session_placed h j a" if "sessions l' j = Some a" for j a
    using entry [OF that] sessions_invD(2) [OF inv] session_placed_cleared by blast
  show "vaults l' (sa_vault a) \<noteq> None" if at: "sessions l' j = Some a" for j a
  proof -
    obtain a0 where "sessions l j = Some a0" "sa_vault a = sa_vault a0"
      using entry [OF at] by (auto simp: clear_session_def)
    then show ?thesis using sessions_invD(3) [OF inv] v by (auto simp: vs)
  qed
  show "unat (live_session_count w) = registered_total l' j" if at: "vaults l' j = Some w" for j w
  proof (cases "j = k")
    case True
    then have "unat (live_session_count w) + length cl = registered_total l k"
      using at cnt sessions_invD(4) [OF inv v] by (simp add: vs)
    then show ?thesis
      using sweep_total(1) [OF fin sw] True by (simp add: registered_total_def ss)
  next
    case False
    then show ?thesis
      using at sweep_total(2) [OF fin sw False] sessions_invD(4) [OF inv, of j w]
      by (simp add: registered_total_def ss vs)
  qed
qed

text \<open>What the gate passes are registered sessions of the vault other than the target.\<close>

lemma admitted_siblings:
  assumes inv: "sessions_inv h l" and laws: "pda_laws h"
    and ad: "admitted h n v k bal sk e (siblings_of l sl) cap" and s: "s \<in> set (siblings_of l sl)"
  obtains a where "sib_account s = Some a" "sessions l (sib_key s) = Some a" "sib_key s \<noteq> sk"
    "sa_vault a = k" "sa_version a \<noteq> 0"
proof -
  have "good_sibling h n k sk s" using ad s by (auto simp: admitted_def)
  then obtain a where a: "sib_account s = Some a" "sib_key s \<noteq> sk" "session_at h k (sib_key s) a"
    by (auto simp: good_sibling_def)
  have at: "sessions l (sib_key s) = Some a" using s a(1) by (auto simp: siblings_of_def)
  note placed = sessions_invD(2) [OF inv at]
  have addr: "create_program_address h
      (session_seeds k (sr_allowed_counterparty (sa_session a)) @ [[sa_bump a]]) PROGRAM_ID =
      Some (sib_key s)" and vk: "sa_vault a = k"
    using a(3) by (simp_all add: session_at_def)
  have "sr_allowed_counterparty (sa_session a) \<noteq> 0"
    using session_placed_vault(3) [OF laws placed addr] .
  then have "sa_version a \<noteq> 0" using placed by (auto simp: session_placed_def)
  then show ?thesis using that a at vk by blast
qed

lemma admitted_sweeps:
  assumes inv: "sessions_inv h l" and laws: "pda_laws h"
    and ad: "admitted h n v k bal sk e (siblings_of l sl) cap"
  shows "sweeps l k (map sib_clear (filter P (siblings_of l sl)))"
proof -
  have "distinct (map sib_key (siblings_of l sl))"
    using ad by (simp add: admitted_def strict_sorted_iff)
  then have "distinct (map fst (map sib_clear (filter P (siblings_of l sl))))"
    by (simp add: sib_clear_def comp_def distinct_map inj_on_def)
  moreover have "\<exists>a. sessions l (sib_key s) = Some a \<and> snd (sib_clear s) = clear_session a \<and>
      sa_vault a = k \<and> sa_version a \<noteq> 0" if "s \<in> set (siblings_of l sl)" for s
    by (rule admitted_siblings [OF inv laws ad that]) (auto simp: sib_clear_def)
  ultimately show ?thesis by (auto simp: sweeps_def sib_clear_def)
qed

lemma existing_session_placed:
  assumes inv: "sessions_inv h l" and laws: "pda_laws h"
    and at: "find_program_address h (session_seeds k cp) PROGRAM_ID = Some (sk, b)"
  shows "sessions l sk = None \<and> session_is_new (existing_session l sk) \<or>
    (\<exists>a. sessions l sk = Some a \<and> existing_session l sk = a \<and> sa_vault a = k \<and> sa_bump a = b)"
proof (cases "sessions l sk")
  case None
  then show ?thesis
    by (simp add: existing_session_def session_is_new_def fresh_session_account_def)
next
  case (Some a)
  have "create_program_address h (session_seeds k cp @ [[b]]) PROGRAM_ID = Some sk"
    using laws at by (simp add: pda_laws_def find_create_law_def)
  from session_placed_vault(1,2) [OF laws sessions_invD(2) [OF inv Some] this]
  show ?thesis using Some by (simp add: existing_session_def)
qed

lemma sessions_inv_registered:
  assumes inv: "sessions_inv h l" and laws: "pda_laws h" and v: "vaults l k = Some v"
    and at: "find_program_address h (session_seeds k (ra_allowed_counterparty args)) PROGRAM_ID =
      Some (sk, b)"
    and nz: "ra_allowed_counterparty args \<noteq> 0"
    and ad: "admitted h n v k bal sk (existing_session l sk) (siblings_of l sl) cap"
    and cnt: "count_after v n (existing_session l sk) (siblings_of l sl) c"
  shows "sessions_inv h (put_session ((put_vault l k (v\<lparr>live_session_count := c\<rparr>))\<lparr>sessions :=
      upd_all (sessions l) (map sib_clear (filter (Not \<circ> sib_live n) (siblings_of l sl)))\<rparr>)
    sk (registered_session (existing_session l sk) b k args))"
proof -
  let ?e = "existing_session l sk"
  let ?cl = "map sib_clear (filter (Not \<circ> sib_live n) (siblings_of l sl))"
  have le: "length ?cl \<le> unat (live_session_count v)"
    using ad length_live_expired [of n "siblings_of l sl"] by (simp add: admitted_def)
  then obtain c1 :: u8 where "unat c1 = unat (live_session_count v) - length ?cl"
    using word_between [of "live_session_count v" "unat (live_session_count v) - length ?cl"
        "length ?cl"] by auto
  with le have c1: "unat c1 + length ?cl = unat (live_session_count v)" by simp
  define l1 where "l1 = (put_vault l k (v\<lparr>live_session_count := c1\<rparr>))\<lparr>sessions :=
    upd_all (sessions l) ?cl\<rparr>"
  have inv1: "sessions_inv h l1"
    by (rule sessions_inv_swept [of h l k v ?cl "v\<lparr>live_session_count := c1\<rparr>",
          OF inv v admitted_sweeps [OF inv laws ad]])
      (use c1 in \<open>simp_all add: l1_def put_defs\<close>)
  have "sk \<notin> fst ` set ?cl"
    using ad by (auto simp: admitted_def good_sibling_def sib_clear_def)
  then have kept: "sessions l1 sk = sessions l sk"
    by (simp add: l1_def put_defs upd_all_notin)
  have "create_program_address h (session_seeds k (ra_allowed_counterparty args) @ [[b]]) PROGRAM_ID
      = Some sk"
    using laws at by (simp add: pda_laws_def find_create_law_def)
  then have placed: "session_placed h sk (registered_session ?e b k args)"
    "sa_vault (registered_session ?e b k args) = k"
    using existing_session_placed [OF inv laws at] nz
    by (auto simp: session_placed_def registered_session_def session_is_new_def
        registration_of_def)
  have "unat c + weight_at (registered_weight k) (sessions l1) sk =
      unat c1 + registered_weight k sk (registered_session ?e b k args)"
    using existing_session_placed [OF inv laws at] cnt c1 placed(2) kept
    by (auto simp: count_after_def weight_at_def registered_weight_def registered_session_def
        session_is_new_def)
  then show ?thesis
    by - (rule sessions_inv_write [OF inv1, of k "v\<lparr>live_session_count := c1\<rparr>" _
        "v\<lparr>live_session_count := c\<rparr>" sk "registered_session ?e b k args"],
      use placed kept existing_session_placed [OF inv laws at] in \<open>auto simp: l1_def put_defs\<close>)
qed

lemma sessions_inv_book:
  assumes "book h True l l'" and "pda_laws h" and "sessions_inv h l"
  shows "sessions_inv h l'"
  using assms(1,3)
proof (induction rule: book.induct)
  case (session_used l k v sk a v' s)
  then show ?case by (intro sessions_inv_used) (auto simp: same_books_def)
next
  case (registered l k v args sk b n bal sl c l')
  then show ?case using sessions_inv_registered [OF _ assms(2)] by simp
next
  case (revoked l k v sk a cp)
  then show ?case using sessions_inv_revoked [OF _ assms(2)] by blast
next
  case (session_closed l sk a)
  then show ?case using sessions_inv_closed by blast
next
  case (locked l k v sk a ck cum proposed c v' tc a' sq)
  have "sessions_inv h (put_session (put_vault l k v') sk a')"
    unfolding locked(13) using locked by (intro sessions_inv_used) auto
  then show ?case by (rule sessions_inv_frame) (auto simp: put_defs)
qed (rule sessions_inv_frame; auto simp: put_defs same_books_def fresh_books_def split: if_splits)+

interpretation sessions_books: ledger_invariant h nonzero_counterparty
  "\<lambda>l. pda_laws h \<longrightarrow> sessions_inv h l" for h
proof
  show "pda_laws h \<longrightarrow> sessions_inv h empty_ledger"
    by (simp add: sessions_inv_def empty_ledger_def)
next
  fix l sw e ix l' assume "pda_laws h \<longrightarrow> sessions_inv h l" "nonzero_counterparty ix"
    "exec h sw e ix l = Inr l'"
  then show "pda_laws h \<longrightarrow> sessions_inv h l'"
    using sessions_inv_book [OF exec_books [where nz = True]] by blast
qed

lemma reachable_sessions:
  "\<lbrakk> pda_laws h; reachable h sw nonzero_counterparty l \<rbrakk> \<Longrightarrow> sessions_inv h l"
  using sessions_books.inv_reachable by blast

end
