(* ===== verification/Admission.thy ===== *)
theory Admission
  imports Ledger_Invariants
begin

text \<open>
  What the overcommit gate of \<open>register_session_key\<close> achieves on the ledger: the siblings the caller
  passes are all the other registered sessions of the vault, so after a registration the caps of all
  the live sessions and the crystallized claims fit in the balance together.
\<close>

definition registered_keys :: "ledger \<Rightarrow> pubkey \<Rightarrow> pubkey set" where
  "registered_keys l k =
     {sk. \<exists>a. sessions l sk = Some a \<and> sa_vault a = k \<and> sa_version a \<noteq> 0}"

text \<open>The spending the live sessions of a vault are still entitled to.\<close>

definition live_cap :: "pubkey \<Rightarrow> i64 \<Rightarrow> pubkey \<Rightarrow> session_account \<Rightarrow> nat" where
  "live_cap k n sk a =
     (if sa_vault a = k \<and> sa_version a \<noteq> 0 \<and> live_at n a
      then unat (sr_max_amount (sa_session a)) else 0)"

definition live_total :: "ledger \<Rightarrow> pubkey \<Rightarrow> i64 \<Rightarrow> nat" where
  "live_total l k n = map_total (live_cap k n) (sessions l)"

lemma registered_total_card:
  assumes "finite (dom (sessions l))"
  shows "registered_total l k = card (registered_keys l k)" and "finite (registered_keys l k)"
proof -
  have sub: "registered_keys l k \<subseteq> dom (sessions l)" by (auto simp: registered_keys_def)
  then show fin: "finite (registered_keys l k)" using assms finite_subset by blast
  have "registered_total l k = (\<Sum>sk\<in>dom (sessions l). if sk \<in> registered_keys l k then 1 else 0)"
    unfolding registered_total_def map_total_def
    by (rule sum.cong) (auto simp: registered_keys_def registered_weight_def)
  also have "\<dots> = card (dom (sessions l) \<inter> registered_keys l k)"
    using assms by (simp add: sum.If_cases Int_def)
  also have "dom (sessions l) \<inter> registered_keys l k = registered_keys l k" using sub by blast
  finally show "registered_total l k = card (registered_keys l k)" .
qed

lemma siblings_complete:
  assumes inv: "sessions_inv h l" and laws: "pda_laws h" and v: "vaults l k = Some v"
    and at: "find_program_address h (session_seeds k cp) PROGRAM_ID = Some (sk, b)"
    and ad: "admitted h n v k bal sk (existing_session l sk) (siblings_of l sl) cap"
  shows "sib_key ` set (siblings_of l sl) = registered_keys l k - {sk}"
proof (rule card_subset_eq)
  let ?K = "sib_key ` set (siblings_of l sl)"
  note fin = registered_total_card [OF sessions_invD(1) [OF inv], of k]
  show "finite (registered_keys l k - {sk})" using fin(2) by simp
  show "?K \<subseteq> registered_keys l k - {sk}"
  proof clarify
    fix s assume "s \<in> set (siblings_of l sl)"
    from admitted_siblings [OF inv laws ad this]
    show "sib_key s \<in> registered_keys l k - {sk}" by (auto simp: registered_keys_def)
  qed
  have "distinct (map sib_key (siblings_of l sl))"
    using ad by (simp add: admitted_def strict_sorted_iff)
  then have "card ?K = length (siblings_of l sl)"
    using distinct_card by fastforce
  moreover have "card (registered_keys l k) =
      length (siblings_of l sl) + (if session_is_new (existing_session l sk) then 0 else 1)"
    using ad sessions_invD(4) [OF inv v] fin(1) by (simp add: admitted_def)
  moreover have "sk \<in> registered_keys l k \<longleftrightarrow> \<not> session_is_new (existing_session l sk)"
    using existing_session_placed [OF inv laws at]
    by (auto simp: registered_keys_def session_is_new_def)
  ultimately show "card ?K = card (registered_keys l k - {sk})"
    using fin(2) by (auto simp: card_Diff_singleton_if)
qed

text \<open>The ledger a registration leaves, as \<open>book\<close> describes it.\<close>

definition registered_ledger ::
  "ledger \<Rightarrow> pubkey \<Rightarrow> vault \<Rightarrow> u8 \<Rightarrow> i64 \<Rightarrow> (pubkey \<times> bool) list \<Rightarrow> pubkey \<Rightarrow> u8 \<Rightarrow>
     register_session_key_args \<Rightarrow> ledger" where
  "registered_ledger l k v c n sl sk b args =
     put_session ((put_vault l k (v\<lparr>live_session_count := c\<rparr>))\<lparr>sessions :=
       upd_all (sessions l) (map sib_clear (filter (Not \<circ> sib_live n) (siblings_of l sl)))\<rparr>)
     sk (registered_session (existing_session l sk) b k args)"

lemma live_total_restrict:
  assumes "finite (dom (sessions l))" and "K \<subseteq> dom (sessions l)"
    and "\<And>j a. sessions l j = Some a \<Longrightarrow> j \<notin> K \<Longrightarrow> live_cap k n j a = 0"
  shows "live_total l k n = (\<Sum>j\<in>K. live_cap k n j (the (sessions l j)))"
  unfolding live_total_def map_total_def
  by (rule sum.mono_neutral_right) (use assms in auto)

lemma registered_ledger_sessions:
  "sessions (registered_ledger l k v c n sl sk b args) =
     (upd_all (sessions l) (map sib_clear (filter (Not \<circ> sib_live n) (siblings_of l sl))))
       (sk \<mapsto> registered_session (existing_session l sk) b k args)"
  by (simp add: registered_ledger_def put_defs)

text \<open>A live sibling keeps its account and its cap.\<close>

lemma live_sibling_kept:
  assumes inv: "sessions_inv h l" and laws: "pda_laws h"
    and ad: "admitted h n v k bal sk (existing_session l sk) (siblings_of l sl) cap"
    and s: "s \<in> set (filter (sib_live n) (siblings_of l sl))"
  shows "sib_key s \<noteq> sk" and "sessions (registered_ledger l k v c n sl sk b args) (sib_key s) \<noteq> None"
    and "live_cap k n (sib_key s)
      (the (sessions (registered_ledger l k v c n sl sk b args) (sib_key s))) = sib_cap s"
proof -
  have S: "s \<in> set (siblings_of l sl)" "sib_live n s" using s by auto
  obtain a where a: "sib_account s = Some a" "sessions l (sib_key s) = Some a" "sib_key s \<noteq> sk"
    "sa_vault a = k" "sa_version a \<noteq> 0"
    using admitted_siblings [OF inv laws ad S(1)] by blast
  have "distinct (map sib_key (siblings_of l sl))"
    using ad by (simp add: admitted_def strict_sorted_iff)
  then have "sib_key s \<notin>
      fst ` set (map sib_clear (filter (Not \<circ> sib_live n) (siblings_of l sl)))"
    using S by (auto simp: sib_clear_def distinct_map inj_on_def)
  then have "sessions (registered_ledger l k v c n sl sk b args) (sib_key s) = Some a"
    using a(2,3) by (simp add: registered_ledger_sessions upd_all_notin)
  then show "sib_key s \<noteq> sk"
    and "sessions (registered_ledger l k v c n sl sk b args) (sib_key s) \<noteq> None"
    and "live_cap k n (sib_key s)
      (the (sessions (registered_ledger l k v c n sl sk b args) (sib_key s))) = sib_cap s"
    using a S(2) by (simp_all add: live_cap_def sib_cap_def sib_live_def)
qed

text \<open>No other account of the vault is live.\<close>

lemma others_not_live:
  assumes inv: "sessions_inv h l" and laws: "pda_laws h" and v: "vaults l k = Some v"
    and at: "find_program_address h (session_seeds k cp) PROGRAM_ID = Some (sk, b)"
    and ad: "admitted h n v k bal sk (existing_session l sk) (siblings_of l sl) cap"
    and x: "sessions (registered_ledger l k v c n sl sk b args) j = Some x"
    and j: "j \<notin> insert sk (sib_key ` set (filter (sib_live n) (siblings_of l sl)))"
  shows "live_cap k n j x = 0"
proof -
  let ?cl = "map sib_clear (filter (Not \<circ> sib_live n) (siblings_of l sl))"
  from x j have "upd_all (sessions l) ?cl j = Some x" by (simp add: registered_ledger_sessions)
  then consider "(j, x) \<in> set ?cl" | "j \<notin> fst ` set ?cl" "sessions l j = Some x"
    using upd_all_cases by metis
  then show ?thesis
  proof cases
    case 1
    then show ?thesis by (auto simp: sib_clear_def clear_session_def live_cap_def)
  next
    case 2
    have "j \<notin> sib_key ` set (siblings_of l sl)" using 2(1) j by (force simp: sib_clear_def)
    then have "j \<notin> registered_keys l k" using siblings_complete [OF inv laws v at ad] j by blast
    then show ?thesis using 2(2) by (auto simp: registered_keys_def live_cap_def)
  qed
qed

lemma live_total_registered:
  assumes inv: "sessions_inv h l" and laws: "pda_laws h" and v: "vaults l k = Some v"
    and at: "find_program_address h (session_seeds k (ra_allowed_counterparty args)) PROGRAM_ID =
      Some (sk, b)"
    and ad: "admitted h n v k bal sk (existing_session l sk) (siblings_of l sl) cap"
    and live: "sint n < sint (ra_expires_at args)"
  shows "live_total (registered_ledger l k v c n sl sk b args) k n =
    unat (ra_max_amount args) + sum_list (map sib_cap (filter (sib_live n) (siblings_of l sl)))"
proof -
  let ?live = "filter (sib_live n) (siblings_of l sl)"
  let ?l = "registered_ledger l k v c n sl sk b args"
  let ?cap = "\<lambda>j. live_cap k n j (the (sessions ?l j))"
  note kept = live_sibling_kept [OF inv laws ad]
  have "distinct (map sib_key (siblings_of l sl))"
    using ad by (simp add: admitted_def strict_sorted_iff)
  then have inj: "inj_on sib_key (set ?live)" and dist: "distinct ?live"
    by (auto simp: distinct_map inj_on_def)
  have "finite (dom (sessions ?l))"
    using sessions_invD(1) [OF inv] by (simp add: registered_ledger_sessions dom_upd_all)
  moreover have "sessions ?l sk \<noteq> None" by (simp add: registered_ledger_sessions)
  then have "insert sk (sib_key ` set ?live) \<subseteq> dom (sessions ?l)"
    using kept(2) unfolding dom_def by blast
  ultimately have "live_total ?l k n = sum ?cap (insert sk (sib_key ` set ?live))"
    using others_not_live [OF inv laws v at ad] by (rule live_total_restrict)
  also have "\<dots> = ?cap sk + sum ?cap (sib_key ` set ?live)"
    using kept(1) by (subst sum.insert) auto
  also have "?cap sk = unat (ra_max_amount args)"
    using existing_session_placed [OF inv laws at] live
    by (auto simp: registered_ledger_sessions live_cap_def registered_session_def live_at_def
        registration_of_def session_is_new_def)
  also have "sum ?cap (sib_key ` set ?live) = (\<Sum>s\<in>set ?live. sib_cap s)"
    unfolding sum.reindex [OF inj] comp_def by (rule sum.cong [OF refl]) (rule kept(3))
  also have "\<dots> = sum_list (map sib_cap ?live)"
    using dist by (simp add: sum_list_distinct_conv_sum_set)
  finally show ?thesis .
qed

lemma exec_register_eq:
  "exec h sw e (RegisterSessionKey accs args) l = Inr l' \<longleftrightarrow>
     (\<exists>v ata b c. vaults l (rg_vault accs) = Some v \<and> tokens e (rg_usdc_ata accs) = Some ata \<and>
        rg_payer accs \<in> set (signers e) \<and>
        find_program_address h (session_seeds (rg_vault accs) (ra_allowed_counterparty args))
          PROGRAM_ID = Some (rg_session accs, b) \<and>
        rg_swig accs = swig_address v \<and>
        seeds_canonical h (swig_wallet_seeds (rg_swig accs)) SWIG_PROGRAM_ID (rg_swig_wallet accs) \<and>
        version v = 6 \<and> 0 < ra_max_amount args \<and> 0 < ra_max_revolving_capacity args \<and>
        sint (now e) < sint (ra_expires_at args) \<and> ta_owner ata = rg_swig_wallet accs \<and>
        live_session_count v < 255 \<and>
        admitted h (now e) v (rg_vault accs) (ta_amount ata) (rg_session accs)
          (existing_session l (rg_session accs)) (siblings_of l (rg_siblings accs))
          (ra_max_amount args) \<and>
        passkey_authorized h (sysvar e) (passkey_pubkey v) (ra_client_data_json args)
          (ra_authenticator_data args) (register_message (rg_vault accs) args) \<and>
        count_after v (now e) (existing_session l (rg_session accs))
          (siblings_of l (rg_siblings accs)) c \<and>
        l' = registered_ledger l (rg_vault accs) v c (now e) (rg_siblings accs)
          (rg_session accs) b args)"
  by (simp add: bind_res_eq_Inr load_eq_Inr split_paired_Ex register_session_key_eq_Inr
      register_session_key_handler_eq_Inr Let_def existing_session_def [symmetric]
      registered_ledger_def put_vault_def) fast

lemma register_wallet:
  assumes "exec h sw e (RegisterSessionKey accs args) l = Inr l'"
    and "vaults l' (rg_vault accs) = Some v'"
  shows "\<exists>ata. tokens e (rg_usdc_ata accs) = Some ata \<and>
    seeds_canonical h (swig_wallet_seeds (swig_address v')) SWIG_PROGRAM_ID (ta_owner ata)"
proof -
  from assms(1) [unfolded exec_register_eq] obtain v ata b c where
    "tokens e (rg_usdc_ata accs) = Some ata" "rg_swig accs = swig_address v"
    "seeds_canonical h (swig_wallet_seeds (rg_swig accs)) SWIG_PROGRAM_ID (rg_swig_wallet accs)"
    "ta_owner ata = rg_swig_wallet accs"
    "l' = registered_ledger l (rg_vault accs) v c (now e) (rg_siblings accs) (rg_session accs) b args"
    by blast
  with assms(2) show ?thesis by (auto simp: registered_ledger_def put_defs)
qed

lemma register_admission:
  assumes inv: "sessions_inv h l" and laws: "pda_laws h"
    and run: "exec h sw e (RegisterSessionKey accs args) l = Inr l'"
    and ata: "tokens e (rg_usdc_ata accs) = Some ata"
    and v: "vaults l' (rg_vault accs) = Some v'"
  shows "live_total l' (rg_vault accs) (now e) + unat (outstanding_locked_amount v')
      \<le> unat (ta_amount ata)"
    and "sib_key ` set (siblings_of l (rg_siblings accs)) =
      registered_keys l (rg_vault accs) - {rg_session accs}"
proof -
  let ?k = "rg_vault accs" and ?sk = "rg_session accs" and ?sl = "rg_siblings accs"
  from run [unfolded exec_register_eq] ata obtain v0 b c where v0: "vaults l ?k = Some v0"
    and at: "find_program_address h (session_seeds ?k (ra_allowed_counterparty args)) PROGRAM_ID =
      Some (?sk, b)"
    and ad: "admitted h (now e) v0 ?k (ta_amount ata) ?sk (existing_session l ?sk)
      (siblings_of l ?sl) (ra_max_amount args)"
    and live: "sint (now e) < sint (ra_expires_at args)"
    and l': "l' = registered_ledger l ?k v0 c (now e) ?sl ?sk b args"
    by auto
  have "v' = v0\<lparr>live_session_count := c\<rparr>"
    using v by (simp add: l' registered_ledger_def put_defs)
  then show "live_total l' ?k (now e) + unat (outstanding_locked_amount v') \<le> unat (ta_amount ata)"
    using live_total_registered [OF inv laws v0 at ad live, of c] ad
    by (simp add: l' admitted_def)
  show "sib_key ` set (siblings_of l ?sl) = registered_keys l ?k - {?sk}"
    by (rule siblings_complete [OF inv laws v0 at ad])
qed

end
