(* ===== verification/Sample.thy ===== *)
theory Sample
  imports Admission
begin

text \<open>
  A small concrete world on which the properties are exercised: a host whose hash and addresses are
  tables, one vault with its swig, a buyer's passkey, two sellers, a financier, and the transactions
  that take the empty ledger to one with sessions, a claim and a loan.
\<close>

section \<open>Host\<close>

definition sample_hash :: "byte list \<Rightarrow> 32 bytes" where
  "sample_hash bs = fill (sum_list bs)"

definition V :: pubkey where "V = fill 1" \<comment> \<open>the vault\<close>
definition SWIG :: pubkey where "SWIG = fill 10"
definition SWIG_WALLET :: pubkey where "SWIG_WALLET = fill 11"
definition FIN :: pubkey where "FIN = fill 20" \<comment> \<open>the financier's swig\<close>
definition FIN_WALLET :: pubkey where "FIN_WALLET = fill 21"
definition RESERVE :: pubkey where "RESERVE = fill 22" \<comment> \<open>its ledger\<close>
definition SELLER :: pubkey where "SELLER = fill 30"
definition SELLER2 :: pubkey where "SELLER2 = fill 31"
definition SESS :: pubkey where "SESS = fill 40"
definition SESS2 :: pubkey where "SESS2 = fill 41"
definition SESS0 :: pubkey where "SESS0 = fill 42" \<comment> \<open>the session address of the default counterparty\<close>
definition CLAIM :: pubkey where "CLAIM = fill 50"
definition AUTH :: pubkey where "AUTH = fill 60" \<comment> \<open>the dexter authority\<close>
definition ATA :: pubkey where "ATA = fill 70"
definition IDENTITY :: "32 bytes" where "IDENTITY = fill 9"
definition PASSKEY :: "33 bytes" where "PASSKEY = fill 2"
definition SKEY :: "32 bytes" where "SKEY = fill 80" \<comment> \<open>the session key\<close>

lemmas sample_keys = V_def SWIG_def SWIG_WALLET_def FIN_def FIN_WALLET_def RESERVE_def SELLER_def
  SELLER2_def SESS_def SESS2_def SESS0_def CLAIM_def AUTH_def ATA_def IDENTITY_def PASSKEY_def
  SKEY_def

definition CLAIM_HASH :: "32 bytes" where
  "CLAIM_HASH = sample_hash (voucher_message (fill 5) 100 1)"

definition address_table :: "(byte list \<times> pubkey) list" where
  "address_table =
     [(concat (vault_seeds IDENTITY @ [[255]]), V),
      (concat (swig_wallet_seeds SWIG @ [[255]]), SWIG_WALLET),
      (concat (swig_wallet_seeds FIN @ [[255]]), FIN_WALLET),
      (concat (standby_seeds FIN @ [[255]]), RESERVE),
      (concat (session_seeds V SELLER @ [[255]]), SESS),
      (concat (session_seeds V SELLER2 @ [[255]]), SESS2),
      (concat (session_seeds V 0 @ [[255]]), SESS0),
      (concat (claim_seeds V CLAIM_HASH @ [[255]]), CLAIM)]"

definition sample_create :: "byte list list \<Rightarrow> pubkey \<Rightarrow> pubkey option" where
  "sample_create seeds pid = map_of address_table (concat seeds)"

definition sample_find :: "byte list list \<Rightarrow> pubkey \<Rightarrow> (pubkey \<times> u8) option" where
  "sample_find seeds pid = map_option (\<lambda>k. (k, 255)) (sample_create (seeds @ [[255]]) pid)"

definition sample_host :: host where
  "sample_host = \<lparr> sha256 = sample_hash, create_program_address = sample_create,
     find_program_address = sample_find, rent_minimum_balance = \<lambda>n. word_of_nat n \<rparr>"

lemma sample_host_sel [simp]:
  "sha256 sample_host = sample_hash"
  "create_program_address sample_host = sample_create"
  "find_program_address sample_host = sample_find"
  by (simp_all add: sample_host_def)

lemma address_table_injective: "distinct (map snd address_table)"
  by code_simp

lemma map_of_inj:
  assumes "distinct (map snd xs)" and "map_of xs a = Some k" and "map_of xs b = Some k"
  shows "a = b"
  using assms
proof (induction xs)
  case (Cons x xs)
  have tail: "k \<in> snd ` set xs" if "map_of xs c = Some k" for c
    using map_of_SomeD [OF that] by force
  show ?case
  proof (cases "a = fst x \<or> b = fst x")
    case True
    have "snd x = k" using True Cons.prems(2,3) by auto
    then have "\<not> k \<in> snd ` set xs" using Cons.prems(1) by auto
    then show ?thesis using tail Cons.prems(2,3) by (auto split: if_splits)
  next
    case False
    then show ?thesis using Cons by auto
  qed
qed simp

lemma sample_laws: "pda_laws sample_host"
proof -
  have "find_create_law sample_host"
    by (auto simp: find_create_law_def sample_find_def)
  moreover have "concat s = concat s'"
    if "sample_create s pid = Some k" "sample_create s' pid = Some k" for s s' pid k
    using map_of_inj [OF address_table_injective] that unfolding sample_create_def by blast
  ultimately show ?thesis unfolding pda_laws_def address_injective_def sample_host_sel by blast
qed

lemma sample_addresses:
  "sample_create (vault_seeds IDENTITY @ [[255]]) p = Some V"
  "sample_create (swig_wallet_seeds SWIG @ [[255]]) p = Some SWIG_WALLET"
  "sample_create (swig_wallet_seeds FIN @ [[255]]) p = Some FIN_WALLET"
  "sample_create (standby_seeds FIN @ [[255]]) p = Some RESERVE"
  "sample_create (session_seeds V SELLER @ [[255]]) p = Some SESS"
  "sample_create (session_seeds V SELLER2 @ [[255]]) p = Some SESS2"
  "sample_create (session_seeds V 0 @ [[255]]) p = Some SESS0"
  "sample_create (claim_seeds V CLAIM_HASH @ [[255]]) p = Some CLAIM"
  by (simp_all only: sample_create_def, code_simp+)

lemma sample_finds:
  "sample_find (vault_seeds IDENTITY) p = Some (V, 255)"
  "sample_find (swig_wallet_seeds SWIG) p = Some (SWIG_WALLET, 255)"
  "sample_find (swig_wallet_seeds FIN) p = Some (FIN_WALLET, 255)"
  "sample_find (standby_seeds FIN) p = Some (RESERVE, 255)"
  "sample_find (session_seeds V SELLER) p = Some (SESS, 255)"
  "sample_find (session_seeds V SELLER2) p = Some (SESS2, 255)"
  "sample_find (session_seeds V 0) p = Some (SESS0, 255)"
  "sample_find (claim_seeds V CLAIM_HASH) p = Some (CLAIM, 255)"
  by (simp_all add: sample_find_def sample_addresses)

section \<open>Transactions\<close>

definition SIG :: "byte list" where "SIG = replicate 64 7"
definition AUTHDATA :: "byte list" where "AUTHDATA = replicate 37 3"

definition client_of :: "passkey_op \<Rightarrow> byte list" where
  "client_of x = client_data_for sample_host (op_message x)"

definition BALANCE :: token_account where
  "BALANCE = \<lparr> ta_mint = USDC_MAINNET, ta_owner = SWIG_WALLET, ta_amount = 1000 \<rparr>"

lemma BALANCE_sel [simp]: "ta_owner BALANCE = SWIG_WALLET" "ta_amount BALANCE = 1000"
  by (simp_all add: BALANCE_def)

definition sample_tokens :: "pubkey \<Rightarrow> token_account option" where
  "sample_tokens k = (if k = ATA then Some BALANCE else None)"

definition env_with :: "instructions_sysvar \<Rightarrow> i64 \<Rightarrow> tx_env" where
  "env_with sv t = \<lparr> now = t, sysvar = sv, signers = [AUTH, SELLER, SELLER2, FIN_WALLET],
     tokens = sample_tokens \<rparr>"

text \<open>A transaction with a passkey ceremony for \<open>x\<close>, one with a signed voucher, one with neither.\<close>

definition passkey_env :: "passkey_op \<Rightarrow> i64 \<Rightarrow> tx_env" where
  "passkey_env x t = env_with (ceremony_sysvar sample_host PASSKEY AUTHDATA (op_message x) SIG) t"

definition voucher_env :: "u64 \<Rightarrow> u32 \<Rightarrow> i64 \<Rightarrow> tx_env" where
  "voucher_env amount sq t = env_with (voucher_sysvar SKEY (voucher_message (fill 5) amount sq) SIG) t"

definition plain_env :: "i64 \<Rightarrow> tx_env" where
  "plain_env t = env_with \<lparr> current_index = 0, tx_instructions = [] \<rparr> t"

lemma env_simps [simp]:
  "now (env_with sv t) = t" "sysvar (env_with sv t) = sv"
  "signers (env_with sv t) = [AUTH, SELLER, SELLER2, FIN_WALLET]"
  "tokens (env_with sv t) = sample_tokens"
  "now (passkey_env x t) = t" "signers (passkey_env x t) = [AUTH, SELLER, SELLER2, FIN_WALLET]"
  "tokens (passkey_env x t) = sample_tokens"
  "now (voucher_env m q t) = t" "signers (voucher_env m q t) = [AUTH, SELLER, SELLER2, FIN_WALLET]"
  "tokens (voucher_env m q t) = sample_tokens"
  "now (plain_env t) = t" "signers (plain_env t) = [AUTH, SELLER, SELLER2, FIN_WALLET]"
  "tokens (plain_env t) = sample_tokens"
  by (simp_all add: env_with_def passkey_env_def voucher_env_def plain_env_def)

lemma sample_tokens_ATA [simp]:
  "sample_tokens ATA = Some BALANCE"
  by (simp add: sample_tokens_def)

lemma sample_authorized [simp]:
  "passkey_authorized sample_host (sysvar (passkey_env x t)) PASSKEY (client_of x) AUTHDATA
     (op_message x)"
  unfolding passkey_env_def env_simps client_of_def
  by (rule honest_ceremony_authorized) (simp_all add: AUTHDATA_def SIG_def)

lemma sample_signed [simp]:
  "session_signed (sysvar (voucher_env m q t)) SKEY (voucher_message (fill 5) m q)"
  unfolding voucher_env_def env_simps by (rule honest_voucher_signed) (simp add: SIG_def)

lemma sample_pairs [simp]:
  "seeds_canonical sample_host (swig_wallet_seeds SWIG) p SWIG_WALLET"
  "seeds_canonical sample_host (swig_wallet_seeds FIN) p FIN_WALLET"
  by (simp_all add: seeds_canonical_def sample_finds)

definition sample_swig :: swig_world where
  "sample_swig = \<lparr> swig_lib = \<lparr> authority_code = \<lambda>_. 1, action_len = 8,
       action_header = \<lambda>a l b. Some (le_bytes 2 (1 :: u16) @ le_bytes 2 l @ le_bytes 4 b),
       body_len = \<lambda>a. 0, body_bytes = \<lambda>a. Some [] \<rparr>,
     swig_cpi = \<lambda>ds ix. True \<rparr>"

section \<open>A vault, its swig and a session\<close>

definition init_args :: initialize_vault_args where
  "init_args = \<lparr> iv_passkey_pubkey = PASSKEY, iv_cooling_off_seconds = 60,
     iv_identity_claim = IDENTITY \<rparr>"

definition V0 :: vault where
  "V0 = \<lparr> version = 6, bump = 255, passkey_pubkey = PASSKEY, swig_address = 0,
     cooling_off_seconds = 60, pending_voucher_count = 0, pending_withdrawal = None,
     identity_claim = IDENTITY, dexter_authority = AUTH, live_session_count = 0,
     outstanding_locked_amount = 0, total_crystallized_amount = 0, total_settled_amount = 0,
     borrowed = 0, standby_backer = None, standby_cap = 0, borrow_recovery_at = None \<rparr>"

definition V1 :: vault where "V1 = V0\<lparr>swig_address := SWIG\<rparr>"
definition V2 :: vault where "V2 = V1\<lparr>live_session_count := 1\<rparr>"

definition swig_args :: set_swig_args where
  "swig_args = \<lparr> ss_swig_address = SWIG, ss_client_data_json = client_of (OpSetSwig SWIG),
     ss_authenticator_data = AUTHDATA \<rparr>"

definition register_op :: "pubkey \<Rightarrow> u64 \<Rightarrow> passkey_op" where
  "register_op seller cap = OpRegister V SKEY cap 5000 seller 1 500"

definition register_args :: "pubkey \<Rightarrow> u64 \<Rightarrow> register_session_key_args" where
  "register_args seller cap = \<lparr> ra_session_pubkey = SKEY, ra_max_amount = cap, ra_expires_at = 5000,
     ra_allowed_counterparty = seller, ra_nonce = 1, ra_max_revolving_capacity = 500,
     ra_client_data_json = client_of (register_op seller cap), ra_authenticator_data = AUTHDATA \<rparr>"

definition register_accs :: "pubkey \<Rightarrow> (pubkey \<times> bool) list \<Rightarrow> register_session_key_accounts" where
  "register_accs sk sibs = \<lparr> rg_vault = V, rg_usdc_ata = ATA, rg_swig = SWIG,
     rg_swig_wallet = SWIG_WALLET, rg_session = sk, rg_payer = AUTH, rg_siblings = sibs \<rparr>"

definition S0 :: session_account where
  "S0 = \<lparr> sa_version = 1, sa_bump = 255, sa_vault = V,
     sa_session = registration_of (register_args SELLER 400) \<rparr>"

definition L1 :: ledger where "L1 = put_vault empty_ledger V V0"
definition L2 :: ledger where "L2 = put_vault L1 V V1"
definition L3 :: ledger where "L3 = put_session (put_vault L2 V V2) SESS S0"

lemma empty_ledger_sel [simp]:
  "vaults empty_ledger k = None" "sessions empty_ledger k = None" "claims empty_ledger k = None"
  "backers empty_ledger k = None"
  by (simp_all add: empty_ledger_def)

lemma put_sel [simp]:
  "vaults (put_vault l k v) = (vaults l)(k \<mapsto> v)" "sessions (put_vault l k v) = sessions l"
  "claims (put_vault l k v) = claims l" "backers (put_vault l k v) = backers l"
  "vaults (put_session l k a) = vaults l" "sessions (put_session l k a) = (sessions l)(k \<mapsto> a)"
  "claims (put_session l k a) = claims l" "backers (put_session l k a) = backers l"
  "vaults (put_claim l k c) = vaults l" "sessions (put_claim l k c) = sessions l"
  "claims (put_claim l k c) = (claims l)(k \<mapsto> c)" "backers (put_claim l k c) = backers l"
  "vaults (put_backer l k b) = vaults l" "sessions (put_backer l k b) = sessions l"
  "claims (put_backer l k b) = claims l" "backers (put_backer l k b) = (backers l)(k \<mapsto> b)"
  by (simp_all add: put_defs)

lemma sample_init:
  "exec sample_host sample_swig (plain_env 1000) (InitializeVault V AUTH AUTH init_args) empty_ledger
     = Inr L1"
  by (simp add: L1_def result_simps initialize_vault_eq_Inr init_args_def sample_finds
      valid_passkey_prefix_def V0_def PASSKEY_def)

lemma sample_set_swig:
  "exec sample_host sample_swig (passkey_env (OpSetSwig SWIG) 1000) (SetSwig V swig_args) L1 = Inr L2"
  using sample_authorized [of "OpSetSwig SWIG" 1000]
  by (simp add: L2_def L1_def result_simps set_swig_eq_Inr swig_args_def V1_def V0_def
      any_supported_version_def)

lemma register_op_message:
  "register_message V (register_args seller cap) = op_message (register_op seller cap)"
  by (simp add: register_message_def register_args_def register_op_def)

lemma register_args_sel [simp]:
  "ra_allowed_counterparty (register_args seller cap) = seller"
  "ra_max_amount (register_args seller cap) = cap"
  "ra_max_revolving_capacity (register_args seller cap) = 500"
  "ra_expires_at (register_args seller cap) = 5000"
  "ra_client_data_json (register_args seller cap) = client_of (register_op seller cap)"
  "ra_authenticator_data (register_args seller cap) = AUTHDATA"
  by (simp_all add: register_args_def)

lemma register_accs_sel [simp]:
  "rg_vault (register_accs sk sibs) = V" "rg_usdc_ata (register_accs sk sibs) = ATA"
  "rg_swig (register_accs sk sibs) = SWIG" "rg_swig_wallet (register_accs sk sibs) = SWIG_WALLET"
  "rg_session (register_accs sk sibs) = sk" "rg_payer (register_accs sk sibs) = AUTH"
  "rg_siblings (register_accs sk sibs) = sibs"
  by (simp_all add: register_accs_def)

lemma sample_vault_sel [simp]:
  "version V1 = 6" "passkey_pubkey V1 = PASSKEY" "swig_address V1 = SWIG"
  "live_session_count V1 = 0" "outstanding_locked_amount V1 = 0" "dexter_authority V1 = AUTH"
  "version V2 = 6" "passkey_pubkey V2 = PASSKEY" "swig_address V2 = SWIG"
  "live_session_count V2 = 1" "outstanding_locked_amount V2 = 0" "dexter_authority V2 = AUTH"
  "borrowed V2 = 0" "standby_backer V2 = None" "pending_voucher_count V2 = 0"
  by (simp_all add: V2_def V1_def V0_def)

lemma L2_sel [simp]: "vaults L2 V = Some V1" "sessions L2 k = None"
  by (simp_all add: L2_def L1_def)

lemma sample_register:
  "exec sample_host sample_swig (passkey_env (register_op SELLER 400) 1000)
     (RegisterSessionKey (register_accs SESS []) (register_args SELLER 400)) L2 = Inr L3"
  unfolding exec_register_eq
  by (rule exI [of _ V1], rule exI [of _ BALANCE],
      rule exI [of _ 255], rule exI [of _ 1])
    (simp add: sample_finds register_op_message admitted_def siblings_of_def existing_session_def
      session_is_new_def fresh_session_account_def count_after_def registered_ledger_def
      registered_session_def L3_def S0_def V2_def put_vault_def)

section \<open>A lock and a loan\<close>

definition lock_accs :: lock_voucher_accounts where
  "lock_accs = \<lparr> lk_vault = V, lk_usdc_ata = ATA, lk_swig = SWIG, lk_swig_wallet = SWIG_WALLET,
     lk_session = SESS, lk_claim = CLAIM, lk_seller_holder = SELLER, lk_dexter_authority = AUTH,
     lk_payer = AUTH \<rparr>"

definition lock_args :: lock_voucher_args where
  "lock_args = \<lparr> lk_channel_id = fill 5, lk_cumulative_amount = 100, lk_sequence_number = 1,
     lk_voucher_hash = CLAIM_HASH, lk_maturity_at = Some 2000, lk_holder_recovery_at = Some 3000,
     lk_allowed_counterparty = SELLER \<rparr>"

definition S1 :: session_account where
  "S1 = S0\<lparr>sa_session := graduate_session (sa_session S0) 100 1\<rparr>"

definition C0 :: locked_claim where
  "C0 = new_claim (voucher_env 100 1 1000) V (sa_session S0) 255 SELLER lock_args"

definition V3 :: vault where
  "V3 = V2\<lparr>outstanding_locked_amount := 100, total_crystallized_amount := 100\<rparr>"

definition L4 :: ledger where "L4 = put_claim (put_session (put_vault L3 V V3) SESS S1) CLAIM C0"

lemma S0_sel [simp]:
  "sa_version S0 = 1" "sa_bump S0 = 255" "sa_vault S0 = V"
  "sa_session S0 = registration_of (register_args SELLER 400)"
  by (simp_all add: S0_def)

lemma registration_sel [simp]:
  "sr_session_pubkey (registration_of args) = ra_session_pubkey args"
  "sr_max_amount (registration_of args) = ra_max_amount args"
  "sr_expires_at (registration_of args) = ra_expires_at args"
  "sr_allowed_counterparty (registration_of args) = ra_allowed_counterparty args"
  "sr_max_revolving_capacity (registration_of args) = ra_max_revolving_capacity args"
  "sr_spent (registration_of args) = 0" "sr_crystallized_cumulative (registration_of args) = 0"
  "sr_current_outstanding (registration_of args) = 0" "frontier (registration_of args) = 0"
  by (simp_all add: registration_of_def frontier_def)

lemma register_args_key [simp]: "ra_session_pubkey (register_args seller cap) = SKEY"
  by (simp add: register_args_def)

lemma lock_sel [simp]:
  "lk_vault lock_accs = V" "lk_usdc_ata lock_accs = ATA" "lk_swig lock_accs = SWIG"
  "lk_swig_wallet lock_accs = SWIG_WALLET" "lk_session lock_accs = SESS" "lk_claim lock_accs = CLAIM"
  "lk_seller_holder lock_accs = SELLER" "lk_dexter_authority lock_accs = AUTH"
  "lk_payer lock_accs = AUTH" "lk_channel_id lock_args = fill 5" "lk_cumulative_amount lock_args = 100"
  "lk_sequence_number lock_args = 1" "lk_voucher_hash lock_args = CLAIM_HASH"
  "lk_maturity_at lock_args = Some 2000" "lk_holder_recovery_at lock_args = Some 3000"
  "lk_allowed_counterparty lock_args = SELLER"
  by (simp_all add: lock_accs_def lock_args_def)

lemma L3_sel [simp]: "vaults L3 V = Some V2" "sessions L3 SESS = Some S0" "claims L3 k = None"
  by (simp_all add: L3_def L2_def L1_def)

lemma V2_sel [simp]: "total_crystallized_amount V2 = 0" "SWIG \<noteq> 0"
  by (simp_all add: V2_def V1_def V0_def SWIG_def)

lemma sample_lock_voucher:
  "lock_voucher sample_host (voucher_env 100 1 1000) V2 S0 None lock_accs lock_args =
     Inr (V3, S1, C0)"
proof -
  let ?ata = BALANCE
  have "lock_delta (sa_session S0) 100 = 100" by (simp add: lock_delta_def)
  then have "lock_voucher_handler sample_host (voucher_env 100 1 1000) V2 V ?ata SWIG_WALLET S0 255
      SELLER lock_args = Inr (V3, S1, C0)"
    unfolding lock_voucher_handler_eq_Inr
    by (intro conjI exI [of _ "100 :: u64"])
      (simp_all add: recovery_follows_maturity_def CLAIM_HASH_def V3_def S1_def C0_def
        saturating_add_def)
  then show ?thesis
    unfolding lock_voucher_eq_Inr
    by (intro exI [of _ ?ata] exI [of _ 255]) (simp add: sample_finds sample_addresses)
qed

lemma sample_lock:
  "exec sample_host sample_swig (voucher_env 100 1 1000) (LockVoucher lock_accs lock_args) L3
     = Inr L4"
  by (simp add: sample_lock_voucher load_def result_simps L4_def)

definition reserve_accs :: set_standby_reserve_accounts where
  "reserve_accs = \<lparr> sr_financier_swig = FIN, sr_financier_swig_wallet = FIN_WALLET,
     sr_standby_backer = RESERVE, sr_fee_payer = AUTH \<rparr>"

definition B0 :: standby_backer_ledger where
  "B0 = \<lparr> sb_version = 1, sb_bump = 255, sb_financier_swig = FIN, sb_committed_reserve = 500,
     sb_aggregate_promised = 0, sb_reserve_kind = Declared \<rparr>"

definition L5 :: ledger where "L5 = put_backer L4 RESERVE B0"

lemma sample_reserve:
  "exec sample_host sample_swig (plain_env 1000) (SetStandbyReserve reserve_accs 500) L4 = Inr L5"
  by (simp add: result_simps set_standby_reserve_eq_Inr reserve_accs_def sample_finds L5_def B0_def
      reserved_ledger_def fresh_standby_backer_def L4_def L3_def L2_def L1_def)

definition standby_args :: open_standby_args where
  "standby_args = \<lparr> os_cap = 200, os_client_data_json = client_of (OpOpenStandby V FIN 200),
     os_authenticator_data = AUTHDATA \<rparr>"

definition V4 :: vault where "V4 = V3\<lparr>standby_backer := Some FIN, standby_cap := 200\<rparr>"
definition B1 :: standby_backer_ledger where "B1 = B0\<lparr>sb_aggregate_promised := 200\<rparr>"
definition L6 :: ledger where "L6 = put_backer (put_vault L5 V V4) RESERVE B1"

lemma sample_open_standby:
  "open_standby sample_host (passkey_env (OpOpenStandby V FIN 200) 1000) V3 V FIN B0 RESERVE
     standby_args = Inr (V4, B1)"
  using sample_authorized [of "OpOpenStandby V FIN 200" 1000]
  by (simp add: open_standby_eq_Inr standby_args_def sample_addresses B0_def B1_def V4_def V3_def
      credit_version_def promise_replaced_def current_cap_def exI [of _ "200 :: 64 word"])

lemma sample_open:
  "exec sample_host sample_swig (passkey_env (OpOpenStandby V FIN 200) 1000)
     (OpenStandby V FIN RESERVE standby_args) L5 = Inr L6"
proof -
  have "vaults L5 V = Some V3" "backers L5 RESERVE = Some B0"
    by (simp_all add: L5_def L4_def)
  then show ?thesis
    by (simp add: load_def result_simps sample_open_standby L6_def)
qed

definition draw_accs :: draw_credit_accounts where
  "draw_accs = \<lparr> dc_financier_swig = FIN, dc_financier_swig_wallet = FIN_WALLET,
     dc_dexter_authority = AUTH \<rparr>"

definition draw_args :: draw_credit_args where
  "draw_args = \<lparr> dc_amount = 50, dc_recovery_window_seconds = 600 \<rparr>"

definition V5 :: vault where "V5 = V4\<lparr>borrowed := 50, borrow_recovery_at := Some 1600\<rparr>"
definition L7 :: ledger where "L7 = put_vault L6 V V5"

lemma sample_draw:
  "exec sample_host sample_swig (plain_env 1000) (DrawCredit V draw_accs draw_args) L6 = Inr L7"
  by (simp add: result_simps draw_credit_eq_Inr draw_credit_handler_eq_Inr draw_accs_def
      draw_args_def L7_def L6_def V5_def V4_def V3_def V2_def V1_def V0_def credit_version_def
      deadline_after_def checked_add_i64_def i64_fits_def)

section \<open>The reachable ledger\<close>

lemma reach_exec:
  assumes "reachable h sw allowed l" and "allowed ix" and "exec h sw e ix l = Inr l'"
  shows "reachable h sw allowed l'"
  using assms by (blast intro: reachable.step ledger_step.intros)

lemma sample_reachable:
  "reachable sample_host sample_swig nonzero_counterparty L1"
  "reachable sample_host sample_swig nonzero_counterparty L2"
  "reachable sample_host sample_swig nonzero_counterparty L3"
  "reachable sample_host sample_swig nonzero_counterparty L4"
  "reachable sample_host sample_swig nonzero_counterparty L7"
proof -
  show L1: "reachable sample_host sample_swig nonzero_counterparty L1"
    by (rule reach_exec [OF reachable.init _ sample_init]) (simp add: nonzero_counterparty_def)
  then show L2: "reachable sample_host sample_swig nonzero_counterparty L2"
    by (rule reach_exec [OF _ _ sample_set_swig]) (simp add: nonzero_counterparty_def)
  then show L3: "reachable sample_host sample_swig nonzero_counterparty L3"
    by (rule reach_exec [OF _ _ sample_register])
      (simp add: nonzero_counterparty_def SELLER_def)
  then show L4: "reachable sample_host sample_swig nonzero_counterparty L4"
    by (rule reach_exec [OF _ _ sample_lock]) (simp add: nonzero_counterparty_def)
  then have "reachable sample_host sample_swig nonzero_counterparty L5"
    by (rule reach_exec [OF _ _ sample_reserve]) (simp add: nonzero_counterparty_def)
  then have "reachable sample_host sample_swig nonzero_counterparty L6"
    by (rule reach_exec [OF _ _ sample_open]) (simp add: nonzero_counterparty_def)
  then show "reachable sample_host sample_swig nonzero_counterparty L7"
    by (rule reach_exec [OF _ _ sample_draw]) (simp add: nonzero_counterparty_def)
qed

lemmas sample_reachable_all = sample_reachable [THEN reachable_mono, of "\<lambda>_. True", simplified]

section \<open>A second seller\<close>

text \<open>With a claim of 100 outstanding and a session of cap 400, a second session of cap 400 fits the
  balance of 1000.\<close>

definition S2 :: session_account where
  "S2 = \<lparr> sa_version = 1, sa_bump = 255, sa_vault = V,
     sa_session = registration_of (register_args SELLER2 400) \<rparr>"

definition L8 :: ledger where
  "L8 = put_session (put_vault L4 V (V3\<lparr>live_session_count := 2\<rparr>)) SESS2 S2"

lemma V3_sel [simp]:
  "version V3 = 6" "passkey_pubkey V3 = PASSKEY" "swig_address V3 = SWIG"
  "live_session_count V3 = 1" "outstanding_locked_amount V3 = 100"
  by (simp_all add: V3_def)

lemma L4_sel [simp]: "vaults L4 V = Some V3" "sessions L4 SESS = Some S1" "claims L4 CLAIM = Some C0"
  "sessions L4 SESS2 = None"
  by (simp_all add: L4_def L3_def L2_def L1_def SESS_def SESS2_def)

lemma S1_sel [simp]:
  "sa_version S1 = 1" "sa_bump S1 = 255" "sa_vault S1 = V"
  "sr_max_amount (sa_session S1) = 400" "sr_expires_at (sa_session S1) = 5000"
  "sr_allowed_counterparty (sa_session S1) = SELLER"
  by (simp_all add: S1_def graduate_session_def)

lemma sessions_differ [simp]: "SESS \<noteq> SESS2" "SESS2 \<noteq> SESS"
  by (simp_all add: SESS_def SESS2_def)

lemma sample_register2:
  "exec sample_host sample_swig (passkey_env (register_op SELLER2 400) 1500)
     (RegisterSessionKey (register_accs SESS2 [(SESS, False)]) (register_args SELLER2 400)) L4
     = Inr L8"
  unfolding exec_register_eq
  by (rule exI [of _ V3], rule exI [of _ BALANCE],
      rule exI [of _ 255], rule exI [of _ 2])
    (simp add: sample_finds register_op_message admitted_def siblings_of_def existing_session_def
      session_is_new_def fresh_session_account_def count_after_def registered_ledger_def
      registered_session_def L8_def S2_def put_vault_def good_sibling_def session_at_def
      sample_addresses sib_live_def live_at_def sib_cap_def)

end
