(* ===== verification/Control.thy ===== *)
theory Control
  imports Admission
begin

text \<open>
  What one instruction may do to a given account, whichever instruction it is: who has to consent
  before the control data of a vault changes, how the frontier of a session moves, and what becomes of
  a claim. The properties of runs follow by induction.
\<close>

section \<open>Control of a vault\<close>

definition same_control :: "vault \<Rightarrow> vault \<Rightarrow> bool" where
  "same_control v v' \<longleftrightarrow>
     version v' = version v \<and> bump v' = bump v \<and> passkey_pubkey v' = passkey_pubkey v \<and>
     swig_address v' = swig_address v \<and> cooling_off_seconds v' = cooling_off_seconds v \<and>
     pending_withdrawal v' = pending_withdrawal v \<and> identity_claim v' = identity_claim v \<and>
     dexter_authority v' = dexter_authority v"

text \<open>The passkey of \<open>v\<close> signed operation \<open>x\<close> in the transaction.\<close>

definition passkey_signs :: "host \<Rightarrow> tx_env \<Rightarrow> vault \<Rightarrow> passkey_op \<Rightarrow> bool" where
  "passkey_signs h e v x \<longleftrightarrow>
     (\<exists>cdj ad. passkey_authorized h (sysvar e) (passkey_pubkey v) cdj ad (op_message x))"

lemma passkey_signsI:
  "passkey_authorized h (sysvar e) (passkey_pubkey v) cdj ad (op_message x) \<Longrightarrow> passkey_signs h e v x"
  by (auto simp: passkey_signs_def)

definition withdrawal_consent :: "host \<Rightarrow> tx_env \<Rightarrow> vault \<Rightarrow> pending_withdrawal option \<Rightarrow> bool" where
  "withdrawal_consent h e v w \<longleftrightarrow>
     (case w of
        Some p \<Rightarrow> passkey_signs h e v
          (OpRequestWithdrawal (pw_amount p) (pw_destination p) (pw_requested_at p))
      | None \<Rightarrow> (\<exists>p. pending_withdrawal v = Some p \<and>
          passkey_signs h e v (OpFinalizeWithdrawal (pw_amount p) (pw_destination p))))"

definition control_step :: "host \<Rightarrow> tx_env \<Rightarrow> vault \<Rightarrow> vault \<Rightarrow> bool" where
  "control_step h e v v' \<longleftrightarrow>
     version v' = version v \<and> bump v' = bump v \<and> identity_claim v' = identity_claim v \<and>
     cooling_off_seconds v' = cooling_off_seconds v \<and>
     (passkey_pubkey v' = passkey_pubkey v \<or>
        passkey_signs h e v (OpRotatePasskey (passkey_pubkey v'))) \<and>
     (swig_address v' = swig_address v \<or>
        swig_address v = 0 \<and> passkey_signs h e v (OpSetSwig (swig_address v'))) \<and>
     (dexter_authority v' = dexter_authority v \<or>
        dexter_authority v \<in> set (signers e) \<and> dexter_authority v' \<noteq> 0) \<and>
     (pending_withdrawal v' = pending_withdrawal v \<or>
        withdrawal_consent h e v (pending_withdrawal v'))"

lemma control_step_same: "same_control v v' \<Longrightarrow> control_step h e v v'"
  by (simp add: same_control_def control_step_def)

lemma same_control_refl [simp]: "same_control v v"
  by (simp add: same_control_def)

lemma control_step_refl [simp]: "control_step h e v v"
  by (simp add: control_step_same)

text \<open>The instructions that change control data.\<close>

lemma control_step_admin:
  "set_swig h e v args1 = Inr v' \<Longrightarrow> control_step h e v v'"
  "rotate_passkey h e v args2 = Inr v' \<Longrightarrow> control_step h e v v'"
  "rotate_dexter_authority e v a n = Inr v' \<Longrightarrow> control_step h e v v'"
  "request_withdrawal h e v args3 = Inr v' \<Longrightarrow> control_step h e v v'"
  by (auto simp: control_step_def set_swig_eq_Inr rotate_passkey_eq_Inr withdrawal_consent_def
      rotate_dexter_authority_eq_Inr request_withdrawal_eq_Inr passkey_signs_def)

lemma control_step_finalize:
  "finalize_withdrawal h e v accs args = Inr v' \<Longrightarrow> control_step h e v v'"
  by (auto simp: control_step_def finalize_withdrawal_eq_Inr withdrawal_gate_def
      withdrawal_consent_def passkey_signs_def)

lemma control_step_atomic:
  "set_swig_atomic h ss cpi e v accs args = Inr (v', ixs) \<Longrightarrow> control_step h e v v'"
  by (auto simp: control_step_def set_swig_atomic_eq_Inr passkey_signs_def)

text \<open>The others leave it alone.\<close>

lemma same_control_ops:
  "force_release h e v args1 = Inr v' \<Longrightarrow> same_control v v'"
  "settle_voucher h e v k s a args2 = Inr (v', s') \<Longrightarrow> same_control v v'"
  "settle_tab_voucher h e v sa accs3 args3 = Inr (v', sa') \<Longrightarrow> same_control v v'"
  "revoke_session_key h e v k sa sk args4 = Inr (v', sa') \<Longrightarrow> same_control v v'"
  "settle_locked_voucher h e v c accs5 = Inr (v', c') \<Longrightarrow> same_control v v'"
  "recover_abandoned_lock h e v k c ck args6 = Inr (v', c') \<Longrightarrow> same_control v v'"
  "open_standby h e v k f sb bk args7 = Inr (v', sb') \<Longrightarrow> same_control v v'"
  "close_standby h e v sb accs8 args8 = Inr (v', sb') \<Longrightarrow> same_control v v'"
  "draw_credit h e v accs9 args9 = Inr v' \<Longrightarrow> same_control v v'"
  "seize_collateral h e v accs10 = Inr v' \<Longrightarrow> same_control v v'"
  by (auto simp: same_control_def force_release_eq_Inr settle_voucher_eq_Inr
      settle_voucher_handler_eq_Inr settle_tab_voucher_eq_Inr settle_tab_voucher_handler_eq_Inr
      revoke_session_key_eq_Inr settle_locked_voucher_eq_Inr recover_abandoned_lock_eq_Inr
      open_standby_eq_Inr close_standby_eq_Inr draw_credit_eq_Inr draw_credit_handler_eq_Inr
      seize_collateral_eq_Inr split: if_splits)

lemma same_control_repay: "repay_credit h e v accs m = Inr v' \<Longrightarrow> same_control v v'"
  by (auto simp: same_control_def repay_credit_eq_Inr repaid_def Let_def)

lemma same_control_lock:
  "lock_voucher h e v sa ex accs args = Inr (v', sa', c) \<Longrightarrow> same_control v v'"
  by (auto simp: same_control_def lock_voucher_eq_Inr lock_voucher_handler_eq_Inr)

lemma same_control_register:
  "register_session_key h e v ex sibs accs args = Inr (v', sa', cl) \<Longrightarrow> same_control v v'"
  by (auto simp: same_control_def register_session_key_eq_Inr register_session_key_handler_eq_Inr)

text \<open>On the ledger.\<close>

definition controlled :: "host \<Rightarrow> tx_env \<Rightarrow> ledger \<Rightarrow> ledger \<Rightarrow> bool" where
  "controlled h e l l' \<longleftrightarrow>
     (\<forall>k v. vaults l k = Some v \<longrightarrow> (\<exists>v'. vaults l' k = Some v' \<and> control_step h e v v'))"

lemma controlled_write:
  assumes "vaults l j = Some w" and "vaults l' = (vaults l)(j \<mapsto> w')" and "control_step h e w w'"
  shows "controlled h e l l'"
  using assms by (auto simp: controlled_def)

lemma controlled_frame: "vaults l' = vaults l \<Longrightarrow> controlled h e l l'"
  by (simp add: controlled_def)

lemma controlled_same:
  assumes "vaults l j = Some w" and "vaults l' = (vaults l)(j \<mapsto> w')" and "same_control w w'"
  shows "controlled h e l l'"
  using assms by (intro controlled_write control_step_same)

lemma controlled_on_vault:
  assumes "on_vault l j run = Inr l'" and "\<And>w w'. run w = Inr w' \<Longrightarrow> control_step h e w w'"
  shows "controlled h e l l'"
  using assms by (auto simp: result_simps put_defs intro!: controlled_write)

lemma controlled_vault_ops:
  "exec h sw e (SetSwig k args1) l = Inr l' \<Longrightarrow> controlled h e l l'"
  "exec h sw e (RotatePasskey k args2) l = Inr l' \<Longrightarrow> controlled h e l l'"
  "exec h sw e (RotateDexterAuthority k a n) l = Inr l' \<Longrightarrow> controlled h e l l'"
  "exec h sw e (RequestWithdrawal k args3) l = Inr l' \<Longrightarrow> controlled h e l l'"
  "exec h sw e (FinalizeWithdrawal k accs4 args4) l = Inr l' \<Longrightarrow> controlled h e l l'"
  "exec h sw e (ForceRelease k args5) l = Inr l' \<Longrightarrow> controlled h e l l'"
  "exec h sw e (DrawCredit k accs6 args6) l = Inr l' \<Longrightarrow> controlled h e l l'"
  "exec h sw e (RepayCredit k accs7 m) l = Inr l' \<Longrightarrow> controlled h e l l'"
  "exec h sw e (SeizeCollateral k accs8) l = Inr l' \<Longrightarrow> controlled h e l l'"
  by (simp_all, (erule controlled_on_vault, auto intro: control_step_admin control_step_finalize
      control_step_same same_control_ops same_control_repay)+)

lemma controlled_atomic:
  "exec h sw e (SetSwigAtomic k accs args) l = Inr l' \<Longrightarrow> controlled h e l l'"
  by simp (erule controlled_on_vault, auto simp: result_simps intro: control_step_atomic)

lemma controlled_init:
  "exec h sw e (InitializeVault k p a args) l = Inr l' \<Longrightarrow> controlled h e l l'"
  by (auto simp: result_simps initialize_vault_eq_Inr controlled_def put_defs)

lemma controlled_claims:
  "exec h sw e (SettleLockedVoucher accs1) l = Inr l' \<Longrightarrow> controlled h e l l'"
  "exec h sw e (RecoverAbandonedLock k ck args2) l = Inr l' \<Longrightarrow> controlled h e l l'"
  "exec h sw e (TransferLockOwnership ck a n) l = Inr l' \<Longrightarrow> controlled h e l l'"
  "exec h sw e (LockVoucher accs3 args3) l = Inr l' \<Longrightarrow> controlled h e l l'"
  by (auto simp: result_simps put_defs intro: controlled_same controlled_frame same_control_ops
      same_control_lock)

lemma controlled_sessions:
  "exec h sw e (RegisterSessionKey accs1 args1) l = Inr l' \<Longrightarrow> controlled h e l l'"
  "exec h sw e (RevokeSessionKey k sk args2) l = Inr l' \<Longrightarrow> controlled h e l l'"
  "exec h sw e (CloseSession k sk a c) l = Inr l' \<Longrightarrow> controlled h e l l'"
  "exec h sw e (SettleTabVoucher accs3 args3) l = Inr l' \<Longrightarrow> controlled h e l l'"
  by (auto simp: result_simps put_defs Let_def intro: controlled_same controlled_frame
      same_control_ops same_control_register)

lemma controlled_settle:
  assumes "exec h sw e (SettleVoucher k s a args) l = Inr l'"
  shows "controlled h e l l'"
proof (cases s)
  case None
  with assms show ?thesis
    by simp (erule controlled_on_vault,
      auto simp: result_simps split_paired_Ex intro: control_step_same same_control_ops)
next
  case (Some sk)
  with assms show ?thesis
    by (auto simp: result_simps split_paired_Ex put_defs intro: controlled_same same_control_ops)
qed

lemma controlled_rest:
  "exec h sw e (ProvePasskey k args1) l = Inr l' \<Longrightarrow> controlled h e l l'"
  "exec h sw e (SetStandbyReserve accs2 r) l = Inr l' \<Longrightarrow> controlled h e l l'"
  "exec h sw e (OpenStandby k f bk args3) l = Inr l' \<Longrightarrow> controlled h e l l'"
  "exec h sw e (CloseStandby accs4 args4) l = Inr l' \<Longrightarrow> controlled h e l l'"
  by (auto simp: result_simps put_defs intro: controlled_same controlled_frame same_control_ops)

lemmas controlled_steps = controlled_vault_ops controlled_atomic controlled_init controlled_claims
  controlled_sessions controlled_settle controlled_rest

lemma exec_controlled:
  assumes "exec h sw e ix l = Inr l'"
  shows "controlled h e l l'"
  using assms by (cases ix) (auto intro: controlled_steps simp del: exec.simps)

text \<open>Along a run.\<close>

lemma steps_binding:
  assumes "(ledger_step h sw allowed)\<^sup>*\<^sup>* l l'" and "vaults l k = Some v" and "swig_address v \<noteq> 0"
  shows "\<exists>v'. vaults l' k = Some v' \<and> swig_address v' = swig_address v \<and>
    identity_claim v' = identity_claim v \<and> version v' = version v"
  using assms
proof (induction rule: rtranclp_induct)
  case (step m m')
  then obtain w where w: "vaults m k = Some w" "swig_address w = swig_address v"
    "identity_claim w = identity_claim v" "version w = version v" by blast
  from step.hyps(2) obtain ix e where "exec h sw e ix m = Inr m'" by (blast elim: ledger_stepE)
  then have "controlled h e m m'" by (rule exec_controlled)
  with w(1) obtain w' where w': "vaults m' k = Some w'" "control_step h e w w'"
    unfolding controlled_def by blast
  then show ?case using w step.prems(2) by (auto simp: control_step_def)
qed blast

section \<open>Claims along a run\<close>

lemma book_claim:
  assumes "book h nz l l'" and "claims l ck = Some c"
  shows "\<exists>c'. claims l' ck = Some c' \<and> (c' = c \<or> claim_step c c')"
  using assms by (induction rule: book.induct) (auto simp: put_defs)

lemma steps_claim:
  assumes "(ledger_step h sw allowed)\<^sup>*\<^sup>* l l'" and "claims l ck = Some c"
  shows "\<exists>c'. claims l' ck = Some c' \<and> claim_step\<^sup>*\<^sup>* c c'"
  using assms
proof (induction rule: rtranclp_induct)
  case (step m m')
  then obtain c1 where c1: "claims m ck = Some c1" "claim_step\<^sup>*\<^sup>* c c1" by blast
  from step.hyps(2) obtain ix e where "exec h sw e ix m = Inr m'" by (blast elim: ledger_stepE)
  then have "book h False m m'" by (rule exec_books) simp
  from book_claim [OF this c1(1)] obtain c2 where "claims m' ck = Some c2"
    "c2 = c1 \<or> claim_step c1 c2" by blast
  with c1(2) show ?case by (blast intro: rtranclp.rtrancl_into_rtrancl)
qed blast

section \<open>Sessions along a run\<close>

text \<open>\<open>not_registered sk\<close>: the instruction does not register a session key at the address \<open>sk\<close>.\<close>

definition not_registered :: "pubkey \<Rightarrow> vault_instruction \<Rightarrow> bool" where
  "not_registered sk ix \<longleftrightarrow>
     (case ix of RegisterSessionKey accs args \<Rightarrow> rg_session accs \<noteq> sk | _ \<Rightarrow> True)"

definition session_advanced :: "session_account \<Rightarrow> session_account \<Rightarrow> bool" where
  "session_advanced a a' \<longleftrightarrow>
     sa_version a' = sa_version a \<and> sa_bump a' = sa_bump a \<and> sa_vault a' = sa_vault a \<and>
     same_terms (sa_session a) (sa_session a') \<and>
     frontier (sa_session a) \<le> frontier (sa_session a')"

lemma session_advanced_refl [simp]: "session_advanced a a"
  by (simp add: session_advanced_def same_terms_def)

lemma session_advanced_trans:
  "\<lbrakk> session_advanced a b; session_advanced b c \<rbrakk> \<Longrightarrow> session_advanced a c"
  by (auto simp: session_advanced_def same_terms_def)

lemma advanced_settle:
  assumes "settle_tab_voucher h e v a accs args = Inr (v', a')"
  shows "session_advanced a a'"
proof -
  have run: "settle_on_session (h, e, v, accs, args) a = Inr a'"
    using assms by (simp add: settle_on_session_def)
  have "frontier (sa_session a) < frontier (sa_session a')" by (rule settle.frontier_grows [OF run])
  then show ?thesis using settle.keeps_terms [OF run] assms
    by (auto simp: session_advanced_def settle_tab_voucher_eq_Inr settle_tab_voucher_handler_eq_Inr)
qed

lemma advanced_lock:
  assumes "lock_voucher h e v a ex accs args = Inr (v', a', c)"
  shows "session_advanced a a'"
proof -
  have run: "lock_on_session (h, e, v, ex, accs, args) a = Inr a'"
    using assms by (simp add: lock_on_session_def)
  have "frontier (sa_session a) < frontier (sa_session a')" by (rule lock.frontier_grows [OF run])
  then show ?thesis using lock.keeps_terms [OF run] assms
    by (auto simp: session_advanced_def lock_voucher_eq_Inr lock_voucher_handler_eq_Inr)
qed

lemma advanced_meter:
  assumes "settle_voucher h e v k (Some (sk, a)) auth args = Inr (v', a')"
  shows "\<exists>b. a' = Some b \<and> session_advanced a b"
  using assms
  by (auto simp: settle_voucher_eq_Inr settle_voucher_handler_eq_Inr session_advanced_def
      same_terms_def frontier_def split: if_splits)

text \<open>What becomes of a session account that is not registered anew: it advances, or it is cleared
  (by a revocation, or by the sweep of another registration), or it is closed.\<close>

definition session_fate :: "session_account option \<Rightarrow> session_account option \<Rightarrow> bool" where
  "session_fate x y \<longleftrightarrow>
     (\<forall>b. y = Some b \<longrightarrow> sa_version b = 0 \<or> (\<exists>a. x = Some a \<and> session_advanced a b))"

lemma session_fate_refl [simp]: "session_fate x x"
  by (simp add: session_fate_def)

lemma session_fate_trans:
  assumes "session_fate x y" and "session_fate y z"
  shows "session_fate x z"
  unfolding session_fate_def
proof (intro allI impI)
  fix c assume c: "z = Some c"
  with assms(2) consider "sa_version c = 0" | b where "y = Some b" "session_advanced b c"
    unfolding session_fate_def by blast
  then show "sa_version c = 0 \<or> (\<exists>a. x = Some a \<and> session_advanced a c)"
  proof cases
    case (2 b)
    with assms(1) have "sa_version b = 0 \<or> (\<exists>a. x = Some a \<and> session_advanced a b)"
      unfolding session_fate_def by blast
    with 2 show ?thesis by (auto simp: session_advanced_def same_terms_def)
  qed blast
qed

lemma session_fate_advanced: "session_advanced a b \<Longrightarrow> session_fate (Some a) (Some b)"
  by (simp add: session_fate_def)

lemma session_fate_cleared:
  assumes "\<And>j x. (j, x) \<in> set kxs \<Longrightarrow> sa_version x = 0"
  shows "session_fate (m k) (upd_all m kxs k)"
  unfolding session_fate_def
proof (intro allI impI)
  fix b assume "upd_all m kxs k = Some b"
  then show "sa_version b = 0 \<or> (\<exists>a. m k = Some a \<and> session_advanced a b)"
    using upd_all_cases [of m kxs k b] assms session_advanced_refl by blast
qed

lemma exec_on_vault_sessions: "on_vault l k run = Inr l' \<Longrightarrow> sessions l' = sessions l"
  by (auto simp: result_simps put_defs)

lemma fate_meter:
  assumes "exec h sw e (SettleVoucher k s auth args) l = Inr l'"
  shows "session_fate (sessions l sk) (sessions l' sk)"
proof (cases s)
  case None
  with assms show ?thesis by (auto dest: exec_on_vault_sessions)
next
  case (Some j)
  with assms obtain v sa v' sa' where "sessions l j = Some sa"
    "settle_voucher h e v k (Some (j, sa)) auth args = Inr (v', sa')"
    "sessions l' = (sessions l)(j \<mapsto> (case sa' of None \<Rightarrow> sa | Some x \<Rightarrow> x))"
    by (auto simp: result_simps put_defs)
  then show ?thesis by (auto dest!: advanced_meter intro: session_fate_advanced)
qed

lemma fate_vouchers:
  "exec h sw e (SettleTabVoucher accs1 args1) l = Inr l' \<Longrightarrow>
     session_fate (sessions l sk) (sessions l' sk)"
  "exec h sw e (LockVoucher accs2 args2) l = Inr l' \<Longrightarrow>
     session_fate (sessions l sk) (sessions l' sk)"
  by (auto simp: result_simps put_defs dest!: advanced_settle advanced_lock
      intro: session_fate_advanced)

lemma fate_ended:
  "exec h sw e (RevokeSessionKey k j args1) l = Inr l' \<Longrightarrow>
     session_fate (sessions l sk) (sessions l' sk)"
  "exec h sw e (CloseSession k j a c) l = Inr l' \<Longrightarrow>
     session_fate (sessions l sk) (sessions l' sk)"
  by (auto simp: result_simps put_defs revoke_session_key_eq_Inr clear_session_def session_fate_def
      split: if_splits)

lemma fate_register:
  assumes "exec h sw e (RegisterSessionKey accs args) l = Inr l'" and "rg_session accs \<noteq> sk"
  shows "session_fate (sessions l sk) (sessions l' sk)"
proof -
  from assms obtain v sa' n where "sessions l' = (upd_all (sessions l)
      (map sib_clear (filter (Not \<circ> sib_live n) (siblings_of l (rg_siblings accs)))))
      (rg_session accs \<mapsto> sa')"
    by (auto simp: result_simps put_defs Let_def register_session_key_eq_Inr
        register_session_key_handler_eq_Inr)
  with assms(2) show ?thesis
    by (auto simp: sib_clear_def clear_session_def intro!: session_fate_cleared)
qed

lemma exec_session_fate:
  assumes "exec h sw e ix l = Inr l'" and "not_registered sk ix"
  shows "session_fate (sessions l sk) (sessions l' sk)"
proof (cases ix)
  case (SettleVoucher k s a args)
  with assms show ?thesis using fate_meter by blast
next
  case (SettleTabVoucher accs args)
  with assms show ?thesis using fate_vouchers(1) by blast
next
  case (LockVoucher accs args)
  with assms show ?thesis using fate_vouchers(2) by blast
next
  case (RegisterSessionKey accs args)
  with assms show ?thesis using fate_register by (simp add: not_registered_def del: exec.simps)
next
  case (RevokeSessionKey k j args)
  with assms show ?thesis using fate_ended(1) by blast
next
  case (CloseSession k j a c)
  with assms show ?thesis using fate_ended(2) by blast
qed (use assms in \<open>auto simp: result_simps put_defs\<close>)

lemma steps_session_fate:
  assumes "(ledger_step h sw (not_registered sk))\<^sup>*\<^sup>* l l'"
  shows "session_fate (sessions l sk) (sessions l' sk)"
  using assms
proof (induction rule: rtranclp_induct)
  case (step m m')
  from step.hyps(2) have "session_fate (sessions m sk) (sessions m' sk)"
    by (blast elim: ledger_stepE intro: exec_session_fate)
  with step.IH show ?case by (rule session_fate_trans)
qed simp

text \<open>Below the frontier of a session no voucher is accepted.\<close>

lemma settle_above:
  assumes "exec h sw e (SettleTabVoucher accs args) l = Inr l'"
  shows "\<exists>a. sessions l (st_session accs) = Some a \<and> sa_version a \<noteq> 0 \<and>
    frontier (sa_session a) < st_cumulative_amount args"
  using assms by (auto simp: result_simps settle_tab_voucher_eq_Inr settle_tab_voucher_handler_eq_Inr)

lemma lock_above:
  assumes "exec h sw e (LockVoucher accs args) l = Inr l'"
  shows "\<exists>a. sessions l (lk_session accs) = Some a \<and> sa_version a \<noteq> 0 \<and>
    frontier (sa_session a) < lk_cumulative_amount args"
  using assms by (auto simp: result_simps lock_voucher_eq_Inr lock_voucher_handler_eq_Inr)

lemma settled_frontier:
  assumes "exec h sw e (SettleTabVoucher accs args) l = Inr l'"
  shows "\<exists>a. sessions l' (st_session accs) = Some a \<and>
    frontier (sa_session a) = st_cumulative_amount args"
proof -
  from assms obtain v sa v' sa' where "settle_tab_voucher h e v sa accs args = Inr (v', sa')"
    and l': "l' = put_session (put_vault l (st_vault accs) v') (st_session accs) sa'"
    by (auto simp: result_simps)
  then have "settle_on_session (h, e, v, accs, args) sa = Inr sa'"
    by (simp add: settle_on_session_def)
  from settle.frontier_after [OF this] show ?thesis by (simp add: l' put_defs)
qed

lemma locked_frontier:
  assumes "exec h sw e (LockVoucher accs args) l = Inr l'"
  shows "\<exists>a. sessions l' (lk_session accs) = Some a \<and>
    frontier (sa_session a) = lk_cumulative_amount args"
proof -
  from assms obtain v sa v' sa' c where
    "lock_voucher h e v sa (claims l (lk_claim accs)) accs args = Inr (v', sa', c)"
    and l': "l' = put_claim (put_session (put_vault l (lk_vault accs) v') (lk_session accs) sa')
      (lk_claim accs) c"
    by (auto simp: result_simps)
  then have "lock_on_session (h, e, v, claims l (lk_claim accs), accs, args) sa = Inr sa'"
    by (simp add: lock_on_session_def)
  from lock.frontier_after [OF this] show ?thesis by (simp add: l' put_defs)
qed

text \<open>The session and the cumulative amount of an instruction that spends a voucher.\<close>

fun voucher_of :: "vault_instruction \<Rightarrow> (pubkey \<times> u64) option" where
  "voucher_of (SettleTabVoucher accs args) = Some (st_session accs, st_cumulative_amount args)"
| "voucher_of (LockVoucher accs args) = Some (lk_session accs, lk_cumulative_amount args)"
| "voucher_of _ = None"

fun_cases voucher_of_eq_SomeE: "voucher_of ix = Some sn"

lemma voucher_above:
  assumes "exec h sw e ix l = Inr l'" and "voucher_of ix = Some (sk, n)"
  shows "\<exists>a. sessions l sk = Some a \<and> sa_version a \<noteq> 0 \<and> frontier (sa_session a) < n"
  using assms(2,1)
  by (elim voucher_of_eq_SomeE) (auto dest: settle_above lock_above simp del: exec.simps)

lemma voucher_frontier:
  assumes "exec h sw e ix l = Inr l'" and "voucher_of ix = Some (sk, n)"
  shows "\<exists>a. sessions l' sk = Some a \<and> frontier (sa_session a) = n"
  using assms(2,1)
  by (elim voucher_of_eq_SomeE) (auto dest: settled_frontier locked_frontier simp del: exec.simps)

lemma frontier_kept:
  assumes "(ledger_step h sw (not_registered sk))\<^sup>*\<^sup>* l l'" and "sessions l sk = Some a"
    and "sessions l' sk = Some b" and "sa_version b \<noteq> 0"
  shows "session_advanced a b"
  using steps_session_fate [OF assms(1)] assms(2-4) by (auto simp: session_fate_def)

section \<open>Loans along a run\<close>

text \<open>Only repaying and seizing end a loan.\<close>

definition keeps_loan :: "pubkey \<Rightarrow> vault_instruction \<Rightarrow> bool" where
  "keeps_loan k ix \<longleftrightarrow>
     (case ix of RepayCredit j _ _ \<Rightarrow> j \<noteq> k | SeizeCollateral j _ \<Rightarrow> j \<noteq> k | _ \<Rightarrow> True)"

definition loan_held :: "vault \<Rightarrow> vault \<Rightarrow> bool" where
  "loan_held v v' \<longleftrightarrow> borrowed v \<le> borrowed v' \<and>
     (borrow_recovery_at v \<noteq> None \<longrightarrow> borrow_recovery_at v' = borrow_recovery_at v)"

lemma loan_held_refl [simp]: "loan_held v v"
  by (simp add: loan_held_def)

lemma loan_held_trans: "\<lbrakk> loan_held v w; loan_held w u \<rbrakk> \<Longrightarrow> loan_held v u"
  by (auto simp: loan_held_def)

lemma loan_held_admin:
  "set_swig h e v args1 = Inr v' \<Longrightarrow> loan_held v v'"
  "rotate_passkey h e v args2 = Inr v' \<Longrightarrow> loan_held v v'"
  "rotate_dexter_authority e v a n = Inr v' \<Longrightarrow> loan_held v v'"
  "request_withdrawal h e v args3 = Inr v' \<Longrightarrow> loan_held v v'"
  "finalize_withdrawal h e v accs4 args4 = Inr v' \<Longrightarrow> loan_held v v'"
  "force_release h e v args5 = Inr v' \<Longrightarrow> loan_held v v'"
  "set_swig_atomic h ss cpi e v accs6 args6 = Inr (v', ixs) \<Longrightarrow> loan_held v v'"
  by (auto simp: loan_held_def set_swig_eq_Inr rotate_passkey_eq_Inr rotate_dexter_authority_eq_Inr
      request_withdrawal_eq_Inr finalize_withdrawal_eq_Inr force_release_eq_Inr set_swig_atomic_eq_Inr)

lemma loan_held_ops:
  "settle_voucher h e v k s a args2 = Inr (v', s') \<Longrightarrow> loan_held v v'"
  "settle_tab_voucher h e v sa accs3 args3 = Inr (v', sa') \<Longrightarrow> loan_held v v'"
  "revoke_session_key h e v k sa sk args4 = Inr (v', sa') \<Longrightarrow> loan_held v v'"
  "register_session_key h e v ex sibs accs5 args5 = Inr (v', sa', cl) \<Longrightarrow> loan_held v v'"
  "lock_voucher h e v sa ex6 accs6 args6 = Inr (v', sa', c) \<Longrightarrow> loan_held v v'"
  "settle_locked_voucher h e v c accs7 = Inr (v', c') \<Longrightarrow> loan_held v v'"
  "recover_abandoned_lock h e v k c ck args8 = Inr (v', c') \<Longrightarrow> loan_held v v'"
  by (auto simp: loan_held_def settle_voucher_eq_Inr settle_voucher_handler_eq_Inr
      settle_tab_voucher_eq_Inr settle_tab_voucher_handler_eq_Inr revoke_session_key_eq_Inr
      register_session_key_eq_Inr register_session_key_handler_eq_Inr lock_voucher_eq_Inr
      lock_voucher_handler_eq_Inr settle_locked_voucher_eq_Inr recover_abandoned_lock_eq_Inr
      split: if_splits)

lemma loan_held_credit:
  "open_standby h e v k f sb bk args7 = Inr (v', sb') \<Longrightarrow> loan_held v v'"
  "close_standby h e v sb accs8 args8 = Inr (v', sb') \<Longrightarrow> loan_held v v'"
  by (auto simp: loan_held_def open_standby_eq_Inr close_standby_eq_Inr)

lemma loan_held_draw:
  assumes "draw_credit h e v accs args = Inr v'"
  shows "loan_held v v'"
  using assms unat_less_2p [of "standby_cap v"]
  by (auto simp: loan_held_def draw_credit_eq_Inr draw_credit_handler_eq_Inr deadline_after_def
      word_le_nat_alt unat_word_ariths)

lemmas loan_held_steps = loan_held_admin loan_held_ops loan_held_credit loan_held_draw

lemma exec_loan_held:
  assumes "exec h sw e ix l = Inr l'" and "keeps_loan k ix" and "vaults l k = Some v"
  shows "\<exists>v'. vaults l' k = Some v' \<and> loan_held v v'"
  using assms
  by (cases "(h, sw, e, ix, l)" rule: exec.cases)
    (auto simp: keeps_loan_def result_simps put_defs split_paired_Ex Let_def initialize_vault_eq_Inr,
      (erule loan_held_steps)+)

lemma steps_loan_held:
  assumes "(ledger_step h sw (keeps_loan k))\<^sup>*\<^sup>* l l'" and "vaults l k = Some v"
  shows "\<exists>v'. vaults l' k = Some v' \<and> loan_held v v'"
  using assms
proof (induction rule: rtranclp_induct)
  case (step m m')
  then obtain w where w: "vaults m k = Some w" "loan_held v w" by blast
  from step.hyps(2) w(1) obtain w' where "vaults m' k = Some w'" "loan_held w w'"
    by (blast elim: ledger_stepE dest: exec_loan_held)
  with w(2) show ?case by (blast intro: loan_held_trans)
qed auto

section \<open>Which operation the passkey has to sign\<close>

text \<open>The vault, the operation and the ceremony bytes of the instructions a passkey gates. The
  parameters come from the instruction and from the accounts it names; the others ask for no
  ceremony.\<close>

fun passkey_demand ::
  "vault_instruction \<Rightarrow> ledger \<Rightarrow> (pubkey \<times> passkey_op \<times> byte list \<times> byte list) option" where
  "passkey_demand (SetSwig k args) l =
     Some (k, OpSetSwig (ss_swig_address args), ss_client_data_json args, ss_authenticator_data args)"
| "passkey_demand (SetSwigAtomic k accs args) l =
     Some (k, OpSetSwig (at_swig_account accs), at_client_data_json args, at_authenticator_data args)"
| "passkey_demand (RotatePasskey k args) l =
     Some (k, OpRotatePasskey (rp_new_passkey_pubkey args), rp_client_data_json args,
       rp_authenticator_data args)"
| "passkey_demand (ProvePasskey k args) l =
     Some (k, OpProvePasskey (pp_challenge args), pp_client_data_json args,
       pp_authenticator_data args)"
| "passkey_demand (RequestWithdrawal k args) l =
     Some (k, OpRequestWithdrawal (rw_amount args) (rw_destination args) (rw_signed_at args),
       rw_client_data_json args, rw_authenticator_data args)"
| "passkey_demand (FinalizeWithdrawal k accs args) l =
     (case Option.bind (vaults l k) pending_withdrawal of
        None \<Rightarrow> None
      | Some p \<Rightarrow> Some (k, OpFinalizeWithdrawal (pw_amount p) (pw_destination p),
          fw_client_data_json args, fw_authenticator_data args))"
| "passkey_demand (ForceRelease k args) l =
     (case vaults l k of
        None \<Rightarrow> None
      | Some v \<Rightarrow> Some (k, OpForceRelease (swig_address v), fr_client_data_json args,
          fr_authenticator_data args))"
| "passkey_demand (RegisterSessionKey accs args) l =
     Some (rg_vault accs, OpRegister (rg_vault accs) (ra_session_pubkey args) (ra_max_amount args)
       (ra_expires_at args) (ra_allowed_counterparty args) (ra_nonce args)
       (ra_max_revolving_capacity args), ra_client_data_json args, ra_authenticator_data args)"
| "passkey_demand (RevokeSessionKey k sk args) l =
     (case sessions l sk of
        None \<Rightarrow> None
      | Some a \<Rightarrow> Some (k, OpRevoke k (sr_session_pubkey (sa_session a)), rk_client_data_json args,
          rk_authenticator_data args))"
| "passkey_demand (RecoverAbandonedLock k ck args) l =
     Some (k, OpRecoverAbandoned k ck, rl_client_data_json args, rl_authenticator_data args)"
| "passkey_demand (OpenStandby k f bk args) l =
     Some (k, OpOpenStandby k f (os_cap args), os_client_data_json args,
       os_authenticator_data args)"
| "passkey_demand (CloseStandby accs args) l =
     (case (cs_closer args, Option.bind (vaults l (cs_vault accs)) standby_backer) of
        (User, Some f) \<Rightarrow> Some (cs_vault accs, OpCloseStandby (cs_vault accs) f,
          cs_client_data_json args, cs_authenticator_data args)
      | _ \<Rightarrow> None)"
| "passkey_demand ix l = None"

definition authorized_by ::
  "host \<Rightarrow> tx_env \<Rightarrow> ledger \<Rightarrow> pubkey \<Rightarrow> passkey_op \<Rightarrow> byte list \<Rightarrow> byte list \<Rightarrow> bool" where
  "authorized_by h e l k x cdj ad \<longleftrightarrow>
     (\<exists>v. vaults l k = Some v \<and>
        passkey_authorized h (sysvar e) (passkey_pubkey v) cdj ad (op_message x))"

lemma demand_admin:
  "exec h sw e (SetSwig k args1) l = Inr l' \<Longrightarrow>
     authorized_by h e l k (OpSetSwig (ss_swig_address args1)) (ss_client_data_json args1)
       (ss_authenticator_data args1)"
  "exec h sw e (RotatePasskey k args2) l = Inr l' \<Longrightarrow>
     authorized_by h e l k (OpRotatePasskey (rp_new_passkey_pubkey args2))
       (rp_client_data_json args2) (rp_authenticator_data args2)"
  "exec h sw e (ProvePasskey k args3) l = Inr l' \<Longrightarrow>
     authorized_by h e l k (OpProvePasskey (pp_challenge args3)) (pp_client_data_json args3)
       (pp_authenticator_data args3)"
  "exec h sw e (RequestWithdrawal k args4) l = Inr l' \<Longrightarrow>
     authorized_by h e l k (OpRequestWithdrawal (rw_amount args4) (rw_destination args4)
       (rw_signed_at args4)) (rw_client_data_json args4) (rw_authenticator_data args4)"
  by (auto simp: result_simps authorized_by_def set_swig_eq_Inr rotate_passkey_eq_Inr
      prove_passkey_eq_Inr request_withdrawal_eq_Inr)

lemma demand_atomic:
  "exec h sw e (SetSwigAtomic k accs args) l = Inr l' \<Longrightarrow>
     authorized_by h e l k (OpSetSwig (at_swig_account accs)) (at_client_data_json args)
       (at_authenticator_data args)"
  by (auto simp: result_simps authorized_by_def set_swig_atomic_eq_Inr)

lemma demand_registration:
  "exec h sw e (RegisterSessionKey accs args) l = Inr l' \<Longrightarrow>
     authorized_by h e l (rg_vault accs) (OpRegister (rg_vault accs) (ra_session_pubkey args)
       (ra_max_amount args) (ra_expires_at args) (ra_allowed_counterparty args) (ra_nonce args)
       (ra_max_revolving_capacity args)) (ra_client_data_json args) (ra_authenticator_data args)"
  unfolding exec_register_eq by (auto simp: authorized_by_def register_message_def)

lemma demand_lock_and_credit:
  "exec h sw e (RecoverAbandonedLock k ck args1) l = Inr l' \<Longrightarrow>
     authorized_by h e l k (OpRecoverAbandoned k ck) (rl_client_data_json args1)
       (rl_authenticator_data args1)"
  "exec h sw e (OpenStandby k f bk args2) l = Inr l' \<Longrightarrow>
     authorized_by h e l k (OpOpenStandby k f (os_cap args2)) (os_client_data_json args2)
       (os_authenticator_data args2)"
  by (auto simp: result_simps authorized_by_def recover_abandoned_lock_eq_Inr open_standby_eq_Inr)

lemma demand_stored:
  "exec h sw e (FinalizeWithdrawal k accs1 args1) l = Inr l' \<Longrightarrow>
     passkey_demand (FinalizeWithdrawal k accs1 args1) l = Some (j, x, cdj, ad) \<Longrightarrow>
     authorized_by h e l j x cdj ad"
  "exec h sw e (ForceRelease k args2) l = Inr l' \<Longrightarrow>
     passkey_demand (ForceRelease k args2) l = Some (j, x, cdj, ad) \<Longrightarrow>
     authorized_by h e l j x cdj ad"
  "exec h sw e (RevokeSessionKey k sk args3) l = Inr l' \<Longrightarrow>
     passkey_demand (RevokeSessionKey k sk args3) l = Some (j, x, cdj, ad) \<Longrightarrow>
     authorized_by h e l j x cdj ad"
  "exec h sw e (CloseStandby accs4 args4) l = Inr l' \<Longrightarrow>
     passkey_demand (CloseStandby accs4 args4) l = Some (j, x, cdj, ad) \<Longrightarrow>
     authorized_by h e l j x cdj ad"
  by (auto simp: result_simps authorized_by_def finalize_withdrawal_eq_Inr withdrawal_gate_def
      force_release_eq_Inr revoke_session_key_eq_Inr close_standby_eq_Inr close_consent_def
      split: option.splits closer.splits)

lemma exec_authorized:
  assumes "exec h sw e ix l = Inr l'" and "passkey_demand ix l = Some (k, x, cdj, ad)"
  shows "authorized_by h e l k x cdj ad"
proof (cases ix)
  case (FinalizeWithdrawal j accs args)
  with assms show ?thesis using demand_stored(1) by blast
next
  case (ForceRelease j args)
  with assms show ?thesis using demand_stored(2) by blast
next
  case (RevokeSessionKey j sk args)
  with assms show ?thesis using demand_stored(3) by blast
next
  case (CloseStandby accs args)
  with assms show ?thesis using demand_stored(4) by blast
qed (use assms demand_admin demand_atomic demand_registration demand_lock_and_credit in
  \<open>auto simp del: exec.simps\<close>)

text \<open>The instructions that need a ceremony; \<open>close_standby\<close> only when the user closes.\<close>

fun needs_passkey :: "vault_instruction \<Rightarrow> bool" where
  "needs_passkey (SetSwig k args) = True"
| "needs_passkey (SetSwigAtomic k accs args) = True"
| "needs_passkey (RotatePasskey k args) = True"
| "needs_passkey (ProvePasskey k args) = True"
| "needs_passkey (RequestWithdrawal k args) = True"
| "needs_passkey (FinalizeWithdrawal k accs args) = True"
| "needs_passkey (ForceRelease k args) = True"
| "needs_passkey (RegisterSessionKey accs args) = True"
| "needs_passkey (RevokeSessionKey k sk args) = True"
| "needs_passkey (RecoverAbandonedLock k ck args) = True"
| "needs_passkey (OpenStandby k f bk args) = True"
| "needs_passkey (CloseStandby accs args) = (cs_closer args = User)"
| "needs_passkey ix = False"

lemma gated_demand:
  assumes "exec h sw e ix l = Inr l'" and "needs_passkey ix"
  shows "\<exists>k x cdj ad. passkey_demand ix l = Some (k, x, cdj, ad)"
  using assms
  by (cases ix) (auto simp: result_simps finalize_withdrawal_eq_Inr force_release_eq_Inr
      revoke_session_key_eq_Inr close_standby_eq_Inr close_consent_def
      split: option.splits closer.splits)

end
