(* ===== verification/Borsh.thy ===== *)
theory Borsh
  imports Vault_Types
begin

text \<open>
  The wire format of the accounts: what \<open>AnchorSerialize\<close>, \<open>AnchorDeserialize\<close> and \<open>InitSpace\<close> derive
  for the structs of \<open>state.rs\<close>. A serializer is a function to bytes, a deserializer reads a prefix of
  the bytes and returns the rest, as Borsh does on a cursor. The locale \<open>borsh_codec\<close> is the contract
  between the two; each struct interprets it.
\<close>

section \<open>The contract\<close>

locale borsh_codec =
  fixes ser :: "'a \<Rightarrow> byte list" and rd :: "byte list \<Rightarrow> error + 'a \<times> byte list" and space :: nat
  assumes rd_iff: "rd bs = Inr (x, r) \<longleftrightarrow> bs = ser x @ r"
    and ser_space: "length (ser x) \<le> space"
begin

lemma rd_ser: "rd (ser x @ r) = Inr (x, r)"
  by (simp add: rd_iff)

lemma ser_prefix_free:
  assumes "ser x @ r = ser y @ s"
  shows "x = y" and "r = s"
  using assms rd_ser [of x r] rd_ser [of y s] by (metis Inr_inject prod.inject)+

lemma ser_inj: "ser x = ser y \<longleftrightarrow> x = y"
  by (metis ser_prefix_free(1))

lemma rd_short: "\<lbrakk> rd bs = Inr (x, r) \<rbrakk> \<Longrightarrow> length r \<le> length bs"
  by (simp add: rd_iff)

end

named_theorems borsh \<comment> \<open>when a deserializer succeeds\<close>

section \<open>Primitive types\<close>

text \<open>\<open>split_at\<close> on the cursor: an unexpected end of input is Borsh's I/O error.\<close>

definition read_bytes :: "nat \<Rightarrow> byte list \<Rightarrow> error + byte list \<times> byte list" where
  "read_bytes n bs =
     (if length bs < n then Inl (ProgramError BorshIoError) else Inr (take n bs, drop n bs))"

lemma read_bytes_iff: "read_bytes n bs = Inr (x, r) \<longleftrightarrow> length x = n \<and> bs = x @ r"
  by (auto simp: read_bytes_def)

definition read_word :: "nat \<Rightarrow> byte list \<Rightarrow> error + 'a::len word \<times> byte list" where
  "read_word n bs = bind_res (read_bytes n bs) (\<lambda>(x, r). Inr (le_word x, r))"

lemma read_word_iff:
  fixes x :: "'a::len word"
  assumes "LENGTH('a) = 8 * n"
  shows "read_word n bs = Inr (x, r) \<longleftrightarrow> bs = le_bytes n x @ r"
proof
  assume "read_word n bs = Inr (x, r)"
  then show "bs = le_bytes n x @ r"
    using assms by (auto simp: read_word_def bind_res_eq_Inr read_bytes_iff le_bytes_le_word)
next
  assume "bs = le_bytes n x @ r"
  then show "read_word n bs = Inr (x, r)"
    using assms by (auto simp: read_word_def read_bytes_def le_word_le_bytes)
qed

definition read_u8 :: "byte list \<Rightarrow> error + u8 \<times> byte list" where "read_u8 = read_word 1"
definition read_u32 :: "byte list \<Rightarrow> error + u32 \<times> byte list" where "read_u32 = read_word 4"
definition read_u64 :: "byte list \<Rightarrow> error + u64 \<times> byte list" where "read_u64 = read_word 8"

lemma le_bytes_1 [simp]: "le_bytes 1 (b :: byte) = [b]" "le_bytes (Suc 0) (b :: byte) = [b]"
  by simp_all

lemma read_words_iff [borsh]:
  "read_u8 bs = Inr (b, r) \<longleftrightarrow> bs = b # r"
  "read_u32 bs = Inr (w, r) \<longleftrightarrow> bs = le_bytes 4 w @ r"
  "read_u64 bs = Inr (v, r) \<longleftrightarrow> bs = le_bytes 8 v @ r"
  by (simp_all add: read_u8_def read_u32_def read_u64_def read_word_iff)

definition read_array :: "byte list \<Rightarrow> error + ('n::len) bytes \<times> byte list" where
  "read_array bs = bind_res (read_bytes LENGTH('n) bs) (\<lambda>(x, r). Inr (arr x, r))"

lemma read_array_iff [borsh]:
  "read_array bs = Inr (a :: ('n::len) bytes, r) \<longleftrightarrow> bs = to_list a @ r"
proof
  assume "read_array bs = Inr (a, r)"
  then show "bs = to_list a @ r" by (auto simp: read_array_def bind_res_eq_Inr read_bytes_iff)
next
  assume "bs = to_list a @ r"
  then show "read_array bs = Inr (a, r)" by (simp add: read_array_def read_bytes_def)
qed

text \<open>\<open>Option<T>\<close>: a tag byte, 0 or 1, and the value after a 1.\<close>

fun ser_option :: "('a \<Rightarrow> byte list) \<Rightarrow> 'a option \<Rightarrow> byte list" where
  "ser_option s None = [0]"
| "ser_option s (Some x) = 1 # s x"

definition read_option ::
  "(byte list \<Rightarrow> error + 'a \<times> byte list) \<Rightarrow> byte list \<Rightarrow> error + 'a option \<times> byte list" where
  "read_option rd bs =
     bind_res (read_u8 bs) (\<lambda>(t, r).
       if t = 0 then Inr (None, r)
       else if t = 1 then bind_res (rd r) (\<lambda>(x, r'). Inr (Some x, r'))
       else Inl (ProgramError BorshIoError))"

lemma read_option_iff [borsh]:
  assumes "\<And>bs x r. rd bs = Inr (x, r) \<longleftrightarrow> bs = ser x @ r"
  shows "read_option rd bs = Inr (x, r) \<longleftrightarrow> bs = ser_option ser x @ r"
proof (cases bs)
  case Nil
  then have "\<not> is_ok (read_u8 bs)" using read_words_iff(1) [of bs] by (auto simp: is_ok_iff)
  then have "read_option rd bs \<noteq> Inr (x, r)"
    by (auto simp: read_option_def bind_res_eq_Inr is_ok_iff)
  with Nil show ?thesis by (cases x) simp_all
next
  case (Cons t ts)
  then have "read_u8 bs = Inr (t, ts)" by (simp add: borsh)
  with Cons assms show ?thesis
    by (cases x) (auto simp: read_option_def bind_res_eq_Inr)
qed

lemma length_ser_option: "length (ser_option s x) = (case x of None \<Rightarrow> 1 | Some y \<Rightarrow> 1 + length (s y))"
  by (cases x) auto

interpretation u64_codec: borsh_codec "le_bytes 8 :: u64 \<Rightarrow> byte list" read_u64 8
  by unfold_locales (simp_all add: borsh)

interpretation array_codec: borsh_codec "to_list :: ('n::len) bytes \<Rightarrow> byte list" read_array
  "LENGTH('n::len)"
  by unfold_locales (simp_all add: borsh)

section \<open>The structs of \<open>state.rs\<close>\<close>

text \<open>\<open>*_SPACE\<close> is the \<open>INIT_SPACE\<close> that Anchor derives: every \<open>Option\<close> at its longest.\<close>

definition PENDING_WITHDRAWAL_SPACE :: nat where "PENDING_WITHDRAWAL_SPACE = 8 + 32 + 8"

definition ser_pending_withdrawal :: "pending_withdrawal \<Rightarrow> byte list" where
  "ser_pending_withdrawal v =
     le_bytes 8 (pw_amount v) @ to_list (pw_destination v) @ le_bytes 8 (pw_requested_at v)"

definition read_pending_withdrawal :: "byte list \<Rightarrow> error + pending_withdrawal \<times> byte list" where
  "read_pending_withdrawal c0 =
     bind_res (read_u64 c0) (\<lambda>(x0, c1).
     bind_res (read_array c1) (\<lambda>(x1, c2).
     bind_res (read_u64 c2) (\<lambda>(x2, c3).
     Inr (\<lparr> pw_amount = x0, pw_destination = x1, pw_requested_at = x2 \<rparr>,
       c3))))"

lemma read_pending_withdrawal_iff [borsh]: "read_pending_withdrawal bs = Inr (v, r) \<longleftrightarrow> bs = ser_pending_withdrawal v @ r"
  by (cases v) (auto simp: read_pending_withdrawal_def ser_pending_withdrawal_def bind_res_eq_Inr split_paired_Ex borsh)

lemma length_ser_pending_withdrawal [simp]: "length (ser_pending_withdrawal v) = PENDING_WITHDRAWAL_SPACE"
  by (simp add: ser_pending_withdrawal_def PENDING_WITHDRAWAL_SPACE_def)

definition SESSION_REGISTRATION_SPACE :: nat where
  "SESSION_REGISTRATION_SPACE = 32 + 8 + 8 + 32 + 4 + 8 + 8 + 8 + 8 + 4"

definition ser_session_registration :: "session_registration \<Rightarrow> byte list" where
  "ser_session_registration v =
     to_list (sr_session_pubkey v) @ le_bytes 8 (sr_max_amount v) @
     le_bytes 8 (sr_expires_at v) @ to_list (sr_allowed_counterparty v) @
     le_bytes 4 (sr_nonce v) @ le_bytes 8 (sr_spent v) @ le_bytes 8 (sr_current_outstanding v) @
     le_bytes 8 (sr_max_revolving_capacity v) @ le_bytes 8 (sr_crystallized_cumulative v) @
     le_bytes 4 (sr_last_locked_sequence v)"

definition read_session_registration :: "byte list \<Rightarrow> error + session_registration \<times> byte list" where
  "read_session_registration c0 =
     bind_res (read_array c0) (\<lambda>(x0, c1).
     bind_res (read_u64 c1) (\<lambda>(x1, c2).
     bind_res (read_u64 c2) (\<lambda>(x2, c3).
     bind_res (read_array c3) (\<lambda>(x3, c4).
     bind_res (read_u32 c4) (\<lambda>(x4, c5).
     bind_res (read_u64 c5) (\<lambda>(x5, c6).
     bind_res (read_u64 c6) (\<lambda>(x6, c7).
     bind_res (read_u64 c7) (\<lambda>(x7, c8).
     bind_res (read_u64 c8) (\<lambda>(x8, c9).
     bind_res (read_u32 c9) (\<lambda>(x9, c10).
     Inr (\<lparr> sr_session_pubkey = x0, sr_max_amount = x1, sr_expires_at = x2,
       sr_allowed_counterparty = x3, sr_nonce = x4, sr_spent = x5, sr_current_outstanding = x6,
       sr_max_revolving_capacity = x7, sr_crystallized_cumulative = x8,
       sr_last_locked_sequence = x9 \<rparr>,
       c10)))))))))))"

lemma read_session_registration_iff [borsh]: "read_session_registration bs = Inr (v, r) \<longleftrightarrow> bs = ser_session_registration v @ r"
  by (cases v) (auto simp: read_session_registration_def ser_session_registration_def bind_res_eq_Inr split_paired_Ex borsh)

lemma length_ser_session_registration [simp]: "length (ser_session_registration v) = SESSION_REGISTRATION_SPACE"
  by (simp add: ser_session_registration_def SESSION_REGISTRATION_SPACE_def)

definition SESSION_ACCOUNT_SPACE :: nat where
  "SESSION_ACCOUNT_SPACE = 1 + 1 + 32 + SESSION_REGISTRATION_SPACE"

definition ser_session_account :: "session_account \<Rightarrow> byte list" where
  "ser_session_account v =
     [sa_version v] @ [sa_bump v] @ to_list (sa_vault v) @ ser_session_registration (sa_session v)"

definition read_session_account :: "byte list \<Rightarrow> error + session_account \<times> byte list" where
  "read_session_account c0 =
     bind_res (read_u8 c0) (\<lambda>(x0, c1).
     bind_res (read_u8 c1) (\<lambda>(x1, c2).
     bind_res (read_array c2) (\<lambda>(x2, c3).
     bind_res (read_session_registration c3) (\<lambda>(x3, c4).
     Inr (\<lparr> sa_version = x0, sa_bump = x1, sa_vault = x2, sa_session = x3 \<rparr>,
       c4)))))"

lemma read_session_account_iff [borsh]: "read_session_account bs = Inr (v, r) \<longleftrightarrow> bs = ser_session_account v @ r"
  by (cases v) (auto simp: read_session_account_def ser_session_account_def bind_res_eq_Inr split_paired_Ex borsh)

lemma length_ser_session_account [simp]: "length (ser_session_account v) = SESSION_ACCOUNT_SPACE"
  by (simp add: ser_session_account_def SESSION_ACCOUNT_SPACE_def)

definition VAULT_SPACE :: nat where
  "VAULT_SPACE = 1 + 1 + 33 + 32 + 4 + 4 + (1 + PENDING_WITHDRAWAL_SPACE) + 32 + 32 + 1 + 8 + 8 + 8 +
     8 + (1 + 32) + 8 + (1 + 8)"

definition ser_vault :: "vault \<Rightarrow> byte list" where
  "ser_vault v =
     [version v] @ [bump v] @ to_list (passkey_pubkey v) @ to_list (swig_address v) @
     le_bytes 4 (cooling_off_seconds v) @ le_bytes 4 (pending_voucher_count v) @
     ser_option ser_pending_withdrawal (pending_withdrawal v) @ to_list (identity_claim v) @
     to_list (dexter_authority v) @ [live_session_count v] @
     le_bytes 8 (outstanding_locked_amount v) @ le_bytes 8 (total_crystallized_amount v) @
     le_bytes 8 (total_settled_amount v) @ le_bytes 8 (borrowed v) @
     ser_option to_list (standby_backer v) @ le_bytes 8 (standby_cap v) @
     ser_option (le_bytes 8) (borrow_recovery_at v)"

definition read_vault :: "byte list \<Rightarrow> error + vault \<times> byte list" where
  "read_vault c0 =
     bind_res (read_u8 c0) (\<lambda>(x0, c1).
     bind_res (read_u8 c1) (\<lambda>(x1, c2).
     bind_res (read_array c2) (\<lambda>(x2, c3).
     bind_res (read_array c3) (\<lambda>(x3, c4).
     bind_res (read_u32 c4) (\<lambda>(x4, c5).
     bind_res (read_u32 c5) (\<lambda>(x5, c6).
     bind_res (read_option read_pending_withdrawal c6) (\<lambda>(x6, c7).
     bind_res (read_array c7) (\<lambda>(x7, c8).
     bind_res (read_array c8) (\<lambda>(x8, c9).
     bind_res (read_u8 c9) (\<lambda>(x9, c10).
     bind_res (read_u64 c10) (\<lambda>(x10, c11).
     bind_res (read_u64 c11) (\<lambda>(x11, c12).
     bind_res (read_u64 c12) (\<lambda>(x12, c13).
     bind_res (read_u64 c13) (\<lambda>(x13, c14).
     bind_res (read_option read_array c14) (\<lambda>(x14, c15).
     bind_res (read_u64 c15) (\<lambda>(x15, c16).
     bind_res (read_option read_u64 c16) (\<lambda>(x16, c17).
     Inr (\<lparr> version = x0, bump = x1, passkey_pubkey = x2, swig_address = x3, cooling_off_seconds = x4,
       pending_voucher_count = x5, pending_withdrawal = x6, identity_claim = x7,
       dexter_authority = x8, live_session_count = x9, outstanding_locked_amount = x10,
       total_crystallized_amount = x11, total_settled_amount = x12, borrowed = x13,
       standby_backer = x14, standby_cap = x15, borrow_recovery_at = x16 \<rparr>,
       c17))))))))))))))))))"

lemma read_vault_iff [borsh]: "read_vault bs = Inr (v, r) \<longleftrightarrow> bs = ser_vault v @ r"
  by (cases v) (auto simp: read_vault_def ser_vault_def bind_res_eq_Inr split_paired_Ex borsh)

lemma length_ser_vault: "length (ser_vault v) \<le> VAULT_SPACE"
  by (simp add: ser_vault_def VAULT_SPACE_def length_ser_option split: option.splits)

text \<open>Enums are one tag byte.\<close>

fun ser_claim_status :: "locked_claim_status \<Rightarrow> byte list" where
  "ser_claim_status Pending = [0]"
| "ser_claim_status Settled = [1]"
| "ser_claim_status Abandoned = [2]"

definition read_claim_status :: "byte list \<Rightarrow> error + locked_claim_status \<times> byte list" where
  "read_claim_status bs =
     bind_res (read_u8 bs) (\<lambda>(t, r).
       if t = 0 then Inr (Pending, r) else if t = 1 then Inr (Settled, r)
       else if t = 2 then Inr (Abandoned, r) else Inl (ProgramError BorshIoError))"

fun ser_reserve_kind :: "reserve_kind \<Rightarrow> byte list" where
  "ser_reserve_kind Declared = [0]"
| "ser_reserve_kind Locked = [1]"

definition read_reserve_kind :: "byte list \<Rightarrow> error + reserve_kind \<times> byte list" where
  "read_reserve_kind bs =
     bind_res (read_u8 bs) (\<lambda>(t, r).
       if t = 0 then Inr (Declared, r) else if t = 1 then Inr (Locked, r)
       else Inl (ProgramError BorshIoError))"

lemma read_u8_cases: "read_u8 [] = Inl (ProgramError BorshIoError)" "read_u8 (b # bs) = Inr (b, bs)"
  by (simp_all add: borsh) (simp add: read_u8_def read_word_def read_bytes_def)

lemma read_enums_iff [borsh]:
  "read_claim_status bs = Inr (s, r) \<longleftrightarrow> bs = ser_claim_status s @ r"
  "read_reserve_kind bs = Inr (k, r) \<longleftrightarrow> bs = ser_reserve_kind k @ r"
  by (cases bs; cases s; auto simp: read_claim_status_def read_u8_cases split: if_splits)
    (cases bs; cases k; auto simp: read_reserve_kind_def read_u8_cases split: if_splits)

lemma length_ser_enums [simp]:
  "length (ser_claim_status s) = 1" "length (ser_reserve_kind k) = 1"
  by (cases s; simp) (cases k; simp)

definition LOCKED_CLAIM_SPACE :: nat where
  "LOCKED_CLAIM_SPACE = 1 + 1 + 32 + 32 + 32 + 8 + 8 + (1 + 8) + (1 + 8) + 32 + 1 + (1 + 8) + (1 + 8)"

definition ser_locked_claim :: "locked_claim \<Rightarrow> byte list" where
  "ser_locked_claim v =
     [lc_version v] @ [lc_bump v] @ to_list (lc_vault v) @
     to_list (lc_session_pubkey_at_lock v) @ to_list (lc_voucher_hash v) @
     le_bytes 8 (lc_amount v) @ le_bytes 8 (lc_created_at v) @
     ser_option (le_bytes 8) (lc_maturity_at v) @
     ser_option (le_bytes 8) (lc_holder_recovery_at v) @ to_list (lc_current_holder v) @
     ser_claim_status (lc_status v) @ ser_option (le_bytes 8) (lc_settled_at v) @
     ser_option (le_bytes 8) (lc_recovered_at v)"

definition read_locked_claim :: "byte list \<Rightarrow> error + locked_claim \<times> byte list" where
  "read_locked_claim c0 =
     bind_res (read_u8 c0) (\<lambda>(x0, c1).
     bind_res (read_u8 c1) (\<lambda>(x1, c2).
     bind_res (read_array c2) (\<lambda>(x2, c3).
     bind_res (read_array c3) (\<lambda>(x3, c4).
     bind_res (read_array c4) (\<lambda>(x4, c5).
     bind_res (read_u64 c5) (\<lambda>(x5, c6).
     bind_res (read_u64 c6) (\<lambda>(x6, c7).
     bind_res (read_option read_u64 c7) (\<lambda>(x7, c8).
     bind_res (read_option read_u64 c8) (\<lambda>(x8, c9).
     bind_res (read_array c9) (\<lambda>(x9, c10).
     bind_res (read_claim_status c10) (\<lambda>(x10, c11).
     bind_res (read_option read_u64 c11) (\<lambda>(x11, c12).
     bind_res (read_option read_u64 c12) (\<lambda>(x12, c13).
     Inr (\<lparr> lc_version = x0, lc_bump = x1, lc_vault = x2, lc_session_pubkey_at_lock = x3,
       lc_voucher_hash = x4, lc_amount = x5, lc_created_at = x6, lc_maturity_at = x7,
       lc_holder_recovery_at = x8, lc_current_holder = x9, lc_status = x10, lc_settled_at = x11,
       lc_recovered_at = x12 \<rparr>,
       c13))))))))))))))"

lemma read_locked_claim_iff [borsh]: "read_locked_claim bs = Inr (v, r) \<longleftrightarrow> bs = ser_locked_claim v @ r"
  by (cases v) (auto simp: read_locked_claim_def ser_locked_claim_def bind_res_eq_Inr split_paired_Ex borsh)

lemma length_ser_locked_claim: "length (ser_locked_claim v) \<le> LOCKED_CLAIM_SPACE"
  by (simp add: ser_locked_claim_def LOCKED_CLAIM_SPACE_def length_ser_option split: option.splits)

definition STANDBY_BACKER_SPACE :: nat where "STANDBY_BACKER_SPACE = 1 + 1 + 32 + 8 + 8 + 1"

definition ser_standby_backer :: "standby_backer_ledger \<Rightarrow> byte list" where
  "ser_standby_backer v =
     [sb_version v] @ [sb_bump v] @ to_list (sb_financier_swig v) @
     le_bytes 8 (sb_committed_reserve v) @ le_bytes 8 (sb_aggregate_promised v) @
     ser_reserve_kind (sb_reserve_kind v)"

definition read_standby_backer :: "byte list \<Rightarrow> error + standby_backer_ledger \<times> byte list" where
  "read_standby_backer c0 =
     bind_res (read_u8 c0) (\<lambda>(x0, c1).
     bind_res (read_u8 c1) (\<lambda>(x1, c2).
     bind_res (read_array c2) (\<lambda>(x2, c3).
     bind_res (read_u64 c3) (\<lambda>(x3, c4).
     bind_res (read_u64 c4) (\<lambda>(x4, c5).
     bind_res (read_reserve_kind c5) (\<lambda>(x5, c6).
     Inr (\<lparr> sb_version = x0, sb_bump = x1, sb_financier_swig = x2, sb_committed_reserve = x3,
       sb_aggregate_promised = x4, sb_reserve_kind = x5 \<rparr>,
       c6)))))))"

lemma read_standby_backer_iff [borsh]: "read_standby_backer bs = Inr (v, r) \<longleftrightarrow> bs = ser_standby_backer v @ r"
  by (cases v) (auto simp: read_standby_backer_def ser_standby_backer_def bind_res_eq_Inr split_paired_Ex borsh)

lemma length_ser_standby_backer [simp]: "length (ser_standby_backer v) = STANDBY_BACKER_SPACE"
  by (simp add: ser_standby_backer_def STANDBY_BACKER_SPACE_def)

interpretation pending_withdrawal_codec: borsh_codec ser_pending_withdrawal read_pending_withdrawal PENDING_WITHDRAWAL_SPACE
  by unfold_locales (simp_all add: borsh length_ser_vault length_ser_locked_claim)

interpretation session_registration_codec: borsh_codec ser_session_registration read_session_registration SESSION_REGISTRATION_SPACE
  by unfold_locales (simp_all add: borsh length_ser_vault length_ser_locked_claim)

interpretation session_account_codec: borsh_codec ser_session_account read_session_account SESSION_ACCOUNT_SPACE
  by unfold_locales (simp_all add: borsh length_ser_vault length_ser_locked_claim)

interpretation vault_codec: borsh_codec ser_vault read_vault VAULT_SPACE
  by unfold_locales (simp_all add: borsh length_ser_vault length_ser_locked_claim)

interpretation locked_claim_codec: borsh_codec ser_locked_claim read_locked_claim LOCKED_CLAIM_SPACE
  by unfold_locales (simp_all add: borsh length_ser_vault length_ser_locked_claim)

interpretation standby_backer_codec: borsh_codec ser_standby_backer read_standby_backer STANDBY_BACKER_SPACE
  by unfold_locales (simp_all add: borsh length_ser_vault length_ser_locked_claim)

end
