(* ===== verification/Layouts.thy ===== *)
theory Layouts
  imports Borsh
begin

text \<open>
  The account layouts of the earlier vault generations, as the migrations freeze them: the reader and
  writer snapshots \<open>VaultV3\<close>, \<open>VaultV4\<close> / \<open>VaultV4Frozen\<close> and \<open>VaultV5Frozen\<close> / \<open>VaultV5Reader\<close>.
  A generation has one record here; its reader and its writer follow the two structs of the source, and
  the law that connects them is what their comments ask to be kept in lockstep. Generation 2 has no
  struct left in the source; its layout is the one the comment of \<open>migrate_v2_to_v3\<close> gives.
\<close>

section \<open>The account around a body\<close>

text \<open>\<open>Vault::DISCRIMINATOR\<close>, as the accounts of the unit tests carry it.\<close>

definition VAULT_DISCRIMINATOR :: "byte list" where
  "VAULT_DISCRIMINATOR = [0xd3, 0x08, 0xe8, 0x2b, 0x02, 0x98, 0x75, 0x77]"

lemma length_discriminator [simp]: "length VAULT_DISCRIMINATOR = 8"
  by (simp add: VAULT_DISCRIMINATOR_def)

text \<open>What loading \<open>Account<Vault>\<close> does with the bytes: the discriminator, then a prefix of the rest.\<close>

definition try_deserialize_vault :: "byte list \<Rightarrow> error + vault" where
  "try_deserialize_vault data =
     require (take 8 data = VAULT_DISCRIMINATOR) (AnchorError AccountNotInitialized) (
     bind_res (read_vault (drop 8 data)) (\<lambda>(v, rest). Inr v))"

definition account_image :: "byte list \<Rightarrow> byte list" where
  "account_image body = VAULT_DISCRIMINATOR @ body"

lemma try_deserialize_image [simp]:
  "try_deserialize_vault (account_image (ser_vault v) @ r) = Inr v"
  by (simp add: try_deserialize_vault_def account_image_def vault_codec.rd_ser)

section \<open>Generation 2\<close>

record session_registration_v2 =
  r2_session_pubkey :: "32 bytes"
  r2_max_amount :: u64
  r2_expires_at :: i64
  r2_allowed_counterparty :: pubkey
  r2_nonce :: u32
  r2_spent :: u64

definition ser_session_registration_v2 :: "session_registration_v2 \<Rightarrow> byte list" where
  "ser_session_registration_v2 v =
     to_list (r2_session_pubkey v) @ le_bytes 8 (r2_max_amount v) @
     le_bytes 8 (r2_expires_at v) @ to_list (r2_allowed_counterparty v) @
     le_bytes 4 (r2_nonce v) @ le_bytes 8 (r2_spent v)"

definition read_session_registration_v2 :: "byte list \<Rightarrow> error + session_registration_v2 \<times> byte list" where
  "read_session_registration_v2 c0 =
     bind_res (read_array c0) (\<lambda>(x0, c1).
     bind_res (read_u64 c1) (\<lambda>(x1, c2).
     bind_res (read_u64 c2) (\<lambda>(x2, c3).
     bind_res (read_array c3) (\<lambda>(x3, c4).
     bind_res (read_u32 c4) (\<lambda>(x4, c5).
     bind_res (read_u64 c5) (\<lambda>(x5, c6).
     Inr (\<lparr> r2_session_pubkey = x0, r2_max_amount = x1, r2_expires_at = x2,
       r2_allowed_counterparty = x3, r2_nonce = x4, r2_spent = x5 \<rparr>,
       c6)))))))"

lemma read_session_registration_v2_iff [borsh]: "read_session_registration_v2 bs = Inr (v, r) \<longleftrightarrow> bs = ser_session_registration_v2 v @ r"
  by (cases v) (auto simp: read_session_registration_v2_def ser_session_registration_v2_def bind_res_eq_Inr split_paired_Ex borsh)

record vault_v2 =
  w2_version :: u8
  w2_bump :: u8
  w2_passkey_pubkey :: "33 bytes"
  w2_swig_address :: pubkey
  w2_cooling_off_seconds :: u32
  w2_pending_voucher_count :: u32
  w2_pending_withdrawal :: "pending_withdrawal option"
  w2_identity_claim :: "32 bytes"
  w2_dexter_authority :: pubkey
  w2_active_session :: "session_registration_v2 option"

definition ser_vault_v2 :: "vault_v2 \<Rightarrow> byte list" where
  "ser_vault_v2 v =
     [w2_version v] @ [w2_bump v] @ to_list (w2_passkey_pubkey v) @ to_list (w2_swig_address v) @
     le_bytes 4 (w2_cooling_off_seconds v) @ le_bytes 4 (w2_pending_voucher_count v) @
     ser_option ser_pending_withdrawal (w2_pending_withdrawal v) @
     to_list (w2_identity_claim v) @ to_list (w2_dexter_authority v) @
     ser_option ser_session_registration_v2 (w2_active_session v)"

definition read_vault_v2 :: "byte list \<Rightarrow> error + vault_v2 \<times> byte list" where
  "read_vault_v2 c0 =
     bind_res (read_u8 c0) (\<lambda>(x0, c1).
     bind_res (read_u8 c1) (\<lambda>(x1, c2).
     bind_res (read_array c2) (\<lambda>(x2, c3).
     bind_res (read_array c3) (\<lambda>(x3, c4).
     bind_res (read_u32 c4) (\<lambda>(x4, c5).
     bind_res (read_u32 c5) (\<lambda>(x5, c6).
     bind_res (read_option read_pending_withdrawal c6) (\<lambda>(x6, c7).
     bind_res (read_array c7) (\<lambda>(x7, c8).
     bind_res (read_array c8) (\<lambda>(x8, c9).
     bind_res (read_option read_session_registration_v2 c9) (\<lambda>(x9, c10).
     Inr (\<lparr> w2_version = x0, w2_bump = x1, w2_passkey_pubkey = x2, w2_swig_address = x3,
       w2_cooling_off_seconds = x4, w2_pending_voucher_count = x5, w2_pending_withdrawal = x6,
       w2_identity_claim = x7, w2_dexter_authority = x8, w2_active_session = x9 \<rparr>,
       c10)))))))))))"

lemma read_vault_v2_iff [borsh]: "read_vault_v2 bs = Inr (v, r) \<longleftrightarrow> bs = ser_vault_v2 v @ r"
  by (cases v) (auto simp: read_vault_v2_def ser_vault_v2_def bind_res_eq_Inr split_paired_Ex borsh)

definition VAULT_V2_SPACE :: nat where
  "VAULT_V2_SPACE = 1 + 1 + 33 + 32 + 4 + 4 + (1 + PENDING_WITHDRAWAL_SPACE) + 32 + 32 + (1 + 92)"

section \<open>Generation 3\<close>

record session_registration_v3 =
  r3_session_pubkey :: "32 bytes"
  r3_max_amount :: u64
  r3_expires_at :: i64
  r3_allowed_counterparty :: pubkey
  r3_nonce :: u32
  r3_spent :: u64
  r3_current_outstanding :: u64
  r3_max_revolving_capacity :: u64

definition ser_session_registration_v3 :: "session_registration_v3 \<Rightarrow> byte list" where
  "ser_session_registration_v3 v =
     to_list (r3_session_pubkey v) @ le_bytes 8 (r3_max_amount v) @
     le_bytes 8 (r3_expires_at v) @ to_list (r3_allowed_counterparty v) @
     le_bytes 4 (r3_nonce v) @ le_bytes 8 (r3_spent v) @ le_bytes 8 (r3_current_outstanding v) @
     le_bytes 8 (r3_max_revolving_capacity v)"

definition read_session_registration_v3 :: "byte list \<Rightarrow> error + session_registration_v3 \<times> byte list" where
  "read_session_registration_v3 c0 =
     bind_res (read_array c0) (\<lambda>(x0, c1).
     bind_res (read_u64 c1) (\<lambda>(x1, c2).
     bind_res (read_u64 c2) (\<lambda>(x2, c3).
     bind_res (read_array c3) (\<lambda>(x3, c4).
     bind_res (read_u32 c4) (\<lambda>(x4, c5).
     bind_res (read_u64 c5) (\<lambda>(x5, c6).
     bind_res (read_u64 c6) (\<lambda>(x6, c7).
     bind_res (read_u64 c7) (\<lambda>(x7, c8).
     Inr (\<lparr> r3_session_pubkey = x0, r3_max_amount = x1, r3_expires_at = x2,
       r3_allowed_counterparty = x3, r3_nonce = x4, r3_spent = x5, r3_current_outstanding = x6,
       r3_max_revolving_capacity = x7 \<rparr>,
       c8)))))))))"

lemma read_session_registration_v3_iff [borsh]: "read_session_registration_v3 bs = Inr (v, r) \<longleftrightarrow> bs = ser_session_registration_v3 v @ r"
  by (cases v) (auto simp: read_session_registration_v3_def ser_session_registration_v3_def bind_res_eq_Inr split_paired_Ex borsh)

record vault_v3 =
  w3_version :: u8
  w3_bump :: u8
  w3_passkey_pubkey :: "33 bytes"
  w3_swig_address :: pubkey
  w3_cooling_off_seconds :: u32
  w3_pending_voucher_count :: u32
  w3_pending_withdrawal :: "pending_withdrawal option"
  w3_identity_claim :: "32 bytes"
  w3_dexter_authority :: pubkey
  w3_active_session :: "session_registration_v3 option"

definition ser_vault_v3 :: "vault_v3 \<Rightarrow> byte list" where
  "ser_vault_v3 v =
     [w3_version v] @ [w3_bump v] @ to_list (w3_passkey_pubkey v) @ to_list (w3_swig_address v) @
     le_bytes 4 (w3_cooling_off_seconds v) @ le_bytes 4 (w3_pending_voucher_count v) @
     ser_option ser_pending_withdrawal (w3_pending_withdrawal v) @
     to_list (w3_identity_claim v) @ to_list (w3_dexter_authority v) @
     ser_option ser_session_registration_v3 (w3_active_session v)"

definition read_vault_v3 :: "byte list \<Rightarrow> error + vault_v3 \<times> byte list" where
  "read_vault_v3 c0 =
     bind_res (read_u8 c0) (\<lambda>(x0, c1).
     bind_res (read_u8 c1) (\<lambda>(x1, c2).
     bind_res (read_array c2) (\<lambda>(x2, c3).
     bind_res (read_array c3) (\<lambda>(x3, c4).
     bind_res (read_u32 c4) (\<lambda>(x4, c5).
     bind_res (read_u32 c5) (\<lambda>(x5, c6).
     bind_res (read_option read_pending_withdrawal c6) (\<lambda>(x6, c7).
     bind_res (read_array c7) (\<lambda>(x7, c8).
     bind_res (read_array c8) (\<lambda>(x8, c9).
     bind_res (read_option read_session_registration_v3 c9) (\<lambda>(x9, c10).
     Inr (\<lparr> w3_version = x0, w3_bump = x1, w3_passkey_pubkey = x2, w3_swig_address = x3,
       w3_cooling_off_seconds = x4, w3_pending_voucher_count = x5, w3_pending_withdrawal = x6,
       w3_identity_claim = x7, w3_dexter_authority = x8, w3_active_session = x9 \<rparr>,
       c10)))))))))))"

lemma read_vault_v3_iff [borsh]: "read_vault_v3 bs = Inr (v, r) \<longleftrightarrow> bs = ser_vault_v3 v @ r"
  by (cases v) (auto simp: read_vault_v3_def ser_vault_v3_def bind_res_eq_Inr split_paired_Ex borsh)

section \<open>Generation 4\<close>

record vault_v4 =
  w4_version :: u8
  w4_bump :: u8
  w4_passkey_pubkey :: "33 bytes"
  w4_swig_address :: pubkey
  w4_cooling_off_seconds :: u32
  w4_pending_voucher_count :: u32
  w4_pending_withdrawal :: "pending_withdrawal option"
  w4_identity_claim :: "32 bytes"
  w4_dexter_authority :: pubkey
  w4_active_session :: "session_registration option"
  w4_outstanding_locked_amount :: u64
  w4_total_crystallized_amount :: u64
  w4_total_settled_amount :: u64

definition ser_vault_v4 :: "vault_v4 \<Rightarrow> byte list" where
  "ser_vault_v4 v =
     [w4_version v] @ [w4_bump v] @ to_list (w4_passkey_pubkey v) @ to_list (w4_swig_address v) @
     le_bytes 4 (w4_cooling_off_seconds v) @ le_bytes 4 (w4_pending_voucher_count v) @
     ser_option ser_pending_withdrawal (w4_pending_withdrawal v) @
     to_list (w4_identity_claim v) @ to_list (w4_dexter_authority v) @
     ser_option ser_session_registration (w4_active_session v) @
     le_bytes 8 (w4_outstanding_locked_amount v) @ le_bytes 8 (w4_total_crystallized_amount v) @
     le_bytes 8 (w4_total_settled_amount v)"

definition read_vault_v4 :: "byte list \<Rightarrow> error + vault_v4 \<times> byte list" where
  "read_vault_v4 c0 =
     bind_res (read_u8 c0) (\<lambda>(x0, c1).
     bind_res (read_u8 c1) (\<lambda>(x1, c2).
     bind_res (read_array c2) (\<lambda>(x2, c3).
     bind_res (read_array c3) (\<lambda>(x3, c4).
     bind_res (read_u32 c4) (\<lambda>(x4, c5).
     bind_res (read_u32 c5) (\<lambda>(x5, c6).
     bind_res (read_option read_pending_withdrawal c6) (\<lambda>(x6, c7).
     bind_res (read_array c7) (\<lambda>(x7, c8).
     bind_res (read_array c8) (\<lambda>(x8, c9).
     bind_res (read_option read_session_registration c9) (\<lambda>(x9, c10).
     bind_res (read_u64 c10) (\<lambda>(x10, c11).
     bind_res (read_u64 c11) (\<lambda>(x11, c12).
     bind_res (read_u64 c12) (\<lambda>(x12, c13).
     Inr (\<lparr> w4_version = x0, w4_bump = x1, w4_passkey_pubkey = x2, w4_swig_address = x3,
       w4_cooling_off_seconds = x4, w4_pending_voucher_count = x5, w4_pending_withdrawal = x6,
       w4_identity_claim = x7, w4_dexter_authority = x8, w4_active_session = x9,
       w4_outstanding_locked_amount = x10, w4_total_crystallized_amount = x11,
       w4_total_settled_amount = x12 \<rparr>,
       c13))))))))))))))"

lemma read_vault_v4_iff [borsh]: "read_vault_v4 bs = Inr (v, r) \<longleftrightarrow> bs = ser_vault_v4 v @ r"
  by (cases v) (auto simp: read_vault_v4_def ser_vault_v4_def bind_res_eq_Inr split_paired_Ex borsh)

definition VAULT_V4_SPACE :: nat where
  "VAULT_V4_SPACE = 1 + 1 + 33 + 32 + 4 + 4 + (1 + PENDING_WITHDRAWAL_SPACE) + 32 + 32 +
     (1 + SESSION_REGISTRATION_SPACE) + 8 + 8 + 8"

section \<open>Generation 5\<close>

record vault_v5 =
  w5_version :: u8
  w5_bump :: u8
  w5_passkey_pubkey :: "33 bytes"
  w5_swig_address :: pubkey
  w5_cooling_off_seconds :: u32
  w5_pending_voucher_count :: u32
  w5_pending_withdrawal :: "pending_withdrawal option"
  w5_identity_claim :: "32 bytes"
  w5_dexter_authority :: pubkey
  w5_active_session :: "session_registration option"
  w5_outstanding_locked_amount :: u64
  w5_total_crystallized_amount :: u64
  w5_total_settled_amount :: u64
  w5_borrowed :: u64
  w5_standby_backer :: "pubkey option"
  w5_standby_cap :: u64
  w5_borrow_recovery_at :: "i64 option"

definition ser_vault_v5 :: "vault_v5 \<Rightarrow> byte list" where
  "ser_vault_v5 v =
     [w5_version v] @ [w5_bump v] @ to_list (w5_passkey_pubkey v) @ to_list (w5_swig_address v) @
     le_bytes 4 (w5_cooling_off_seconds v) @ le_bytes 4 (w5_pending_voucher_count v) @
     ser_option ser_pending_withdrawal (w5_pending_withdrawal v) @
     to_list (w5_identity_claim v) @ to_list (w5_dexter_authority v) @
     ser_option ser_session_registration (w5_active_session v) @
     le_bytes 8 (w5_outstanding_locked_amount v) @ le_bytes 8 (w5_total_crystallized_amount v) @
     le_bytes 8 (w5_total_settled_amount v) @ le_bytes 8 (w5_borrowed v) @
     ser_option to_list (w5_standby_backer v) @ le_bytes 8 (w5_standby_cap v) @
     ser_option (le_bytes 8) (w5_borrow_recovery_at v)"

definition read_vault_v5 :: "byte list \<Rightarrow> error + vault_v5 \<times> byte list" where
  "read_vault_v5 c0 =
     bind_res (read_u8 c0) (\<lambda>(x0, c1).
     bind_res (read_u8 c1) (\<lambda>(x1, c2).
     bind_res (read_array c2) (\<lambda>(x2, c3).
     bind_res (read_array c3) (\<lambda>(x3, c4).
     bind_res (read_u32 c4) (\<lambda>(x4, c5).
     bind_res (read_u32 c5) (\<lambda>(x5, c6).
     bind_res (read_option read_pending_withdrawal c6) (\<lambda>(x6, c7).
     bind_res (read_array c7) (\<lambda>(x7, c8).
     bind_res (read_array c8) (\<lambda>(x8, c9).
     bind_res (read_option read_session_registration c9) (\<lambda>(x9, c10).
     bind_res (read_u64 c10) (\<lambda>(x10, c11).
     bind_res (read_u64 c11) (\<lambda>(x11, c12).
     bind_res (read_u64 c12) (\<lambda>(x12, c13).
     bind_res (read_u64 c13) (\<lambda>(x13, c14).
     bind_res (read_option read_array c14) (\<lambda>(x14, c15).
     bind_res (read_u64 c15) (\<lambda>(x15, c16).
     bind_res (read_option read_u64 c16) (\<lambda>(x16, c17).
     Inr (\<lparr> w5_version = x0, w5_bump = x1, w5_passkey_pubkey = x2, w5_swig_address = x3,
       w5_cooling_off_seconds = x4, w5_pending_voucher_count = x5, w5_pending_withdrawal = x6,
       w5_identity_claim = x7, w5_dexter_authority = x8, w5_active_session = x9,
       w5_outstanding_locked_amount = x10, w5_total_crystallized_amount = x11,
       w5_total_settled_amount = x12, w5_borrowed = x13, w5_standby_backer = x14,
       w5_standby_cap = x15, w5_borrow_recovery_at = x16 \<rparr>,
       c17))))))))))))))))))"

lemma read_vault_v5_iff [borsh]: "read_vault_v5 bs = Inr (v, r) \<longleftrightarrow> bs = ser_vault_v5 v @ r"
  by (cases v) (auto simp: read_vault_v5_def ser_vault_v5_def bind_res_eq_Inr split_paired_Ex borsh)

definition VAULT_V5_SPACE :: nat where
  "VAULT_V5_SPACE = VAULT_V4_SPACE + 8 + (1 + 32) + 8 + (1 + 8)"

lemmas space_defs = PENDING_WITHDRAWAL_SPACE_def SESSION_REGISTRATION_SPACE_def VAULT_SPACE_def
  VAULT_V2_SPACE_def VAULT_V4_SPACE_def VAULT_V5_SPACE_def

lemma layout_lengths:
  "length (ser_vault_v2 a) \<le> VAULT_V2_SPACE" "length (ser_vault_v4 b) \<le> VAULT_V4_SPACE"
  "length (ser_vault_v5 c) \<le> VAULT_V5_SPACE"
  by (simp_all add: ser_vault_v2_def ser_vault_v4_def ser_vault_v5_def space_defs length_ser_option
      ser_session_registration_v2_def split: option.splits)

interpretation vault_v2_codec: borsh_codec ser_vault_v2 read_vault_v2 VAULT_V2_SPACE
  by unfold_locales (simp_all add: borsh layout_lengths)

interpretation vault_v4_codec: borsh_codec ser_vault_v4 read_vault_v4 VAULT_V4_SPACE
  by unfold_locales (simp_all add: borsh layout_lengths)

interpretation vault_v5_codec: borsh_codec ser_vault_v5 read_vault_v5 VAULT_V5_SPACE
  by unfold_locales (simp_all add: borsh layout_lengths)

end
