(* ===== verification/Migrations.thy ===== *)
theory Migrations
  imports Layouts Host
begin

text \<open>
  The migrations of \<open>migrate_*.rs\<close> over raw accounts: owner, bytes and lamports. Each handler decodes
  the bytes with the frozen reader of its generation, checks the recorded authority, writes the next
  generation's image and moves the rent difference. The System program's transfer is a parameter.
\<close>

section \<open>Raw accounts\<close>

record raw_account =
  ac_owner :: pubkey
  ac_data :: "byte list"
  ac_lamports :: u64

text \<open>The System program's transfer of an amount between two balances, and what it is documented to
  do when it succeeds.\<close>

type_synonym transfer = "u64 \<Rightarrow> u64 \<Rightarrow> u64 \<Rightarrow> error + u64 \<times> u64"

definition transfer_law :: "transfer \<Rightarrow> bool" where
  "transfer_law tr \<longleftrightarrow>
     (\<forall>n a b a' b'. tr n a b = Inr (a', b') \<longrightarrow>
        unat a = unat a' + unat n \<and> unat b' = unat b + unat n)"

text \<open>\<open>AccountInfo::resize\<close>: truncate, or extend with zeros.\<close>

definition resize :: "nat \<Rightarrow> byte list \<Rightarrow> byte list" where
  "resize n bs = take n bs @ replicate (n - length bs) 0"

lemma length_resize [simp]: "length (resize n bs) = n"
  by (simp add: resize_def)

lemma resize_grow: "length bs \<le> n \<Longrightarrow> resize n bs = bs @ replicate (n - length bs) 0"
  by (simp add: resize_def)

text \<open>The accounts every migration lists: the vault owned by the program, two signers.\<close>

definition check_migration_accounts ::
  "tx_env \<Rightarrow> raw_account \<Rightarrow> pubkey \<Rightarrow> pubkey \<Rightarrow> error + unit" where
  "check_migration_accounts e acc authority payer_key =
     bind_res (check_signer e authority) (\<lambda>_.
     bind_res (check_signer e payer_key) (\<lambda>_.
     require (ac_owner acc = PROGRAM_ID) (AnchorError ConstraintOwner) (Inr ())))"

lemma check_migration_accounts_iff [result_simps]:
  "check_migration_accounts e acc a p = Inr u \<longleftrightarrow>
     a \<in> set (signers e) \<and> p \<in> set (signers e) \<and> ac_owner acc = PROGRAM_ID"
  by (simp add: check_migration_accounts_def result_simps)

text \<open>Steps (1) and (2) of the versioned migrations.\<close>

definition check_vault_bytes :: "u8 \<Rightarrow> byte list \<Rightarrow> error + unit" where
  "check_vault_bytes v data =
     require (9 \<le> length data) (VaultError UnsupportedVaultVersion) (
     require (take 8 data = VAULT_DISCRIMINATOR) (VaultError UnsupportedVaultVersion) (
     require (data ! 8 = v) (VaultError UnsupportedVaultVersion) (Inr ())))"

text \<open>The growth of an account, the payer funding the rent difference.\<close>

definition top_up ::
  "host \<Rightarrow> transfer \<Rightarrow> nat \<Rightarrow> raw_account \<Rightarrow> u64 \<Rightarrow> error + raw_account \<times> u64" where
  "top_up h tr new_size acc payer =
     (let new_min = rent_minimum_balance h new_size in
      if ac_lamports acc < new_min then
        bind_res (tr (new_min - ac_lamports acc) payer (ac_lamports acc)) (\<lambda>(payer', cur).
        Inr (acc\<lparr>ac_lamports := cur\<rparr>, payer'))
      else Inr (acc, payer))"

definition grow_account ::
  "host \<Rightarrow> transfer \<Rightarrow> nat \<Rightarrow> raw_account \<Rightarrow> u64 \<Rightarrow> error + raw_account \<times> u64" where
  "grow_account h tr new_size acc payer =
     (if length (ac_data acc) < new_size then
        bind_res (top_up h tr new_size acc payer) (\<lambda>(acc1, payer').
        Inr (acc1\<lparr>ac_data := resize new_size (ac_data acc1)\<rparr>, payer'))
      else Inr (acc, payer))"

text \<open>The copy of an image over the front of the account.\<close>

definition write_image :: "byte list \<Rightarrow> raw_account \<Rightarrow> error + raw_account" where
  "write_image out acc =
     require (length out \<le> length (ac_data acc)) (VaultError UnsupportedVaultVersion) (
     Inr (acc\<lparr>ac_data := out @ drop (length out) (ac_data acc)\<rparr>))"

section \<open>Generation 2 to 3\<close>

text \<open>The decode of the prefix up to \<open>dexter_authority\<close>.\<close>

definition read_recorded_authority :: "byte list \<Rightarrow> error + pubkey" where
  "read_recorded_authority c0 =
     bind_res (read_u8 c0) (\<lambda>(version, c1).
     bind_res (read_u8 c1) (\<lambda>(bump, c2).
     bind_res (read_array c2) (\<lambda>(passkey_pubkey :: 33 bytes, c3).
     bind_res (read_array c3) (\<lambda>(swig_address :: pubkey, c4).
     bind_res (read_u32 c4) (\<lambda>(cooling_off_seconds, c5).
     bind_res (read_u32 c5) (\<lambda>(pending_voucher_count, c6).
     bind_res (read_option read_pending_withdrawal c6) (\<lambda>(pending_withdrawal, c7).
     bind_res (read_array c7) (\<lambda>(identity_claim :: 32 bytes, c8).
     bind_res (read_array c8) (\<lambda>(recorded_authority, c9). Inr recorded_authority)))))))))"

definition migrate_v2_to_v3 ::
  "host \<Rightarrow> transfer \<Rightarrow> tx_env \<Rightarrow> raw_account \<Rightarrow> pubkey \<Rightarrow> pubkey \<Rightarrow> u64 \<Rightarrow>
     error + raw_account \<times> u64" where
  "migrate_v2_to_v3 h tr e acc authority payer_key payer =
     bind_res (check_migration_accounts e acc authority payer_key) (\<lambda>_.
     bind_res (check_vault_bytes VAULT_VERSION_V2 (ac_data acc)) (\<lambda>_.
     bind_res (read_recorded_authority (drop 8 (ac_data acc))) (\<lambda>recorded_authority.
     require (recorded_authority = authority) (VaultError PasskeyVerificationFailed) (
     bind_res (grow_account h tr (8 + VAULT_SPACE) acc payer) (\<lambda>(acc1, payer').
     Inr (acc1\<lparr>ac_data := (ac_data acc1)[8 := VAULT_VERSION_V3]\<rparr>, payer'))))))"

section \<open>Generation 3 to 4\<close>

definition session_of_v3 :: "session_registration_v3 \<Rightarrow> session_registration" where
  "session_of_v3 s =
     \<lparr> sr_session_pubkey = r3_session_pubkey s, sr_max_amount = r3_max_amount s,
       sr_expires_at = r3_expires_at s, sr_allowed_counterparty = r3_allowed_counterparty s,
       sr_nonce = r3_nonce s, sr_spent = r3_spent s,
       sr_current_outstanding = r3_current_outstanding s,
       sr_max_revolving_capacity = r3_max_revolving_capacity s,
       sr_crystallized_cumulative = 0, sr_last_locked_sequence = 0 \<rparr>"

definition v4_of_v3 :: "vault_v3 \<Rightarrow> vault_v4" where
  "v4_of_v3 v =
     \<lparr> w4_version = VAULT_VERSION_V4, w4_bump = w3_bump v,
       w4_passkey_pubkey = w3_passkey_pubkey v, w4_swig_address = w3_swig_address v,
       w4_cooling_off_seconds = w3_cooling_off_seconds v,
       w4_pending_voucher_count = w3_pending_voucher_count v,
       w4_pending_withdrawal = w3_pending_withdrawal v, w4_identity_claim = w3_identity_claim v,
       w4_dexter_authority = w3_dexter_authority v,
       w4_active_session = map_option session_of_v3 (w3_active_session v),
       w4_outstanding_locked_amount = 0, w4_total_crystallized_amount = 0,
       w4_total_settled_amount = 0 \<rparr>"

definition migrate_v3_to_v4 ::
  "host \<Rightarrow> transfer \<Rightarrow> tx_env \<Rightarrow> raw_account \<Rightarrow> pubkey \<Rightarrow> pubkey \<Rightarrow> u64 \<Rightarrow>
     error + raw_account \<times> u64" where
  "migrate_v3_to_v4 h tr e acc authority payer_key payer =
     bind_res (check_migration_accounts e acc authority payer_key) (\<lambda>_.
     bind_res (check_vault_bytes VAULT_VERSION_V3 (ac_data acc)) (\<lambda>_.
     bind_res (read_vault_v3 (drop 8 (ac_data acc))) (\<lambda>(v3, rest).
     require (w3_dexter_authority v3 = authority) (VaultError PasskeyVerificationFailed) (
     bind_res (grow_account h tr (8 + VAULT_V4_SPACE) acc payer) (\<lambda>(acc1, payer').
     bind_res (write_image (account_image (ser_vault_v4 (v4_of_v3 v3))) acc1) (\<lambda>acc2.
     Inr (acc2, payer')))))))"

section \<open>Generation 4 to 5\<close>

definition v5_of_v4 :: "vault_v4 \<Rightarrow> vault_v5" where
  "v5_of_v4 v =
     \<lparr> w5_version = VAULT_VERSION_V5, w5_bump = w4_bump v,
       w5_passkey_pubkey = w4_passkey_pubkey v, w5_swig_address = w4_swig_address v,
       w5_cooling_off_seconds = w4_cooling_off_seconds v,
       w5_pending_voucher_count = w4_pending_voucher_count v,
       w5_pending_withdrawal = w4_pending_withdrawal v, w5_identity_claim = w4_identity_claim v,
       w5_dexter_authority = w4_dexter_authority v, w5_active_session = w4_active_session v,
       w5_outstanding_locked_amount = w4_outstanding_locked_amount v,
       w5_total_crystallized_amount = w4_total_crystallized_amount v,
       w5_total_settled_amount = w4_total_settled_amount v,
       w5_borrowed = 0, w5_standby_backer = None, w5_standby_cap = 0,
       w5_borrow_recovery_at = None \<rparr>"

definition migrate_v4_to_v5 ::
  "host \<Rightarrow> transfer \<Rightarrow> tx_env \<Rightarrow> raw_account \<Rightarrow> pubkey \<Rightarrow> pubkey \<Rightarrow> u64 \<Rightarrow>
     error + raw_account \<times> u64" where
  "migrate_v4_to_v5 h tr e acc authority payer_key payer =
     bind_res (check_migration_accounts e acc authority payer_key) (\<lambda>_.
     bind_res (check_vault_bytes VAULT_VERSION_V4 (ac_data acc)) (\<lambda>_.
     bind_res (read_vault_v4 (drop 8 (ac_data acc))) (\<lambda>(v4, rest).
     require (w4_dexter_authority v4 = authority) (VaultError PasskeyVerificationFailed) (
     bind_res (grow_account h tr (8 + VAULT_V5_SPACE) acc payer) (\<lambda>(acc1, payer').
     bind_res (write_image (account_image (ser_vault_v5 (v5_of_v4 v4))) acc1) (\<lambda>acc2.
     Inr (acc2, payer')))))))"

section \<open>Generation 5 to 6\<close>

text \<open>The V6 vault both handlers build; they differ in \<open>live_session_count\<close>.\<close>

definition v6_of_v5 :: "u8 \<Rightarrow> vault_v5 \<Rightarrow> vault" where
  "v6_of_v5 n v =
     \<lparr> version = VAULT_VERSION_V6, bump = w5_bump v, passkey_pubkey = w5_passkey_pubkey v,
       swig_address = w5_swig_address v, cooling_off_seconds = w5_cooling_off_seconds v,
       pending_voucher_count = w5_pending_voucher_count v,
       pending_withdrawal = w5_pending_withdrawal v, identity_claim = w5_identity_claim v,
       dexter_authority = w5_dexter_authority v, live_session_count = n,
       outstanding_locked_amount = w5_outstanding_locked_amount v,
       total_crystallized_amount = w5_total_crystallized_amount v,
       total_settled_amount = w5_total_settled_amount v, borrowed = w5_borrowed v,
       standby_backer = w5_standby_backer v, standby_cap = w5_standby_cap v,
       borrow_recovery_at = w5_borrow_recovery_at v \<rparr>"

text \<open>The padded image, written before the account shrinks.\<close>

definition write_padded :: "nat \<Rightarrow> vault \<Rightarrow> raw_account \<Rightarrow> error + raw_account" where
  "write_padded new_size v6 acc =
     (let out = account_image (ser_vault v6) in
      require (length out \<le> new_size) (VaultError UnsupportedVaultVersion) (
      write_image (resize new_size out) acc))"

text \<open>Everything above the rent-exempt minimum goes back to the payer.\<close>

definition refund_rent :: "host \<Rightarrow> nat \<Rightarrow> raw_account \<Rightarrow> u64 \<Rightarrow> error + raw_account \<times> u64" where
  "refund_rent h new_size acc payer =
     (let new_min = rent_minimum_balance h new_size in
      if new_min < ac_lamports acc then
        (let refund = ac_lamports acc - new_min in
         bind_res (ok_or (checked_sub (ac_lamports acc) refund) Panic) (\<lambda>cur.
         bind_res (ok_or (checked_add payer refund) Panic) (\<lambda>payer'.
         Inr (acc\<lparr>ac_lamports := cur\<rparr>, payer'))))
      else Inr (acc, payer))"

definition shrink_to_v6 :: "host \<Rightarrow> vault \<Rightarrow> raw_account \<Rightarrow> u64 \<Rightarrow> error + raw_account \<times> u64" where
  "shrink_to_v6 h v6 acc payer =
     (let new_size = 8 + VAULT_SPACE in
      bind_res (write_padded new_size v6 acc) (\<lambda>acc1.
      refund_rent h new_size (acc1\<lparr>ac_data := resize new_size (ac_data acc1)\<rparr>) payer))"

definition migrate_v5_to_v6 ::
  "host \<Rightarrow> tx_env \<Rightarrow> raw_account \<Rightarrow> pubkey \<Rightarrow> pubkey \<Rightarrow> u64 \<Rightarrow> error + raw_account \<times> u64" where
  "migrate_v5_to_v6 h e acc authority payer_key payer =
     bind_res (check_migration_accounts e acc authority payer_key) (\<lambda>_.
     bind_res (check_vault_bytes VAULT_VERSION_V5 (ac_data acc)) (\<lambda>_.
     bind_res (read_vault_v5 (drop 8 (ac_data acc))) (\<lambda>(v5, rest).
     require (w5_dexter_authority v5 = authority) (VaultError PasskeyVerificationFailed) (
     require (case w5_active_session v5 of None \<Rightarrow> True
                | Some s \<Rightarrow> sint (sr_expires_at s) \<le> sint (now e))
       (VaultError SessionAlreadyActive) (
     shrink_to_v6 h (v6_of_v5 0 v5) acc payer)))))"

text \<open>The with-session path also creates the session's account; \<open>existing\<close> is what is there before.
  The payer's lamports are those after \<open>init\<close> has funded that account.\<close>

definition carried_session :: "pubkey \<Rightarrow> u8 \<Rightarrow> session_registration \<Rightarrow> session_account" where
  "carried_session vault_key session_bump carried =
     \<lparr> sa_version = SESSION_VERSION_V1, sa_bump = session_bump, sa_vault = vault_key,
       sa_session = carried \<rparr>"

definition migrate_v5_to_v6_with_session ::
  "host \<Rightarrow> tx_env \<Rightarrow> pubkey \<Rightarrow> raw_account \<Rightarrow> pubkey \<Rightarrow> pubkey \<Rightarrow> session_account option \<Rightarrow>
     pubkey \<Rightarrow> pubkey \<Rightarrow> u64 \<Rightarrow> error + raw_account \<times> session_account \<times> u64" where
  "migrate_v5_to_v6_with_session h e vault_key acc authority session_key existing
       live_counterparty payer_key payer =
     bind_res (check_migration_accounts e acc authority payer_key) (\<lambda>_.
     require (existing = None) (AnchorError AccountAlreadyInUse) (
     bind_res (ok_or (find_program_address h (session_seeds vault_key live_counterparty) PROGRAM_ID)
       Panic) (\<lambda>(k, session_bump).
     require (k = session_key) (AnchorError ConstraintSeeds) (
     bind_res (check_vault_bytes VAULT_VERSION_V5 (ac_data acc)) (\<lambda>_.
     bind_res (read_vault_v5 (drop 8 (ac_data acc))) (\<lambda>(v5, rest).
     require (w5_dexter_authority v5 = authority) (VaultError PasskeyVerificationFailed) (
     bind_res (ok_or (w5_active_session v5) (VaultError NoActiveSession)) (\<lambda>carried.
     require (sint (now e) < sint (sr_expires_at carried)) (VaultError SessionExpiryInPast) (
     require (sr_allowed_counterparty carried = live_counterparty)
       (VaultError SessionAccountMisderived) (
     bind_res (shrink_to_v6 h (v6_of_v5 1 v5) acc payer) (\<lambda>(acc1, payer').
     Inr (acc1, carried_session vault_key session_bump carried, payer'))))))))))))"

section \<open>Vaults without a version byte\<close>

definition LEGACY_V1_LEN :: nat where "LEGACY_V1_LEN = 151"
definition LEGACY_V15_LEN :: nat where "LEGACY_V15_LEN = 183"

definition LEGACY_MIGRATE_ADMIN :: pubkey where
  "LEGACY_MIGRATE_ADMIN = pubkey_of ''X4o2kSLzqEQjnAzhq3L3BW92aawMV2n2F37EXd2GMpy''"

record legacy_vault = \<comment> \<open>\<open>LegacyVaultDecoded\<close>\<close>
  lg_bump :: u8
  lg_passkey_pubkey :: "33 bytes"
  lg_swig_address :: pubkey
  lg_cooling_off_seconds :: i64
  lg_pending_voucher_count :: u32
  lg_pending_withdrawal :: "pending_withdrawal option"
  lg_supabase_user_id :: "16 bytes"
  lg_stored_authority :: "pubkey option"

text \<open>\<open>dexter_authority\<close>, which only the longer layout has.\<close>

definition read_legacy_authority :: "nat \<Rightarrow> byte list \<Rightarrow> error + pubkey option" where
  "read_legacy_authority data_len c =
     (if data_len = LEGACY_V15_LEN then bind_res (read_array c) (\<lambda>(k, c'). Inr (Some k))
      else Inr None)"

definition decode_legacy_vault :: "byte list \<Rightarrow> error + legacy_vault" where
  "decode_legacy_vault data =
     require (length data = LEGACY_V1_LEN \<or> length data = LEGACY_V15_LEN)
       (VaultError NotALegacyVault) (
     require (take 8 data = VAULT_DISCRIMINATOR) (VaultError NotALegacyVault) (
     bind_res (read_u8 (drop 8 data)) (\<lambda>(bump, c1).
     bind_res (read_array c1) (\<lambda>(passkey_pubkey, c2).
     bind_res (read_array c2) (\<lambda>(swig_address, c3).
     bind_res (read_u64 c3) (\<lambda>(cooling_off_seconds, c4).
     bind_res (read_u32 c4) (\<lambda>(pending_voucher_count, c5).
     bind_res (read_option read_pending_withdrawal c5) (\<lambda>(pending_withdrawal, c6).
     bind_res (read_array c6) (\<lambda>(supabase_user_id, c7).
     bind_res (read_legacy_authority (length data) c7) (\<lambda>stored_authority.
     Inr \<lparr> lg_bump = bump, lg_passkey_pubkey = passkey_pubkey, lg_swig_address = swig_address,
       lg_cooling_off_seconds = cooling_off_seconds,
       lg_pending_voucher_count = pending_voucher_count,
       lg_pending_withdrawal = pending_withdrawal, lg_supabase_user_id = supabase_user_id,
       lg_stored_authority = stored_authority \<rparr>))))))))))"

text \<open>\<open>clamp(0, u32::MAX as i64) as u32\<close>.\<close>

definition clamp_u32 :: "i64 \<Rightarrow> u32" where
  "clamp_u32 c =
     (if sint c < 0 then 0 else if 2 ^ 32 - 1 < sint c then - 1 else ucast c)"

definition v6_of_legacy :: "legacy_vault \<Rightarrow> pubkey \<Rightarrow> vault" where
  "v6_of_legacy d authority =
     \<lparr> version = VAULT_VERSION_V6, bump = lg_bump d, passkey_pubkey = lg_passkey_pubkey d,
       swig_address = lg_swig_address d,
       cooling_off_seconds = clamp_u32 (lg_cooling_off_seconds d),
       pending_voucher_count = lg_pending_voucher_count d,
       pending_withdrawal = lg_pending_withdrawal d,
       identity_claim = arr (to_list (lg_supabase_user_id d) @ replicate 16 0),
       dexter_authority = authority, live_session_count = 0, outstanding_locked_amount = 0,
       total_crystallized_amount = 0, total_settled_amount = 0, borrowed = 0,
       standby_backer = None, standby_cap = 0, borrow_recovery_at = None \<rparr>"

definition encode_v6_image :: "legacy_vault \<Rightarrow> pubkey \<Rightarrow> error + byte list" where
  "encode_v6_image d authority =
     (let target = 8 + VAULT_SPACE; out = account_image (ser_vault (v6_of_legacy d authority)) in
      require (length out \<le> target) (VaultError UnsupportedVaultVersion) (
      Inr (resize target out)))"

definition migrate_legacy_to_v6 ::
  "host \<Rightarrow> transfer \<Rightarrow> tx_env \<Rightarrow> raw_account \<Rightarrow> pubkey \<Rightarrow> pubkey \<Rightarrow> u64 \<Rightarrow>
     error + raw_account \<times> u64" where
  "migrate_legacy_to_v6 h tr e acc authority payer_key payer =
     bind_res (check_migration_accounts e acc authority payer_key) (\<lambda>_.
     bind_res (decode_legacy_vault (ac_data acc)) (\<lambda>legacy.
     bind_res (case lg_stored_authority legacy of
         Some stored \<Rightarrow>
           require (authority = stored) (VaultError PasskeyVerificationFailed) (Inr stored)
       | None \<Rightarrow>
           require (authority = LEGACY_MIGRATE_ADMIN) (VaultError PasskeyVerificationFailed)
             (Inr LEGACY_MIGRATE_ADMIN)) (\<lambda>new_authority.
     bind_res (encode_v6_image legacy new_authority) (\<lambda>image.
     bind_res (top_up h tr (length image) acc payer) (\<lambda>(acc1, payer').
     (let acc2 = acc1\<lparr>ac_data := resize (length image) (ac_data acc1)\<rparr> in
      require (length (ac_data acc2) = length image) (VaultError UnsupportedVaultVersion) (
      Inr (acc2\<lparr>ac_data := image\<rparr>, payer'))))))))"

end
