(* ===== verification/Migration_Laws.thy ===== *)
theory Migration_Laws
  imports Migrations
begin

text \<open>
  What the migrations achieve: when each succeeds and the image it leaves, that the current program
  loads the result with every field of the old generation in place, and where the lamports go.
\<close>

section \<open>Versioned images\<close>

lemma versioned_bytes:
  "check_vault_bytes k data = Inr u \<and> drop 8 data = b # bs \<longleftrightarrow>
     data = VAULT_DISCRIMINATOR @ b # bs \<and> b = k"
proof
  assume l: "check_vault_bytes k data = Inr u \<and> drop 8 data = b # bs"
  then have t: "take 8 data = VAULT_DISCRIMINATOR" and n: "data ! 8 = k" and d: "drop 8 data = b # bs"
    and len: "9 \<le> length data"
    by (simp_all add: check_vault_bytes_def result_simps)
  have "data = VAULT_DISCRIMINATOR @ b # bs" using t d append_take_drop_id [of 8 data] by simp
  moreover from this have "data ! 8 = b" by (simp add: nth_append)
  ultimately show "data = VAULT_DISCRIMINATOR @ b # bs \<and> b = k" using n by simp
qed (simp add: check_vault_bytes_def result_simps nth_append)

lemma decode_v3_iff:
  "check_vault_bytes VAULT_VERSION_V3 data = Inr u \<and> read_vault_v3 (drop 8 data) = Inr (v, r) \<longleftrightarrow>
     data = account_image (ser_vault_v3 v) @ r \<and> w3_version v = 3"
  using versioned_bytes [of VAULT_VERSION_V3 data u "w3_version v"]
  by (simp add: borsh account_image_def ser_vault_v3_def)

lemma decode_v4_iff:
  "check_vault_bytes VAULT_VERSION_V4 data = Inr u \<and> read_vault_v4 (drop 8 data) = Inr (v, r) \<longleftrightarrow>
     data = account_image (ser_vault_v4 v) @ r \<and> w4_version v = 4"
  using versioned_bytes [of VAULT_VERSION_V4 data u "w4_version v"]
  by (simp add: borsh account_image_def ser_vault_v4_def)

lemma decode_v5_iff:
  "check_vault_bytes VAULT_VERSION_V5 data = Inr u \<and> read_vault_v5 (drop 8 data) = Inr (v, r) \<longleftrightarrow>
     data = account_image (ser_vault_v5 v) @ r \<and> w5_version v = 5"
  using versioned_bytes [of VAULT_VERSION_V5 data u "w5_version v"]
  by (simp add: borsh account_image_def ser_vault_v5_def)

lemma length_account_image [simp]: "length (account_image b) = 8 + length b"
  by (simp add: account_image_def)

section \<open>Growing\<close>

lemma top_up_frame:
  assumes "top_up h tr n acc p = Inr (a1, p1)"
  shows "ac_data a1 = ac_data acc" and "ac_owner a1 = ac_owner acc"
  using assms by (auto simp: top_up_def Let_def bind_res_eq_Inr split: if_splits)

lemma grow_account_frame:
  assumes "grow_account h tr n acc p = Inr (a1, p1)"
  shows "n \<le> length (ac_data a1)" and "length (ac_data acc) \<le> length (ac_data a1)"
    and "ac_owner a1 = ac_owner acc"
    and "ac_data a1 = ac_data acc @ replicate (n - length (ac_data acc)) 0"
  using assms top_up_frame
  by (auto simp: grow_account_def bind_res_eq_Inr resize_grow split: if_splits)

lemma write_image_eq_Inr:
  "write_image out acc = Inr acc' \<longleftrightarrow>
     length out \<le> length (ac_data acc) \<and>
     acc' = acc\<lparr>ac_data := out @ drop (length out) (ac_data acc)\<rparr>"
  by (auto simp: write_image_def result_simps)

text \<open>An account already above the new rent minimum grows with no transfer.\<close>

lemma grow_account_funded:
  assumes "rent_minimum_balance h n \<le> ac_lamports acc" and "length (ac_data acc) < n"
  shows "grow_account h tr n acc p = Inr (acc\<lparr>ac_data := resize n (ac_data acc)\<rparr>, p)"
  using assms by (simp add: grow_account_def top_up_def not_less [symmetric])

text \<open>The image always fits after the growth.\<close>

lemma grown_fits:
  assumes "grow_account h tr (8 + n) acc p = Inr (a1, p1)" and "length body \<le> n"
  shows "length (account_image body) \<le> length (ac_data a1)"
  using grow_account_frame(1) [OF assms(1)] assms(2) by simp

lemma migrate_v3_to_v4_eq_Inr:
  "migrate_v3_to_v4 h tr e acc auth pk p = Inr (acc', p') \<longleftrightarrow>
     auth \<in> set (signers e) \<and> pk \<in> set (signers e) \<and> ac_owner acc = PROGRAM_ID \<and>
     (\<exists>v r a1. ac_data acc = account_image (ser_vault_v3 v) @ r \<and> w3_version v = 3 \<and>
        w3_dexter_authority v = auth \<and> grow_account h tr (8 + VAULT_V4_SPACE) acc p = Inr (a1, p') \<and>
        acc' = a1\<lparr>ac_data := account_image (ser_vault_v4 (v4_of_v3 v)) @
          drop (length (account_image (ser_vault_v4 (v4_of_v3 v)))) (ac_data a1)\<rparr>)"
  using grown_fits [OF _ layout_lengths(2)] decode_v3_iff [of "ac_data acc"]
  by (simp add: migrate_v3_to_v4_def bind_res_eq_Inr require_eq_Inr split_paired_Ex
      check_migration_accounts_iff write_image_eq_Inr del: length_account_image) blast

lemma migrate_v4_to_v5_eq_Inr:
  "migrate_v4_to_v5 h tr e acc auth pk p = Inr (acc', p') \<longleftrightarrow>
     auth \<in> set (signers e) \<and> pk \<in> set (signers e) \<and> ac_owner acc = PROGRAM_ID \<and>
     (\<exists>v r a1. ac_data acc = account_image (ser_vault_v4 v) @ r \<and> w4_version v = 4 \<and>
        w4_dexter_authority v = auth \<and> grow_account h tr (8 + VAULT_V5_SPACE) acc p = Inr (a1, p') \<and>
        acc' = a1\<lparr>ac_data := account_image (ser_vault_v5 (v5_of_v4 v)) @
          drop (length (account_image (ser_vault_v5 (v5_of_v4 v)))) (ac_data a1)\<rparr>)"
  using grown_fits [OF _ layout_lengths(3)] decode_v4_iff [of "ac_data acc"]
  by (simp add: migrate_v4_to_v5_def bind_res_eq_Inr require_eq_Inr split_paired_Ex
      check_migration_accounts_iff write_image_eq_Inr del: length_account_image) blast

section \<open>Shrinking\<close>

definition vault_image :: "vault \<Rightarrow> byte list" where
  "vault_image v = resize (8 + VAULT_SPACE) (account_image (ser_vault v))"

lemma length_vault_image [simp]: "length (vault_image v) = 279"
  by (simp add: vault_image_def space_defs)

lemma vault_image_pad: "\<exists>n. vault_image v = account_image (ser_vault v) @ replicate n 0"
  using length_ser_vault [of v] by (auto simp: vault_image_def resize_grow)

lemma load_vault_image [simp]: "try_deserialize_vault (vault_image v) = Inr v"
  using vault_image_pad [of v] by (metis try_deserialize_image)

text \<open>The payer's balance must hold what the shrink frees.\<close>

lemma refund_rent_eq_Inr:
  "refund_rent h n acc p = Inr (acc', p') \<longleftrightarrow>
     unat (ac_lamports acc') = min (unat (ac_lamports acc)) (unat (rent_minimum_balance h n)) \<and>
     unat p' + unat (ac_lamports acc') = unat p + unat (ac_lamports acc) \<and>
     acc' = acc\<lparr>ac_lamports := ac_lamports acc'\<rparr>"
proof (cases "rent_minimum_balance h n < ac_lamports acc")
  case True
  let ?m = "rent_minimum_balance h n"
  have le: "unat ?m < unat (ac_lamports acc)" using True by (simp add: word_less_nat_alt)
  have sub: "unat (ac_lamports acc - ?m) = unat (ac_lamports acc) - unat ?m"
    using le by (simp add: unat_sub word_le_nat_alt)
  have "checked_sub (ac_lamports acc) (ac_lamports acc - ?m) = Some ?m"
    using le sub by (simp add: checked_sub_eq_Some)
  then have "refund_rent h n acc p = Inr (acc', p') \<longleftrightarrow>
      unat p' = unat p + unat (ac_lamports acc - ?m) \<and> acc' = acc\<lparr>ac_lamports := ?m\<rparr>"
    using True by (auto simp: refund_rent_def Let_def bind_res_eq_Inr ok_or_eq_Inr checked_add_eq_Some)
  also have "\<dots> \<longleftrightarrow> unat (ac_lamports acc') = min (unat (ac_lamports acc)) (unat ?m) \<and>
      unat p' + unat (ac_lamports acc') = unat p + unat (ac_lamports acc) \<and>
      acc' = acc\<lparr>ac_lamports := ac_lamports acc'\<rparr>"
    using le sub by (cases acc; cases acc') (auto simp flip: word_unat_eq_iff)
  finally show ?thesis .
next
  case False
  then have le: "unat (ac_lamports acc) \<le> unat (rent_minimum_balance h n)"
    by (simp add: not_less word_le_nat_alt)
  show ?thesis
  proof
    assume "refund_rent h n acc p = Inr (acc', p')"
    then show "unat (ac_lamports acc') = min (unat (ac_lamports acc)) (unat (rent_minimum_balance h n)) \<and>
      unat p' + unat (ac_lamports acc') = unat p + unat (ac_lamports acc) \<and>
      acc' = acc\<lparr>ac_lamports := ac_lamports acc'\<rparr>"
      using False le by (auto simp: refund_rent_def Let_def)
  next
    assume r: "unat (ac_lamports acc') = min (unat (ac_lamports acc)) (unat (rent_minimum_balance h n)) \<and>
      unat p' + unat (ac_lamports acc') = unat p + unat (ac_lamports acc) \<and>
      acc' = acc\<lparr>ac_lamports := ac_lamports acc'\<rparr>"
    then have "unat (ac_lamports acc') = unat (ac_lamports acc)" using le by simp
    then have lam: "ac_lamports acc' = ac_lamports acc" by (rule unsigned_word_eqI)
    with r have "unat p' = unat p" by simp
    then have "p' = p" by (rule unsigned_word_eqI)
    moreover from r have "acc' = acc\<lparr>ac_lamports := ac_lamports acc'\<rparr>" by blast
    ultimately show "refund_rent h n acc p = Inr (acc', p')" using False lam
      by (simp add: refund_rent_def Let_def)
  qed
qed

lemma refund_rent_data: "refund_rent h n acc p = Inr (acc', p') \<Longrightarrow> ac_data acc' = ac_data acc"
  by (auto simp: refund_rent_def Let_def bind_res_eq_Inr split: if_splits)

lemma shrink_to_v6_eq_Inr:
  "shrink_to_v6 h v acc p = Inr (acc', p') \<longleftrightarrow>
     279 \<le> length (ac_data acc) \<and>
     refund_rent h 279 (acc\<lparr>ac_data := vault_image v\<rparr>) p = Inr (acc', p')"
proof -
  have 279: "8 + VAULT_SPACE = 279" by (simp add: space_defs)
  have "length (account_image (ser_vault v)) \<le> 279"
    using length_ser_vault [of v] 279 by simp
  moreover have "resize 279 (vault_image v @ drop 279 (ac_data acc)) = vault_image v"
    by (simp add: resize_def)
  moreover have "resize 279 (account_image (ser_vault v)) = vault_image v"
    by (simp add: vault_image_def 279)
  ultimately show ?thesis
    by (auto simp: shrink_to_v6_def Let_def 279 write_padded_def bind_res_eq_Inr require_eq_Inr
        write_image_eq_Inr simp del: length_account_image)
qed

lemma migrate_v5_to_v6_eq_Inr:
  "migrate_v5_to_v6 h e acc auth pk p = Inr (acc', p') \<longleftrightarrow>
     auth \<in> set (signers e) \<and> pk \<in> set (signers e) \<and> ac_owner acc = PROGRAM_ID \<and>
     (\<exists>v r. ac_data acc = account_image (ser_vault_v5 v) @ r \<and> w5_version v = 5 \<and>
        w5_dexter_authority v = auth \<and>
        (w5_active_session v = None \<or>
         (\<exists>s. w5_active_session v = Some s \<and> sint (sr_expires_at s) \<le> sint (now e))) \<and>
        279 \<le> length (ac_data acc) \<and>
        refund_rent h 279 (acc\<lparr>ac_data := vault_image (v6_of_v5 0 v)\<rparr>) p = Inr (acc', p'))"
proof -
  have "(case s of None \<Rightarrow> True | Some s \<Rightarrow> sint (sr_expires_at s) \<le> sint (now e)) \<longleftrightarrow>
      s = None \<or> (\<exists>x. s = Some x \<and> sint (sr_expires_at x) \<le> sint (now e))"
    for s :: "session_registration option"
    by (cases s) auto
  then show ?thesis
    using decode_v5_iff [of "ac_data acc"]
    by (simp add: migrate_v5_to_v6_def bind_res_eq_Inr require_eq_Inr split_paired_Ex
        check_migration_accounts_iff shrink_to_v6_eq_Inr del: length_account_image) blast
qed

lemma migrate_v5_to_v6_with_session_eq_Inr:
  "migrate_v5_to_v6_with_session h e vk acc auth sk existing cp pk p = Inr (acc', sa, p') \<longleftrightarrow>
     auth \<in> set (signers e) \<and> pk \<in> set (signers e) \<and> ac_owner acc = PROGRAM_ID \<and> existing = None \<and>
     (\<exists>v r b s. ac_data acc = account_image (ser_vault_v5 v) @ r \<and> w5_version v = 5 \<and>
        w5_dexter_authority v = auth \<and>
        find_program_address h (session_seeds vk cp) PROGRAM_ID = Some (sk, b) \<and>
        w5_active_session v = Some s \<and> sint (now e) < sint (sr_expires_at s) \<and>
        sr_allowed_counterparty s = cp \<and> sa = carried_session vk b s \<and>
        279 \<le> length (ac_data acc) \<and>
        refund_rent h 279 (acc\<lparr>ac_data := vault_image (v6_of_v5 1 v)\<rparr>) p = Inr (acc', p'))"
  using decode_v5_iff [of "ac_data acc"]
  by (simp add: migrate_v5_to_v6_with_session_def bind_res_eq_Inr require_eq_Inr ok_or_eq_Inr
      split_paired_Ex check_migration_accounts_iff shrink_to_v6_eq_Inr del: length_account_image)
    blast

section \<open>Lamports\<close>

definition lamports_kept :: "raw_account \<Rightarrow> u64 \<Rightarrow> raw_account \<Rightarrow> u64 \<Rightarrow> bool" where
  "lamports_kept acc p acc' p' \<longleftrightarrow>
     unat (ac_lamports acc') + unat p' = unat (ac_lamports acc) + unat p"

lemma refund_rent_keeps:
  assumes "refund_rent h n acc p = Inr (acc', p')"
  shows "ac_data acc' = ac_data acc" and "lamports_kept (acc\<lparr>ac_data := x\<rparr>) p acc' p'"
  using refund_rent_data [OF assms] assms by (auto simp: refund_rent_eq_Inr lamports_kept_def)

lemma top_up_lamports:
  assumes "transfer_law tr" and "top_up h tr n acc p = Inr (a1, p1)"
  shows "lamports_kept acc p a1 p1"
    and "unat (ac_lamports a1) = max (unat (ac_lamports acc)) (unat (rent_minimum_balance h n))"
proof -
  let ?m = "rent_minimum_balance h n"
  have "lamports_kept acc p a1 p1 \<and>
      unat (ac_lamports a1) = max (unat (ac_lamports acc)) (unat ?m)"
  proof (cases "ac_lamports acc < ?m")
    case True
    then have le: "unat (ac_lamports acc) < unat ?m" by (simp add: word_less_nat_alt)
    then have sub: "unat (?m - ac_lamports acc) = unat ?m - unat (ac_lamports acc)"
      by (simp add: unat_sub word_le_nat_alt)
    from assms(2) True obtain cur where
      tr: "tr (?m - ac_lamports acc) p (ac_lamports acc) = Inr (p1, cur)"
      and a1: "a1 = acc\<lparr>ac_lamports := cur\<rparr>"
      by (auto simp: top_up_def Let_def bind_res_eq_Inr)
    from assms(1) tr have "unat p = unat p1 + unat (?m - ac_lamports acc)"
      "unat cur = unat (ac_lamports acc) + unat (?m - ac_lamports acc)"
      unfolding transfer_law_def by blast+
    then show ?thesis using le sub by (simp add: a1 lamports_kept_def)
  next
    case False
    then have "unat ?m \<le> unat (ac_lamports acc)" by (simp add: not_less word_le_nat_alt)
    then show ?thesis using assms(2) False by (auto simp: top_up_def Let_def lamports_kept_def)
  qed
  then show "lamports_kept acc p a1 p1"
    and "unat (ac_lamports a1) = max (unat (ac_lamports acc)) (unat ?m)" by blast+
qed

lemma grow_account_lamports:
  assumes "transfer_law tr" and "grow_account h tr n acc p = Inr (a1, p1)"
  shows "lamports_kept acc p a1 p1"
    and "length (ac_data acc) < n \<Longrightarrow> rent_minimum_balance h n \<le> ac_lamports a1"
  using assms top_up_lamports [OF assms(1)]
  by (auto simp: grow_account_def bind_res_eq_Inr lamports_kept_def word_le_nat_alt
      split: if_splits)

section \<open>Vaults without a version byte\<close>

definition ser_legacy_vault :: "legacy_vault \<Rightarrow> byte list" where
  "ser_legacy_vault d =
     [lg_bump d] @ to_list (lg_passkey_pubkey d) @ to_list (lg_swig_address d) @
     le_bytes 8 (lg_cooling_off_seconds d) @ le_bytes 4 (lg_pending_voucher_count d) @
     ser_option ser_pending_withdrawal (lg_pending_withdrawal d) @
     to_list (lg_supabase_user_id d) @
     (case lg_stored_authority d of None \<Rightarrow> [] | Some k \<Rightarrow> to_list k)"

definition legacy_length :: "legacy_vault \<Rightarrow> nat" where
  "legacy_length d = (if lg_stored_authority d = None then LEGACY_V1_LEN else LEGACY_V15_LEN)"

lemma take_drop_image:
  "take 8 data = VAULT_DISCRIMINATOR \<and> drop 8 data = b \<longleftrightarrow> data = account_image b"
  by (metis account_image_def append_eq_conv_conj append_take_drop_id length_discriminator)

lemma decode_legacy_vault_iff:
  "decode_legacy_vault data = Inr d \<longleftrightarrow>
     length data = legacy_length d \<and> (\<exists>slack. data = account_image (ser_legacy_vault d @ slack))"
proof -
  let ?auth = "read_legacy_authority (length data)"
  let ?tail = "case lg_stored_authority d of None \<Rightarrow> [] | Some k \<Rightarrow> to_list k"
  have auth: "?auth c7 = Inr (lg_stored_authority d) \<longleftrightarrow>
      (lg_stored_authority d \<noteq> None \<longleftrightarrow> length data = LEGACY_V15_LEN) \<and> (\<exists>r. c7 = ?tail @ r)" for c7
    by (auto simp: read_legacy_authority_def bind_res_eq_Inr split_paired_Ex borsh
        split: option.splits)
  have "decode_legacy_vault data = Inr d \<longleftrightarrow>
      (length data = LEGACY_V1_LEN \<or> length data = LEGACY_V15_LEN) \<and>
      take 8 data = VAULT_DISCRIMINATOR \<and>
      (\<exists>c7. drop 8 data = [lg_bump d] @ to_list (lg_passkey_pubkey d) @ to_list (lg_swig_address d) @
         le_bytes 8 (lg_cooling_off_seconds d) @ le_bytes 4 (lg_pending_voucher_count d) @
         ser_option ser_pending_withdrawal (lg_pending_withdrawal d) @
         to_list (lg_supabase_user_id d) @ c7 \<and> ?auth c7 = Inr (lg_stored_authority d))"
    by (cases d) (simp add: decode_legacy_vault_def bind_res_eq_Inr require_eq_Inr split_paired_Ex
        borsh, fast)
  then have "decode_legacy_vault data = Inr d \<longleftrightarrow>
      (length data = LEGACY_V1_LEN \<or> length data = LEGACY_V15_LEN) \<and>
      take 8 data = VAULT_DISCRIMINATOR \<and>
      (\<exists>slack. drop 8 data = ser_legacy_vault d @ slack \<and>
         (lg_stored_authority d \<noteq> None \<longleftrightarrow> length data = LEGACY_V15_LEN))"
    unfolding auth ser_legacy_vault_def append_assoc by blast
  also have "\<dots> \<longleftrightarrow> length data = legacy_length d \<and>
      (\<exists>slack. take 8 data = VAULT_DISCRIMINATOR \<and> drop 8 data = ser_legacy_vault d @ slack)"
    unfolding legacy_length_def LEGACY_V1_LEN_def LEGACY_V15_LEN_def
    by (cases "lg_stored_authority d = None") auto
  finally show ?thesis unfolding take_drop_image .
qed

lemma encode_v6_image_eq: "encode_v6_image d a = Inr (vault_image (v6_of_legacy d a))"
  using length_ser_vault [of "v6_of_legacy d a"]
  by (simp add: encode_v6_image_def Let_def vault_image_def)

text \<open>The clamp saturates at both ends of \<open>u32\<close>.\<close>

lemma unat_clamp_u32: "int (unat (clamp_u32 c)) = min (2 ^ 32 - 1) (max 0 (sint c))"
proof (cases "0 \<le> sint c \<and> sint c < 2 ^ 32")
  case True
  then have "uint c = sint c" by (simp add: uint_sint take_bit_int_eq_self)
  then have "uint (ucast c :: 32 word) = sint c"
    using True by (simp add: unsigned_ucast_eq take_bit_int_eq_self)
  then show ?thesis using True by (simp add: clamp_u32_def)
next
  case False
  then show ?thesis by (auto simp: clamp_u32_def unsigned_minus_1_eq_mask mask_eq_exp_minus_1)
qed

text \<open>The authority a legacy vault ends up with: the stored one, or the hard-coded admin.\<close>

definition legacy_authority :: "legacy_vault \<Rightarrow> pubkey" where
  "legacy_authority d =
     (case lg_stored_authority d of Some stored \<Rightarrow> stored | None \<Rightarrow> LEGACY_MIGRATE_ADMIN)"

lemma migrate_legacy_to_v6_eq_Inr:
  "migrate_legacy_to_v6 h tr e acc auth pk p = Inr (acc', p') \<longleftrightarrow>
     auth \<in> set (signers e) \<and> pk \<in> set (signers e) \<and> ac_owner acc = PROGRAM_ID \<and>
     (\<exists>d slack a1. length (ac_data acc) = legacy_length d \<and>
        ac_data acc = account_image (ser_legacy_vault d @ slack) \<and> auth = legacy_authority d \<and>
        top_up h tr 279 acc p = Inr (a1, p') \<and>
        acc' = a1\<lparr>ac_data := vault_image (v6_of_legacy d auth)\<rparr>)"
proof -
  have gate: "(case lg_stored_authority d of
         Some stored \<Rightarrow>
           require (auth = stored) (VaultError PasskeyVerificationFailed) (Inr stored)
       | None \<Rightarrow> require (auth = LEGACY_MIGRATE_ADMIN) (VaultError PasskeyVerificationFailed)
             (Inr LEGACY_MIGRATE_ADMIN)) = Inr k \<longleftrightarrow> auth = legacy_authority d \<and> k = auth" for d k
    by (auto simp: legacy_authority_def result_simps split: option.splits)
  show ?thesis
    by (simp add: migrate_legacy_to_v6_def bind_res_eq_Inr require_eq_Inr split_paired_Ex gate
        check_migration_accounts_iff encode_v6_image_eq decode_legacy_vault_iff Let_def
        del: length_account_image) blast
qed

section \<open>Generation 2\<close>

text \<open>Reading what a serializer wrote, field by field.\<close>

lemma read_back [simp]:
  "read_u32 (le_bytes 4 w @ r) = Inr (w, r)" "read_u64 (le_bytes 8 x @ r) = Inr (x, r)"
  "read_array (to_list (a :: ('n::len) bytes) @ r) = Inr (a, r)"
  "read_option read_pending_withdrawal (ser_option ser_pending_withdrawal pw @ r) = Inr (pw, r)"
  by (simp_all add: borsh)

lemma read_option_tag:
  "read_option rd (0 # r) = Inr (None, r)"
  "read_option rd (1 # r) = bind_res (rd r) (\<lambda>(x, r'). Inr (Some x, r'))"
  by (simp_all add: read_option_def read_u8_cases)

lemma read_recorded_authority_v2:
  "read_recorded_authority (ser_vault_v2 v @ r) = Inr (w2_dexter_authority v)"
  by (simp add: read_recorded_authority_def ser_vault_v2_def read_u8_cases)

definition v3_of_v2 :: "vault_v2 \<Rightarrow> vault_v3" where
  "v3_of_v2 v =
     \<lparr> w3_version = VAULT_VERSION_V3, w3_bump = w2_bump v,
       w3_passkey_pubkey = w2_passkey_pubkey v, w3_swig_address = w2_swig_address v,
       w3_cooling_off_seconds = w2_cooling_off_seconds v,
       w3_pending_voucher_count = w2_pending_voucher_count v,
       w3_pending_withdrawal = w2_pending_withdrawal v, w3_identity_claim = w2_identity_claim v,
       w3_dexter_authority = w2_dexter_authority v,
       w3_active_session = map_option (\<lambda>s.
         \<lparr> r3_session_pubkey = r2_session_pubkey s, r3_max_amount = r2_max_amount s,
           r3_expires_at = r2_expires_at s, r3_allowed_counterparty = r2_allowed_counterparty s,
           r3_nonce = r2_nonce s, r3_spent = r2_spent s, r3_current_outstanding = 0,
           r3_max_revolving_capacity = 0 \<rparr>) (w2_active_session v) \<rparr>"

lemma le_bytes_zero: "le_bytes n (0 :: 'a::len word) = replicate n 0"
  by (induction n) simp_all

text \<open>Zeros after the old session read as the two meter fields; without them the read runs out.\<close>

lemma read_v3_of_v2:
  assumes "w2_version v = VAULT_VERSION_V3"
    and "w2_active_session v = None \<or> 16 \<le> n"
  shows "read_vault_v3 (ser_vault_v2 v @ replicate n 0) =
    Inr (v3_of_v2 v, replicate (if w2_active_session v = None then n else n - 16) 0)"
proof (cases "w2_active_session v")
  case None
  then show ?thesis using assms(1)
    by (simp add: read_vault_v3_def ser_vault_v2_def read_u8_cases read_option_tag v3_of_v2_def)
next
  case (Some s)
  with assms(2) have "n = 8 + (8 + (n - 16))" by simp
  then have "replicate n (0 :: byte) =
      le_bytes 8 (0 :: u64) @ le_bytes 8 (0 :: u64) @ replicate (n - 16) 0"
    by (metis replicate_add le_bytes_zero)
  then show ?thesis using assms(1) Some
    by (simp add: read_vault_v3_def ser_vault_v2_def read_u8_cases read_option_tag v3_of_v2_def
        read_session_registration_v3_def ser_session_registration_v2_def)
qed

lemma read_u64_short: "length bs < 8 \<Longrightarrow> read_u64 bs = Inl (ProgramError BorshIoError)"
  by (simp add: read_u64_def read_word_def read_bytes_def)

lemma read_v3_runs_out:
  assumes "w2_active_session v = Some s"
  shows "read_vault_v3 (ser_vault_v2 v) = Inl (ProgramError BorshIoError)"
proof -
  have "read_u64 (le_bytes 8 w) = Inr (w, [])" for w by (simp add: borsh)
  then show ?thesis using assms
    by (simp add: read_vault_v3_def ser_vault_v2_def read_u8_cases read_option_tag
        read_session_registration_v3_def ser_session_registration_v2_def read_u64_short)
qed

text \<open>An account as the generation-2 program created it: 289 bytes, zeros after the body.\<close>

definition standard_v2 :: "raw_account \<Rightarrow> vault_v2 \<Rightarrow> nat \<Rightarrow> bool" where
  "standard_v2 acc v n \<longleftrightarrow>
     ac_owner acc = PROGRAM_ID \<and> w2_version v = 2 \<and> length (ac_data acc) = 8 + VAULT_V2_SPACE \<and>
     ac_data acc = account_image (ser_vault_v2 v @ replicate n 0)"

definition bump_v3 :: "vault_v2 \<Rightarrow> vault_v2" where
  "bump_v3 v = v\<lparr>w2_version := VAULT_VERSION_V3\<rparr>"

lemma standard_v2_slack:
  assumes "standard_v2 acc v n"
  shows "n = (if w2_pending_withdrawal v = None then 48 else 0) +
    (if w2_active_session v = None then 92 else 0)"
  using assms
  by (auto simp: standard_v2_def ser_vault_v2_def space_defs length_ser_option
      ser_session_registration_v2_def split: option.splits)

lemma migrate_v2_to_v3_standard:
  assumes "standard_v2 acc v n"
  shows "migrate_v2_to_v3 h tr e acc auth pk p = Inr (acc', p') \<longleftrightarrow>
    auth \<in> set (signers e) \<and> pk \<in> set (signers e) \<and> auth = w2_dexter_authority v \<and> p' = p \<and>
    acc' = acc\<lparr>ac_data := account_image (ser_vault_v2 (bump_v3 v) @ replicate n 0)\<rparr>"
proof -
  let ?d = "account_image (ser_vault_v2 v @ replicate n 0)"
  have d: "ac_data acc = ?d" and len: "length ?d = 289" and own: "ac_owner acc = PROGRAM_ID"
    and two: "w2_version v = 2"
    using assms by (auto simp: standard_v2_def space_defs simp del: length_account_image)
  have no_growth: "grow_account h tr (8 + VAULT_SPACE) acc p = Inr (acc, p)"
    using len by (simp add: grow_account_def d space_defs)
  have "check_vault_bytes VAULT_VERSION_V2 ?d = Inr ()"
    using two by (simp add: check_vault_bytes_def result_simps account_image_def ser_vault_v2_def
        nth_append)
  moreover have "read_recorded_authority (drop 8 ?d) = Inr (w2_dexter_authority v)"
    by (simp add: account_image_def read_recorded_authority_v2)
  moreover have "?d[8 := VAULT_VERSION_V3] =
      account_image (ser_vault_v2 (bump_v3 v) @ replicate n 0)"
    by (simp add: account_image_def ser_vault_v2_def bump_v3_def list_update_append)
  ultimately show ?thesis
    unfolding migrate_v2_to_v3_def d no_growth using own
    by (auto simp: bind_res_eq_Inr require_eq_Inr check_migration_accounts_iff d no_growth)
qed

text \<open>No growth: the size the migration asks for is that of the sixth generation, which is smaller.\<close>

lemma v2_account_not_grown: "8 + VAULT_SPACE < 8 + VAULT_V2_SPACE"
  by (simp add: space_defs)

section \<open>Chains of migrations\<close>

text \<open>What a migration leaves is what the next one reads.\<close>

lemma v3_to_v4_readable:
  assumes "migrate_v3_to_v4 h tr e acc auth pk p = Inr (acc', p')"
    and "ac_data acc' = account_image (ser_vault_v4 w) @ s"
  shows "\<exists>v r. ac_data acc = account_image (ser_vault_v3 v) @ r \<and> w = v4_of_v3 v"
proof -
  from assms(1) obtain v r a1 where v: "ac_data acc = account_image (ser_vault_v3 v) @ r"
    and acc': "acc' = a1\<lparr>ac_data := account_image (ser_vault_v4 (v4_of_v3 v)) @
      drop (length (account_image (ser_vault_v4 (v4_of_v3 v)))) (ac_data a1)\<rparr>"
    unfolding migrate_v3_to_v4_eq_Inr by blast
  have "w = v4_of_v3 v"
    using assms(2) vault_v4_codec.ser_prefix_free(1) by (fastforce simp: acc' account_image_def)
  with v show ?thesis by blast
qed

lemma v4_to_v5_readable:
  assumes "migrate_v4_to_v5 h tr e acc auth pk p = Inr (acc', p')"
    and "ac_data acc' = account_image (ser_vault_v5 w) @ s"
  shows "\<exists>v r. ac_data acc = account_image (ser_vault_v4 v) @ r \<and> w = v5_of_v4 v"
proof -
  from assms(1) obtain v r a1 where v: "ac_data acc = account_image (ser_vault_v4 v) @ r"
    and acc': "acc' = a1\<lparr>ac_data := account_image (ser_vault_v5 (v5_of_v4 v)) @
      drop (length (account_image (ser_vault_v5 (v5_of_v4 v)))) (ac_data a1)\<rparr>"
    unfolding migrate_v4_to_v5_eq_Inr by blast
  have "w = v5_of_v4 v"
    using assms(2) vault_v5_codec.ser_prefix_free(1) by (fastforce simp: acc' account_image_def)
  with v show ?thesis by blast
qed

lemma v5_to_v6_image:
  assumes "migrate_v5_to_v6 h e acc auth pk p = Inr (acc', p')"
  shows "\<exists>v r. ac_data acc = account_image (ser_vault_v5 v) @ r \<and>
    ac_data acc' = vault_image (v6_of_v5 0 v) \<and>
    (w5_active_session v = None \<or>
      (\<exists>s. w5_active_session v = Some s \<and> sint (sr_expires_at s) \<le> sint (now e))) \<and>
    lamports_kept acc p acc' p'"
proof -
  from assms obtain v r where v: "ac_data acc = account_image (ser_vault_v5 v) @ r"
    "w5_active_session v = None \<or>
      (\<exists>s. w5_active_session v = Some s \<and> sint (sr_expires_at s) \<le> sint (now e))"
    and f: "refund_rent h 279 (acc\<lparr>ac_data := vault_image (v6_of_v5 0 v)\<rparr>) p = Inr (acc', p')"
    unfolding migrate_v5_to_v6_eq_Inr by blast
  have "ac_data acc' = vault_image (v6_of_v5 0 v)" "lamports_kept acc p acc' p'"
    using refund_rent_keeps(1) [OF f] refund_rent_keeps(2) [OF f, of "ac_data acc"] by simp_all
  with v show ?thesis by blast
qed

lemma v5_to_v6_session_image:
  assumes "migrate_v5_to_v6_with_session h e vk acc auth sk existing cp pk p = Inr (acc', sa, p')"
  shows "\<exists>v r b s. ac_data acc = account_image (ser_vault_v5 v) @ r \<and>
    ac_data acc' = vault_image (v6_of_v5 1 v) \<and> w5_active_session v = Some s \<and>
    sint (now e) < sint (sr_expires_at s) \<and> sr_allowed_counterparty s = cp \<and>
    find_program_address h (session_seeds vk cp) PROGRAM_ID = Some (sk, b) \<and>
    sa = carried_session vk b s \<and> lamports_kept acc p acc' p'"
proof -
  from assms obtain v r b s where v: "ac_data acc = account_image (ser_vault_v5 v) @ r"
    "w5_active_session v = Some s" "sint (now e) < sint (sr_expires_at s)"
    "sr_allowed_counterparty s = cp"
    "find_program_address h (session_seeds vk cp) PROGRAM_ID = Some (sk, b)"
    "sa = carried_session vk b s"
    and f: "refund_rent h 279 (acc\<lparr>ac_data := vault_image (v6_of_v5 1 v)\<rparr>) p = Inr (acc', p')"
    unfolding migrate_v5_to_v6_with_session_eq_Inr by blast
  have "ac_data acc' = vault_image (v6_of_v5 1 v)" "lamports_kept acc p acc' p'"
    using refund_rent_keeps(1) [OF f] refund_rent_keeps(2) [OF f, of "ac_data acc"] by simp_all
  with v show ?thesis by blast
qed

end
