(* ===== verification/Sample_Runs.thy ===== *)
theory Sample_Runs
  imports Sample Control Migration_Laws
begin

text \<open>
  More transactions in the sample world: a withdrawal, the settlement of a tab and of a claim, a
  revocation, and the runs that show where the program's checks end.
\<close>

lemmas ledger_simps = load_def result_simps

section \<open>A withdrawal\<close>

definition request_args :: request_withdrawal_args where
  "request_args = \<lparr> rw_amount = 300, rw_destination = SELLER, rw_signed_at = 1000,
     rw_client_data_json = client_of (OpRequestWithdrawal 300 SELLER 1000),
     rw_authenticator_data = AUTHDATA \<rparr>"

definition PW :: pending_withdrawal where
  "PW = \<lparr> pw_amount = 300, pw_destination = SELLER, pw_requested_at = 1000 \<rparr>"

definition L9 :: ledger where "L9 = put_vault L4 V (V3\<lparr>pending_withdrawal := Some PW\<rparr>)"

lemma any_version_6 [simp]: "any_supported_version 6"
  by (simp add: any_supported_version_def)

lemma V3_more [simp]: "pending_voucher_count V3 = 0" "borrowed V3 = 0" "cooling_off_seconds V3 = 60"
  "dexter_authority V3 = AUTH" "pending_withdrawal V3 = None"
  by (simp_all add: V3_def V2_def V1_def V0_def)

lemma sample_request:
  "exec sample_host sample_swig (passkey_env (OpRequestWithdrawal 300 SELLER 1000) 1000)
     (RequestWithdrawal V request_args) L4 = Inr L9"
  using sample_authorized [of "OpRequestWithdrawal 300 SELLER 1000" 1000]
  by (simp add: ledger_simps request_withdrawal_eq_Inr request_args_def L9_def PW_def)

definition finalize_accs :: finalize_withdrawal_accounts where
  "finalize_accs = \<lparr> fw_swig = SWIG, fw_swig_wallet = SWIG_WALLET, fw_usdc_ata = ATA \<rparr>"

definition finalize_args :: finalize_withdrawal_args where
  "finalize_args = \<lparr> fw_client_data_json = client_of (OpFinalizeWithdrawal 300 SELLER),
     fw_authenticator_data = AUTHDATA \<rparr>"

definition L10 :: ledger where "L10 = put_vault L9 V (V3\<lparr>pending_withdrawal := None\<rparr>)"

lemma sample_finalize:
  "exec sample_host sample_swig (passkey_env (OpFinalizeWithdrawal 300 SELLER) 1100)
     (FinalizeWithdrawal V finalize_accs finalize_args) L9 = Inr L10"
  using sample_authorized [of "OpFinalizeWithdrawal 300 SELLER" 1100]
  by (simp add: ledger_simps finalize_withdrawal_eq_Inr withdrawal_gate_def finalize_accs_def
      finalize_args_def L9_def L10_def PW_def)

definition release_args :: force_release_args where
  "release_args = \<lparr> fr_client_data_json = client_of (OpForceRelease SWIG),
     fr_authenticator_data = AUTHDATA \<rparr>"

section \<open>Settling\<close>

definition settle_claim_accs :: settle_locked_accounts where
  "settle_claim_accs = \<lparr> sl_swig = SWIG, sl_swig_wallet = SWIG_WALLET, sl_claim = CLAIM,
     sl_vault = V, sl_holder = SELLER, sl_dexter_authority = AUTH \<rparr>"

definition C1 :: locked_claim where "C1 = settled_claim 2000 C0"

definition L11 :: ledger where
  "L11 = put_claim (put_vault L4 V
     (V3\<lparr>outstanding_locked_amount := 0, total_settled_amount := 100\<rparr>)) CLAIM C1"

lemma C0_sel [simp]: "lc_status C0 = Pending" "lc_vault C0 = V" "lc_current_holder C0 = SELLER"
  "lc_amount C0 = 100" "lc_maturity_at C0 = Some 2000" "lc_holder_recovery_at C0 = Some 3000"
  by (simp_all add: C0_def new_claim_def lock_delta_def)

lemma sample_settle_claim:
  "exec sample_host sample_swig (plain_env 2000) (SettleLockedVoucher settle_claim_accs) L4
     = Inr L11"
  by (simp add: ledger_simps settle_locked_voucher_eq_Inr settle_claim_accs_def matured_def L11_def
      C1_def saturating_sub_def saturating_add_def V3_def V2_def V1_def V0_def)

definition settle_accs :: settle_tab_voucher_accounts where
  "settle_accs = \<lparr> st_swig = SWIG, st_swig_wallet = SWIG_WALLET, st_vault = V, st_session = SESS,
     st_dexter_authority = AUTH \<rparr>"

definition settle_args :: "u64 \<Rightarrow> u32 \<Rightarrow> settle_tab_voucher_args" where
  "settle_args amount sq = \<lparr> st_channel_id = fill 5, st_cumulative_amount = amount,
     st_sequence_number = sq, st_allowed_counterparty = SELLER \<rparr>"

lemma settle_sel [simp]: "st_vault settle_accs = V" "st_session settle_accs = SESS"
  "st_cumulative_amount (settle_args amount sq) = amount"
  by (simp_all add: settle_accs_def settle_args_def)

definition S3 :: session_account where
  "S3 = S0\<lparr>sa_session := (sa_session S0)\<lparr>sr_spent := 60\<rparr>\<rparr>"

definition L12 :: ledger where "L12 = put_session (put_vault L3 V V2) SESS S3"

lemma sample_settle_tab:
  "exec sample_host sample_swig (voucher_env 60 1 1000) (SettleTabVoucher settle_accs
     (settle_args 60 1)) L3 = Inr L12"
proof -
  have "settle_tab_voucher sample_host (voucher_env 60 1 1000) V2 S0 settle_accs
      (settle_args 60 1) = Inr (V2, S3)"
    using sample_signed [of 60 1 1000]
    by (simp add: settle_tab_voucher_eq_Inr settle_tab_voucher_handler_eq_Inr settle_accs_def
        settle_args_def sample_addresses S3_def registration_of_def frontier_def saturating_sub_def
        S0_def V2_def V1_def V0_def)
  then show ?thesis by (simp add: ledger_simps L12_def)
qed

section \<open>A default\<close>

definition seize_accs :: user_swig_accounts where
  "seize_accs = \<lparr> us_swig = SWIG, us_swig_wallet = SWIG_WALLET, us_dexter_authority = AUTH \<rparr>"

definition L16 :: ledger where
  "L16 = put_vault L7 V (V5\<lparr>borrowed := 0, borrow_recovery_at := None\<rparr>)"

lemma sample_seize:
  "exec sample_host sample_swig (plain_env 2000) (SeizeCollateral V seize_accs) L7 = Inr L16"
  by (simp add: ledger_simps seize_collateral_eq_Inr seize_accs_def L16_def L7_def V5_def V4_def
      V3_def V2_def V1_def V0_def credit_version_def)

section \<open>A revocation\<close>

definition revoke_args :: "pubkey \<Rightarrow> revoke_session_key_args" where
  "revoke_args seller = \<lparr> rk_allowed_counterparty = seller,
     rk_client_data_json = client_of (OpRevoke V SKEY), rk_authenticator_data = AUTHDATA \<rparr>"

definition L13 :: ledger where
  "L13 = put_session (put_vault L3 V (V2\<lparr>live_session_count := 0\<rparr>)) SESS (clear_session S0)"

lemma sample_revoke:
  "exec sample_host sample_swig (passkey_env (OpRevoke V SKEY) 1200)
     (RevokeSessionKey V SESS (revoke_args SELLER)) L3 = Inr L13"
  using sample_authorized [of "OpRevoke V SKEY" 1200]
  by (simp add: ledger_simps revoke_session_key_eq_Inr revoke_args_def sample_addresses L13_def)

section \<open>Where the checks end\<close>

text \<open>A voucher for 60 was settled; the lock of the voucher for 100 claims all of it again.\<close>

definition C2 :: locked_claim where
  "C2 = new_claim (voucher_env 100 1 1000) V (sa_session S3) 255 SELLER lock_args"

definition L15 :: ledger where
  "L15 = put_claim (put_session (put_vault L12 V V3) SESS
     (S3\<lparr>sa_session := graduate_session (sa_session S3) 100 1\<rparr>)) CLAIM C2"

lemma L12_sel [simp]: "vaults L12 V = Some V2" "sessions L12 SESS = Some S3" "claims L12 k = None"
  by (simp_all add: L12_def)

lemma S3_sel [simp]: "sa_version S3 = 1" "sa_bump S3 = 255" "sa_vault S3 = V"
  "sr_session_pubkey (sa_session S3) = SKEY" "sr_max_amount (sa_session S3) = 400"
  "sr_expires_at (sa_session S3) = 5000" "sr_spent (sa_session S3) = 60"
  "sr_crystallized_cumulative (sa_session S3) = 0" "frontier (sa_session S3) = 60"
  by (simp_all add: S3_def frontier_def)

lemma sample_lock_after_settle:
  "exec sample_host sample_swig (voucher_env 100 1 1000) (LockVoucher lock_accs lock_args) L12
     = Inr L15"
proof -
  let ?ata = BALANCE
  let ?S = "S3\<lparr>sa_session := graduate_session (sa_session S3) 100 1\<rparr>"
  have "lock_delta (sa_session S3) 100 = 100" by (simp add: lock_delta_def)
  then have "lock_voucher_handler sample_host (voucher_env 100 1 1000) V2 V ?ata SWIG_WALLET S3 255
      SELLER lock_args = Inr (V3, ?S, C2)"
    unfolding lock_voucher_handler_eq_Inr
    by (intro conjI exI [of _ "100 :: u64"])
      (simp_all add: recovery_follows_maturity_def CLAIM_HASH_def V3_def C2_def saturating_add_def)
  then have "lock_voucher sample_host (voucher_env 100 1 1000) V2 S3 None lock_accs lock_args =
      Inr (V3, ?S, C2)"
    unfolding lock_voucher_eq_Inr
    by (intro exI [of _ ?ata] exI [of _ 255]) (simp add: sample_finds sample_addresses)
  then show ?thesis by (simp add: ledger_simps L15_def)
qed

text \<open>
  A session for the default counterparty, revoked, is a cleared account whose address re-derives from
  its own zeroed counterparty. The gate counts it as an expired sibling, so it stands in for the live
  one: two sessions of 700 each on a balance of 1000.
\<close>

definition session_for :: "pubkey \<Rightarrow> u64 \<Rightarrow> session_account" where
  "session_for seller cap = \<lparr> sa_version = 1, sa_bump = 255, sa_vault = V,
     sa_session = registration_of (register_args seller cap) \<rparr>"

lemma session_for_sel [simp]:
  "sa_version (session_for c m) = 1" "sa_bump (session_for c m) = 255"
  "sa_vault (session_for c m) = V" "sr_max_amount (sa_session (session_for c m)) = m"
  "sr_expires_at (sa_session (session_for c m)) = 5000"
  "sr_allowed_counterparty (sa_session (session_for c m)) = c"
  "sr_session_pubkey (sa_session (session_for c m)) = SKEY"
  by (simp_all add: session_for_def registration_of_def register_args_def)

definition M1 :: ledger where "M1 = put_session (put_vault L2 V V2) SESS (session_for SELLER 700)"

definition M2 :: ledger where
  "M2 = put_session (put_vault M1 V (V2\<lparr>live_session_count := 2\<rparr>)) SESS0 (session_for 0 100)"

definition DEAD :: session_account where "DEAD = clear_session (session_for 0 100)"

definition M3 :: ledger where "M3 = put_session (put_vault M2 V V2) SESS0 DEAD"

definition M4 :: ledger where
  "M4 = put_session ((put_vault M3 V V2)\<lparr>sessions := (sessions M3)(SESS0 \<mapsto> DEAD)\<rparr>) SESS2
     (session_for SELLER2 700)"

lemma session_keys_differ [simp]: "SESS \<noteq> SESS0" "SESS0 \<noteq> SESS" "SESS0 \<noteq> SESS2" "SESS2 \<noteq> SESS0"
  by (simp_all add: SESS_def SESS2_def SESS0_def)

lemma DEAD_sel [simp]: "sa_version DEAD = 0" "sa_bump DEAD = 255" "sa_vault DEAD = V"
  "sr_expires_at (sa_session DEAD) = 0" "sr_allowed_counterparty (sa_session DEAD) = 0"
  "clear_session DEAD = DEAD"
  by (simp_all add: DEAD_def clear_session_def session_for_def zero_registration_def)

lemma M_sel [simp]:
  "vaults M1 V = Some V2" "vaults M2 V = Some (V2\<lparr>live_session_count := 2\<rparr>)" "vaults M3 V = Some V2"
  "sessions M1 = Map.empty(SESS \<mapsto> session_for SELLER 700)"
  "sessions M2 = (sessions M1)(SESS0 \<mapsto> session_for 0 100)"
  "sessions M3 = (sessions M2)(SESS0 \<mapsto> DEAD)"
  by (simp_all add: M1_def M2_def M3_def L2_def L1_def empty_ledger_def put_vault_def)

lemma V2_count [simp]: "V2\<lparr>live_session_count := 1\<rparr> = V2"
  by (simp add: V2_def)

lemmas registering = sample_finds register_op_message admitted_def siblings_of_def
  existing_session_def session_is_new_def fresh_session_account_def count_after_def
  registered_ledger_def registered_session_def put_vault_def good_sibling_def session_at_def
  sample_addresses sib_live_def live_at_def sib_cap_def sib_clear_def

lemma bypass_1:
  "exec sample_host sample_swig (passkey_env (register_op SELLER 700) 1000)
     (RegisterSessionKey (register_accs SESS []) (register_args SELLER 700)) L2 = Inr M1"
  unfolding exec_register_eq
  by (rule exI [of _ V1], rule exI [of _ BALANCE],
      rule exI [of _ 255], rule exI [of _ 1])
    (simp add: registering M1_def session_for_def V2_def)

lemma bypass_2:
  "exec sample_host sample_swig (passkey_env (register_op 0 100) 1000)
     (RegisterSessionKey (register_accs SESS0 [(SESS, False)]) (register_args 0 100)) M1 = Inr M2"
  unfolding exec_register_eq
  by (rule exI [of _ V2], rule exI [of _ BALANCE],
      rule exI [of _ 255], rule exI [of _ 2])
    (simp add: registering M2_def, simp add: session_for_def)

lemma bypass_3:
  "exec sample_host sample_swig (passkey_env (OpRevoke V SKEY) 1200)
     (RevokeSessionKey V SESS0 (revoke_args 0)) M2 = Inr M3"
  using sample_authorized [of "OpRevoke V SKEY" 1200]
  by (simp add: ledger_simps revoke_session_key_eq_Inr revoke_args_def sample_addresses M3_def
      DEAD_def)

lemma bypass_4:
  "exec sample_host sample_swig (passkey_env (register_op SELLER2 700) 1500)
     (RegisterSessionKey (register_accs SESS2 [(SESS0, True)]) (register_args SELLER2 700)) M3
     = Inr M4"
  unfolding exec_register_eq
  by (rule exI [of _ V2], rule exI [of _ BALANCE],
      rule exI [of _ 255], rule exI [of _ 1])
    (simp add: registering M4_def upd_all_def, simp add: session_for_def)

lemma bypass_reachable: "reachable sample_host sample_swig (\<lambda>_. True) M4"
proof -
  have "reachable sample_host sample_swig (\<lambda>_. True) L2" by (rule sample_reachable_all)
  then have "reachable sample_host sample_swig (\<lambda>_. True) M1"
    by (rule reach_exec [OF _ _ bypass_1]) simp
  then have "reachable sample_host sample_swig (\<lambda>_. True) M2"
    by (rule reach_exec [OF _ _ bypass_2]) simp
  then have "reachable sample_host sample_swig (\<lambda>_. True) M3"
    by (rule reach_exec [OF _ _ bypass_3]) simp
  then show ?thesis by (rule reach_exec [OF _ _ bypass_4]) simp
qed

lemma bypass_total: "live_total M4 V 1500 = 1400"
proof -
  have "dom (sessions M4) = {SESS, SESS0, SESS2}" by (auto simp: M4_def put_vault_def)
  then show ?thesis
    by (simp add: live_total_def map_total_def live_cap_def live_at_def M4_def put_vault_def)
qed

end
