(* ===== verification/Ledger_Properties.thy ===== *)
theory Ledger_Properties
  imports Sample_Runs
begin

text \<open>Properties of every reachable ledger: what its counters and totals stand for.\<close>

section \<open>Totals\<close>

text \<open>C6: the crystallized reservation of a vault is the sum of its pending claims.\<close>

theorem outstanding_is_pending:
  assumes "reachable h sw allowed l" and "vaults l k = Some v"
  shows "unat (outstanding_locked_amount v) = pending_total l k"
  by (rule claims_invD(4) [OF claims_books.inv_reachable [OF reachable_any [OF assms(1)]] assms(2)])

theorem outstanding_is_pending_witness: "pending_total L4 V = 100"
  using outstanding_is_pending [OF sample_reachable(4), of V V3] by simp

text \<open>C7: under the address laws, and in a run of the current instructions whose registrations name a
  counterparty other than the default key, the live-session counter of a vault is the number of its
  registered session accounts.\<close>

theorem live_count_is_registered:
  assumes "pda_laws h" and "reachable h sw nonzero_counterparty l" and "vaults l k = Some v"
  shows "unat (live_session_count v) = card (registered_keys l k)"
  using sessions_invD(4) [OF reachable_sessions [OF assms(1,2)] assms(3)]
    registered_total_card(1) [OF sessions_invD(1) [OF reachable_sessions [OF assms(1,2)]]]
  by simp

theorem live_count_is_registered_witness: "card (registered_keys L3 V) = 1"
  using live_count_is_registered [OF sample_laws sample_reachable(3), of V V2] by simp

text \<open>C8: what a financier's ledger records as promised is the sum of the caps of the vaults it backs,
  and stays within the reserve it committed.\<close>

theorem promises_within_reserve:
  assumes "reachable h sw allowed l" and "backers l bk = Some sb"
  shows "unat (sb_aggregate_promised sb) = promised_total l (sb_financier_swig sb) \<and>
    sb_aggregate_promised sb \<le> sb_committed_reserve sb"
  using reserve_invD(3,4) [OF reserve_books.inv_reachable [OF reachable_any [OF assms(1)]] assms(2)]
  by simp

theorem promises_within_reserve_witness: "promised_total L7 FIN = 200"
  using promises_within_reserve [OF sample_reachable(5), of RESERVE B1]
  by (simp add: L7_def L6_def B1_def B0_def)

section \<open>Bounds\<close>

text \<open>C9: a vault never borrows more than its standby cap, borrows nothing without a backer, and
  while it owes something the deadline of the loan is set.\<close>

theorem loans_within_cap:
  assumes "reachable h sw allowed l" and "vaults l k = Some v"
  shows "borrowed v \<le> standby_cap v \<and> (standby_backer v = None \<longrightarrow> borrowed v = 0 \<and> standby_cap v = 0) \<and>
    (0 < borrowed v \<longrightarrow> borrow_recovery_at v \<noteq> None)"
  using credit_books.inv_reachable [OF reachable_any [OF assms(1)]] assms(2)
  by (simp add: credit_inv_def credit_ok_def)

theorem loans_within_cap_witness:
  "borrowed V5 \<le> standby_cap V5 \<and> 0 < borrowed V5 \<and> borrow_recovery_at V5 \<noteq> None"
  using loans_within_cap [OF sample_reachable(5), of V V5] by (simp add: L7_def V5_def)

text \<open>C10: on every session account the open exposure is within the revolving capacity, and what was
  settled and what was crystallized are each within the cap the passkey endorsed.\<close>

theorem meters_within_caps:
  assumes "reachable h sw allowed l" and "sessions l sk = Some a"
  shows "sr_current_outstanding (sa_session a) \<le> sr_max_revolving_capacity (sa_session a) \<and>
    sr_spent (sa_session a) \<le> sr_max_amount (sa_session a) \<and>
    sr_crystallized_cumulative (sa_session a) \<le> sr_max_amount (sa_session a)"
  using meters_invD [OF meters_books.inv_reachable [OF reachable_any [OF assms(1)]] assms(2)]
  by (simp add: session_sound_def frontier_def)

theorem meters_within_caps_witness: "sr_crystallized_cumulative (sa_session S1) \<le> 400"
  using meters_within_caps [OF sample_reachable(4), of SESS S1] by simp

section \<open>Claims\<close>

text \<open>C11: every claim is well formed (its timestamps agree with its status and its maturity) and
  belongs to a vault of the ledger; a pending one is covered by the vault's reservation.\<close>

theorem claims_well_formed:
  assumes "reachable h sw allowed l" and "claims l ck = Some c"
  shows "claim_wf c \<and> (\<exists>v. vaults l (lc_vault c) = Some v \<and>
    (lc_status c = Pending \<longrightarrow> lc_amount c \<le> outstanding_locked_amount v))"
proof -
  note inv = claims_books.inv_reachable [OF reachable_any [OF assms(1)]]
  obtain v where v: "vaults l (lc_vault c) = Some v" using claims_invD(3) [OF inv assms(2)] by blast
  have "pending_weight (lc_vault c) ck c \<le> pending_total l (lc_vault c)"
    unfolding pending_total_def by (rule map_total_ge) (use claims_invD(1) [OF inv] assms(2) in auto)
  then have "lc_status c = Pending \<longrightarrow> lc_amount c \<le> outstanding_locked_amount v"
    using claims_invD(4) [OF inv v] by (auto simp: pending_weight_def word_le_nat_alt)
  with v claims_invD(2) [OF inv assms(2)] show ?thesis by blast
qed

theorem claims_well_formed_witness: "claim_wf C0 \<and> 100 \<le> outstanding_locked_amount V3"
  using claims_well_formed [OF sample_reachable(4), of CLAIM C0] by simp

text \<open>C12: along any run a claim is never deleted, the terms of the lock never change, and a claim
  that was settled or abandoned stays exactly as it is.\<close>

theorem claim_fate:
  assumes "reachable h sw allowed l" and "(ledger_step h sw allowed)\<^sup>*\<^sup>* l l'"
    and "claims l ck = Some c"
  shows "\<exists>c'. claims l' ck = Some c' \<and> same_claim c c' \<and> claim_wf c' \<and>
    (lc_status c \<noteq> Pending \<longrightarrow> c' = c)"
proof -
  note inv = claims_books.inv_reachable [OF reachable_any [OF assms(1)]]
  obtain c' where "claims l' ck = Some c'" "claim_step\<^sup>*\<^sup>* c c'"
    using steps_claim [OF assms(2,3)] by blast
  with claim_history [OF this(2) claims_invD(2) [OF inv assms(3)]] show ?thesis by blast
qed

theorem claim_fate_witness: "same_claim C0 C1 \<and> claim_wf C1"
proof -
  have "ledger_step sample_host sample_swig nonzero_counterparty L4 L11"
    by (rule ledger_step.intros [OF _ sample_settle_claim]) (simp add: nonzero_counterparty_def)
  then show ?thesis
    using claim_fate [OF sample_reachable(4) r_into_rtranclp, of L11 CLAIM C0]
    by (auto simp: L11_def)
qed

end
