(* ===== verification/Voucher_Properties.thy ===== *)
theory Voucher_Properties
  imports Sample_Runs
begin

text \<open>Properties of vouchers: what settling and locking do, and that a range is spent once.\<close>

section \<open>One range, one use\<close>

text \<open>C13: once a voucher has been spent, by settling or by locking, no voucher for that amount or less
  is accepted on the session, by either of the two instructions, until a session key is registered at
  the session's address again: anything else may run in between, revocations, closings and
  registrations of other sessions included.\<close>

theorem voucher_range_closed:
  assumes "exec h sw e ix l = Inr l1" and "voucher_of ix = Some (sk, n)"
    and "(ledger_step h sw (not_registered sk))\<^sup>*\<^sup>* l1 l2"
    and "voucher_of ix2 = Some (sk, m)" and "m \<le> n"
  shows "\<not> is_ok (exec h sw e2 ix2 l2)"
proof
  assume "is_ok (exec h sw e2 ix2 l2)"
  then obtain l3 where "exec h sw e2 ix2 l2 = Inr l3" by (auto simp: is_ok_iff)
  from voucher_above [OF this assms(4)] obtain b where b: "sessions l2 sk = Some b"
    "sa_version b \<noteq> 0" "frontier (sa_session b) < m" by blast
  from voucher_frontier [OF assms(1,2)] obtain a where
    a: "sessions l1 sk = Some a" "frontier (sa_session a) = n" by blast
  from frontier_kept [OF assms(3) a(1) b(1,2)] show False
    using a(2) b(3) assms(5) by (auto simp: session_advanced_def)
qed

theorem voucher_range_closed_witness:
  "\<not> is_ok (exec sample_host sample_swig (voucher_env 60 1 1000)
     (SettleTabVoucher settle_accs (settle_args 60 1)) L12) \<and>
   \<not> is_ok (exec sample_host sample_swig (voucher_env 60 1 1000)
     (SettleTabVoucher settle_accs (settle_args 60 1)) L8)"
proof -
  have "not_registered SESS (RegisterSessionKey
      (register_accs SESS2 [(SESS, False)]) (register_args SELLER2 400))"
    by (simp add: not_registered_def register_accs_def)
  then have "(ledger_step sample_host sample_swig (not_registered SESS))\<^sup>*\<^sup>* L4 L8"
    by (blast intro: ledger_step.intros sample_register2)
  from voucher_range_closed [OF sample_settle_tab _ rtranclp.rtrancl_refl,
      of _ _ "SettleTabVoucher settle_accs (settle_args 60 1)"]
    voucher_range_closed [OF sample_lock _ this,
      of _ "SettleTabVoucher settle_accs (settle_args 60 1)"]
  show ?thesis
    by (simp add: settle_accs_def settle_args_def lock_accs_def lock_args_def del: exec.simps)
qed

section \<open>What the two instructions do\<close>

text \<open>C15: settling succeeds exactly for a voucher the session key signed, above everything settled or
  locked so far and within the cap, before expiry and with the authority's signature; it then moves
  \<open>spent\<close> to the voucher's amount, frees the increment from the open exposure and closes one pending
  voucher, and touches nothing else.\<close>

theorem settle_tab_effect:
  "exec h sw e (SettleTabVoucher accs args) l = Inr l' \<longleftrightarrow>
     (\<exists>v a. vaults l (st_vault accs) = Some v \<and> sessions l (st_session accs) = Some a \<and>
        dexter_authority v \<in> set (signers e) \<and> st_dexter_authority accs = dexter_authority v \<and>
        st_swig accs = swig_address v \<and>
        seeds_canonical h (swig_wallet_seeds (swig_address v)) SWIG_PROGRAM_ID (st_swig_wallet accs) \<and>
        create_program_address h
          (session_seeds (st_vault accs) (st_allowed_counterparty args) @ [[sa_bump a]]) PROGRAM_ID
          = Some (st_session accs) \<and>
        version v = 6 \<and> swig_address v \<noteq> 0 \<and> sa_version a \<noteq> 0 \<and>
        sint (now e) < sint (sr_expires_at (sa_session a)) \<and>
        sr_spent (sa_session a) < st_cumulative_amount args \<and>
        sr_crystallized_cumulative (sa_session a) < st_cumulative_amount args \<and>
        st_cumulative_amount args \<le> sr_max_amount (sa_session a) \<and>
        session_signed (sysvar e) (sr_session_pubkey (sa_session a))
          (voucher_message (st_channel_id args) (st_cumulative_amount args)
             (st_sequence_number args)) \<and>
        l' = put_session (put_vault l (st_vault accs)
            (v\<lparr>pending_voucher_count := saturating_sub (pending_voucher_count v) 1\<rparr>))
          (st_session accs)
          (a\<lparr>sa_session := (sa_session a)\<lparr>sr_spent := st_cumulative_amount args,
             sr_current_outstanding := saturating_sub (sr_current_outstanding (sa_session a))
               (st_cumulative_amount args - sr_spent (sa_session a))\<rparr>\<rparr>))"
  by (auto simp: result_simps settle_tab_voucher_eq_Inr settle_tab_voucher_handler_eq_Inr
      frontier_less_iff settle_increment_def)

lemma exec_lock:
  assumes "exec h sw e (LockVoucher accs args) l = Inr l'"
  shows "\<exists>v a c v' a' ata. vaults l (lk_vault accs) = Some v \<and> sessions l (lk_session accs) = Some a \<and>
    claims l (lk_claim accs) = None \<and> claims l' (lk_claim accs) = Some c \<and>
    vaults l' (lk_vault accs) = Some v' \<and> sessions l' (lk_session accs) = Some a' \<and>
    tokens e (lk_usdc_ata accs) = Some ata \<and>
    lc_status c = Pending \<and> lc_vault c = lk_vault accs \<and>
    lc_current_holder c = lk_seller_holder accs \<and> lc_voucher_hash c = lk_voucher_hash args \<and>
    unat (lc_amount c) + unat (sr_crystallized_cumulative (sa_session a)) =
      unat (lk_cumulative_amount args) \<and>
    unat (outstanding_locked_amount v') = unat (outstanding_locked_amount v) + unat (lc_amount c) \<and>
    outstanding_locked_amount v' \<le> ta_amount ata \<and>
    frontier (sa_session a') = lk_cumulative_amount args \<and> same_terms (sa_session a) (sa_session a')"
proof -
  from assms obtain v a v' a' c where at: "vaults l (lk_vault accs) = Some v"
    "sessions l (lk_session accs) = Some a"
    and run: "lock_voucher h e v a (claims l (lk_claim accs)) accs args = Inr (v', a', c)"
    and l': "l' = put_claim (put_session (put_vault l (lk_vault accs) v') (lk_session accs) a')
      (lk_claim accs) c"
    by (auto simp: result_simps)
  from run obtain ata b where ata: "tokens e (lk_usdc_ata accs) = Some ata"
    and none: "claims l (lk_claim accs) = None"
    and hd: "lock_voucher_handler h e v (lk_vault accs) ata (lk_swig_wallet accs) a b
      (lk_seller_holder accs) args = Inr (v', a', c)"
    by (auto simp: lock_voucher_eq_Inr)
  note eff = hd [unfolded lock_voucher_handler_eq_Inr]
  then have above: "frontier (sa_session a) < lk_cumulative_amount args" by blast
  have "unat (lc_amount c) + unat (sr_crystallized_cumulative (sa_session a)) =
      unat (lk_cumulative_amount args)"
  proof -
    have "lc_amount c = lock_delta (sa_session a) (lk_cumulative_amount args)"
      using eff by (simp add: new_claim_def)
    moreover have "unat (sr_crystallized_cumulative (sa_session a)) \<le>
        unat (lk_cumulative_amount args)"
      using above [unfolded frontier_less_iff] by (simp add: word_less_nat_alt)
    ultimately show ?thesis using unat_lock_delta [OF above] by simp
  qed
  moreover have "unat (outstanding_locked_amount v') =
      unat (outstanding_locked_amount v) + unat (lc_amount c) \<and>
      outstanding_locked_amount v' \<le> ta_amount ata"
    using eff by (auto simp: new_claim_def)
  moreover have "lc_status c = Pending \<and> lc_vault c = lk_vault accs \<and>
      lc_current_holder c = lk_seller_holder accs \<and> lc_voucher_hash c = lk_voucher_hash args"
    using eff by (simp add: new_claim_def)
  moreover have "frontier (sa_session a') = lk_cumulative_amount args \<and>
      same_terms (sa_session a) (sa_session a')"
    using eff frontier_locked [OF above] by simp
  ultimately show ?thesis using at none ata by (simp add: l')
qed

text \<open>C16: a lock turns the part of the voucher beyond what was crystallized before into a pending
  claim of the seller on the vault, adds it to the reservation, which stays within the wallet's
  balance, and moves the session's frontier to the voucher's amount.\<close>

theorem lock_effect:
  assumes "exec h sw e (LockVoucher accs args) l = Inr l'"
  shows "\<exists>v a c v' a' ata. vaults l (lk_vault accs) = Some v \<and> sessions l (lk_session accs) = Some a \<and>
    claims l (lk_claim accs) = None \<and> claims l' (lk_claim accs) = Some c \<and>
    vaults l' (lk_vault accs) = Some v' \<and> sessions l' (lk_session accs) = Some a' \<and>
    tokens e (lk_usdc_ata accs) = Some ata \<and>
    lc_status c = Pending \<and> lc_vault c = lk_vault accs \<and>
    lc_current_holder c = lk_seller_holder accs \<and> lc_voucher_hash c = lk_voucher_hash args \<and>
    unat (lc_amount c) + unat (sr_crystallized_cumulative (sa_session a)) =
      unat (lk_cumulative_amount args) \<and>
    unat (outstanding_locked_amount v') = unat (outstanding_locked_amount v) + unat (lc_amount c) \<and>
    outstanding_locked_amount v' \<le> ta_amount ata \<and>
    frontier (sa_session a') = lk_cumulative_amount args \<and> same_terms (sa_session a) (sa_session a')"
  by (rule exec_lock [OF assms])

theorem lock_effect_witness: "unat (lc_amount C0) = 100 \<and> frontier (sa_session S1) = 100"
proof -
  have "sr_crystallized_cumulative (sa_session S0) = 0" by simp
  then show ?thesis using lock_effect [OF sample_lock] by simp
qed

text \<open>C17: a pending claim that has matured can be settled: with the holder's and the authority's
  signatures nothing else in the ledger can keep the instruction from succeeding.\<close>

theorem mature_claim_settles:
  assumes "reachable h sw allowed l" and "claims l (sl_claim accs) = Some c" and "lc_status c = Pending"
    and "vaults l (sl_vault accs) = Some v" and "lc_vault c = sl_vault accs"
    and "lc_maturity_at c = None \<or> (\<exists>t. lc_maturity_at c = Some t \<and> sint t \<le> sint (now e))"
    and "sl_holder accs = lc_current_holder c" and "lc_current_holder c \<in> set (signers e)"
    and "sl_dexter_authority accs = dexter_authority v" and "dexter_authority v \<in> set (signers e)"
    and "sl_swig accs = swig_address v"
    and "seeds_canonical h (swig_wallet_seeds (swig_address v)) SWIG_PROGRAM_ID (sl_swig_wallet accs)"
  shows "\<exists>l' v'. exec h sw e (SettleLockedVoucher accs) l = Inr l' \<and>
    claims l' (sl_claim accs) = Some (settled_claim (now e) c) \<and>
    vaults l' (sl_vault accs) = Some v' \<and>
    unat (outstanding_locked_amount v') + unat (lc_amount c) = unat (outstanding_locked_amount v)"
proof -
  note inv = claims_books.inv_reachable [OF reachable_any [OF assms(1)]]
  have "pending_weight (sl_vault accs) (sl_claim accs) c \<le> pending_total l (sl_vault accs)"
    unfolding pending_total_def by (rule map_total_ge) (use claims_invD(1) [OF inv] assms(2) in auto)
  then have covered: "unat (lc_amount c) \<le> unat (outstanding_locked_amount v)"
    using claims_invD(4) [OF inv assms(4)] assms(3,5) by (simp add: pending_weight_def)
  have "matured (now e) c" using assms(6) by (auto simp: matured_def)
  then show ?thesis using assms covered
    by (simp add: bind_res_eq_Inr load_eq_Inr split_paired_Ex settle_locked_voucher_eq_Inr)
qed

theorem mature_claim_settles_witness:
  "\<exists>l'. exec sample_host sample_swig (plain_env 2000) (SettleLockedVoucher settle_claim_accs) L4
     = Inr l' \<and> claims l' CLAIM = Some C1"
  using mature_claim_settles [OF sample_reachable(4), of settle_claim_accs C0 V3 "plain_env 2000"]
  by (auto simp: settle_claim_accs_def C1_def)

section \<open>A divergence\<close>

text \<open>A lock measures its claim from what was crystallized, not from what was settled. On a session
  where more was settled than crystallized the settled part is counted again: what was paid and what
  is now claimed exceed the amount the session key signed, by exactly that part.\<close>

lemma lock_counts_settled_range:
  assumes "exec h sw e (LockVoucher accs args) l = Inr l'" and "sessions l (lk_session accs) = Some a"
    and "sr_crystallized_cumulative (sa_session a) < sr_spent (sa_session a)"
  shows "\<exists>c. claims l' (lk_claim accs) = Some c \<and> lc_status c = Pending \<and>
    unat (sr_spent (sa_session a)) + unat (lc_amount c) = unat (lk_cumulative_amount args) +
      (unat (sr_spent (sa_session a)) - unat (sr_crystallized_cumulative (sa_session a))) \<and>
    unat (lk_cumulative_amount args) < unat (sr_spent (sa_session a)) + unat (lc_amount c)"
  using exec_lock [OF assms(1)] assms(2,3) by (auto simp: word_less_nat_alt)

lemma lock_counts_settled_sample:
  "\<exists>c. claims L15 CLAIM = Some c \<and> 60 + unat (lc_amount c) = 100 + 60"
proof -
  have "sr_crystallized_cumulative (sa_session S3) < sr_spent (sa_session S3)"
    "sr_spent (sa_session S3) = 60" "sr_crystallized_cumulative (sa_session S3) = 0"
    by (simp_all add: S3_def registration_of_def S0_def)
  moreover have "sessions L12 SESS = Some S3" by (simp add: L12_def put_defs)
  ultimately show ?thesis
    using lock_counts_settled_range [OF sample_lock_after_settle, of S3]
    by (auto simp: lock_accs_def lock_args_def)
qed

end
