(* ===== verification/Passkey_Properties.thy ===== *)
theory Passkey_Properties
  imports Sample_Runs
begin

text \<open>Properties of the passkey ceremony: what is signed, what is checked, and where the checks end.\<close>

section \<open>Messages\<close>

text \<open>C18: one clientDataJSON authorizes one operation: two ceremonies with the same client data are for
  the same operation with the same parameters, as long as the hash does not collide on their two
  messages.\<close>

theorem one_ceremony_one_operation:
  assumes "passkey_authorized h sv pk cdj ad (op_message x)"
    and "passkey_authorized h sv' pk' cdj ad' (op_message y)"
    and "inj_on (sha256 h) {op_message x, op_message y}"
  shows "x = y"
proof -
  have "sha256 h (op_message x) = sha256 h (op_message y)"
    by (rule passkey_authorized_same_hash [OF assms(1,2)])
  then have "op_message x = op_message y" by (rule inj_onD [OF assms(3)]) simp_all
  then show ?thesis by (rule op_message_inj)
qed

theorem one_ceremony_one_operation_witness:
  "\<not> passkey_authorized sample_host (sysvar (plain_env 0)) PASSKEY (client_of (OpForceRelease SWIG))
     AUTHDATA (op_message (OpSetSwig SWIG))"
proof
  let ?x = "OpForceRelease SWIG" and ?y = "OpSetSwig SWIG"
  assume "passkey_authorized sample_host (sysvar (plain_env 0)) PASSKEY (client_of ?x) AUTHDATA
    (op_message ?y)"
  moreover have "sample_hash (op_message ?x) \<noteq> sample_hash (op_message ?y)" by code_simp
  then have "inj_on (sha256 sample_host) {op_message ?x, op_message ?y}"
    unfolding inj_on_def sample_host_sel by auto
  ultimately have "?x = ?y"
    using one_ceremony_one_operation [OF sample_authorized [of ?x 0]] by blast
  then show False by simp
qed

text \<open>The messages of the eleven operations a passkey authorizes tell the operation and every
  parameter apart.\<close>

lemma messages_distinguish_operations: "op_message x = op_message y \<longleftrightarrow> x = y"
  using op_message_inj by blast

section \<open>Signatures\<close>

text \<open>C20: an accepted ceremony means a signature of the vault's passkey over the authenticator data and
  the hash of the client data, provided the precompile checked the first signature it lists and that
  entry reads the precompile instruction's own data.\<close>

theorem verified_passkey_signed:
  assumes "verify_passkey_signed h sv pk cdj ad op_msg = Inr ()" and "reads_own_data sv"
    and "first_signature_verified valid 33 (tx_instructions sv) (unat (current_index sv) - 1)"
  shows "\<exists>sg. valid (to_list pk) (ad @ to_list (sha256 h cdj)) sg"
proof -
  have "introspect_precompile SECP256R1_VERIFY_PROGRAM_ID 33 (VaultError PasskeyVerificationFailed) sv
      (to_list pk) (ad @ to_list (sha256 h cdj)) = Inr ()"
    using assms(1)
    by (auto simp: verify_passkey_signed_eq_Inr passkey_authorized_def introspect_precompile_eq_Inr)
  from introspect_sound [OF this assms(2,3)] show ?thesis .
qed

definition sample_valid :: "byte list \<Rightarrow> byte list \<Rightarrow> byte list \<Rightarrow> bool" where
  "sample_valid pk msg sg \<longleftrightarrow> pk = to_list PASSKEY \<and> sg = SIG"

theorem verified_passkey_signed_witness:
  "\<exists>sg. sample_valid (to_list PASSKEY)
     (AUTHDATA @ to_list (sample_hash (client_of (OpSetSwig SWIG)))) sg"
proof -
  let ?x = "OpSetSwig SWIG"
  let ?m = "AUTHDATA @ to_list (sample_hash (client_of ?x))"
  let ?d = "precompile_data 0xFFFF (to_list PASSKEY) SIG ?m"
  let ?sv = "ceremony_sysvar sample_host PASSKEY AUTHDATA (op_message ?x) SIG"
  have own: "reads_own_data ?sv"
    by (simp add: reads_own_data_def previous_instruction_def ceremony_sysvar_def layout_offsets_def)
  have len: "length ?m = 69" "length SIG = 64" by (simp_all add: AUTHDATA_def SIG_def)
  have d: "?sv = \<lparr> current_index = 1, tx_instructions =
      [\<lparr> ti_program_id = SECP256R1_VERIFY_PROGRAM_ID, ti_data = ?d \<rparr>,
       \<lparr> ti_program_id = PROGRAM_ID, ti_data = [] \<rparr>] \<rparr>"
    by (simp add: ceremony_sysvar_def client_of_def)
  have "first_signature_verified sample_valid 33 (tx_instructions ?sv)
      (unat (current_index ?sv) - 1)"
    unfolding d first_signature_verified_def
    using slice_key_precompile_data [of "to_list PASSKEY" "0xFFFF" SIG ?m]
      slice_signature_precompile_data [of SIG "to_list PASSKEY" "0xFFFF" ?m] len
    by (simp add: data_at_def layout_offsets_def sample_valid_def)
  moreover have "verify_passkey_signed sample_host ?sv PASSKEY (client_of ?x) AUTHDATA
      (op_message ?x) = Inr ()"
    using sample_authorized [of ?x 0] by (simp add: verify_passkey_signed_eq_Inr passkey_env_def)
  ultimately have "\<exists>sg. sample_valid (to_list PASSKEY)
      (AUTHDATA @ to_list (sha256 sample_host (client_of ?x))) sg"
    using verified_passkey_signed [OF _ own] by blast
  then show ?thesis by simp
qed

section \<open>The ceremony's bytes\<close>

text \<open>C21: a ceremony the way a browser and a client produce it is accepted: for every key, operation,
  authenticator data of an admissible length and signature of 64 bytes, the verifier says yes.\<close>

theorem honest_ceremony_accepted:
  assumes "37 \<le> length ad" and "length ad < 65000" and "length sg = 64"
  shows "verify_passkey_signed h (ceremony_sysvar h pk ad (op_message x) sg) pk
    (client_data_for h (op_message x)) ad (op_message x) = Inr ()"
  unfolding verify_passkey_signed_eq_Inr by (rule honest_ceremony_authorized [OF assms])

theorem honest_ceremony_accepted_witness:
  "verify_passkey_signed sample_host
     (ceremony_sysvar sample_host PASSKEY (replicate 37 3) (op_message (OpSetSwig SWIG))
        (replicate 64 7))
     PASSKEY (client_data_for sample_host (op_message (OpSetSwig SWIG))) (replicate 37 3)
     (op_message (OpSetSwig SWIG)) = Inr ()"
  by (rule honest_ceremony_accepted) simp_all

text \<open>C22: the challenge extracted from the client data is the base64url decoding of the text between the
  first occurrence of the key \<open>"challenge":"\<close> and the next quote, and without such a field there is
  none.\<close>

theorem challenge_is_first_field:
  "extract_challenge_from_client_data data = Inr bs \<longleftrightarrow>
     (\<exists>pre enc post. data = pre @ CHALLENGE_KEY @ enc @ 34 # post \<and> 34 \<notin> set enc \<and>
        (\<forall>i < length pre. \<not> key_at data i) \<and> base64url_decode enc = Inr bs)"
  unfolding extract_challenge_eq_Inr challenge_field_def by blast

theorem challenge_is_first_field_witness:
  \<open>extract_challenge_from_client_data (ascii ''{"challenge":"AQ"}'') = Inr [1]\<close>
proof -
  have data: \<open>ascii ''{"challenge":"AQ"}'' = [123] @ CHALLENGE_KEY @ ascii ''AQ'' @ 34 # [125]\<close>
    by (simp add: ascii_def CHALLENGE_KEY_def)
  have first: "\<not> key_at ([123] @ CHALLENGE_KEY @ ascii ''AQ'' @ 34 # [125]) 0"
    by (simp add: key_at_def slice_def ascii_def CHALLENGE_KEY_def)
  have "base64url_decode (ascii ''AQ'') = Inr [1]" "34 \<notin> set (ascii ''AQ'')"
    by (simp_all add: base64url_decode_def b64_value_def ascii_def)
  with first show ?thesis
    unfolding challenge_is_first_field data
    by (intro exI [of _ "[123]"] exI [of _ "ascii ''AQ''"] exI [of _ "[125]"]) simp
qed

text \<open>C19: the two scanning loops end on every input, the first one after at most one pass over the
  data, and they compute what the recursive definitions of the scanner say.\<close>

theorem challenge_scan_terminates:
  "(\<exists>n \<le> Suc (length data). \<not> scanning ((key_step data ^^ n) (Scanning 0))) \<and>
   key_loop data = Some (case find_challenge_key data 0 of None \<Rightarrow> Missing | Some p \<Rightarrow> Found p) \<and>
   quote_loop data j = Some (scan_to_quote data j)"
  using key_loop_steps [of data 0] by (simp add: key_loop_def key_loop_from quote_loop_eq)

text \<open>C23: decoding the base64url text of any bytes gives the bytes back.\<close>

theorem base64url_roundtrip: "base64url_decode (base64url_encode bs) = Inr bs"
  by (rule base64url_decode_encode)

section \<open>Where the checks end\<close>

text \<open>C39: the verifiers compare the three instruction indices of the signature entry with each other,
  not with the precompile instruction. In a transaction whose indices name another instruction the
  precompile checks that one's key, message and signature, while \<open>verify_session_signed\<close> accepts any
  other key and message of the same lengths.\<close>

theorem smuggled_signature:
  assumes "valid pk' msg' sg" and "length pk' = 32" and "length msg' = length msg" and "length sg = 64"
    and "length msg < 65000"
  shows "verify_session_signed
      (smuggled_sysvar ED25519_VERIFY_PROGRAM_ID (to_list pk) msg pk' msg' sg) pk msg = Inr () \<and>
    first_signature_verified valid 32
      (tx_instructions (smuggled_sysvar ED25519_VERIFY_PROGRAM_ID (to_list pk) msg pk' msg' sg)) 1"
proof
  have "shows_key_and_message (length (to_list pk)) (precompile_data 0 (to_list pk) sg msg)
      (to_list pk) msg"
    by (rule precompile_data_shows) (use assms in simp_all)
  then show "verify_session_signed
      (smuggled_sysvar ED25519_VERIFY_PROGRAM_ID (to_list pk) msg pk' msg' sg) pk msg = Inr ()"
    by (simp add: verify_session_signed_eq_Inr)
  have "first_signature_verified valid (length (to_list pk))
      (tx_instructions (smuggled_sysvar ED25519_VERIFY_PROGRAM_ID (to_list pk) msg pk' msg' sg)) 1"
    by (rule smuggled_verified) (use assms in simp_all)
  then show "first_signature_verified valid 32
      (tx_instructions (smuggled_sysvar ED25519_VERIFY_PROGRAM_ID (to_list pk) msg pk' msg' sg)) 1"
    by simp
qed

theorem smuggled_signature_witness:
  "verify_session_signed (smuggled_sysvar ED25519_VERIFY_PROGRAM_ID (to_list SKEY)
     (voucher_message (fill 5) 100 1) (replicate 32 66) (replicate 44 0) SIG) SKEY
     (voucher_message (fill 5) 100 1) = Inr ()"
  using smuggled_signature [of "\<lambda>p m s. p = replicate 32 66" "replicate 32 66" "replicate 44 0" SIG
    "voucher_message (fill 5) 100 1" SKEY] by (simp add: SIG_def)

text \<open>C40: a revocation does not end a registration's ceremony. Directly after a registration that passed
  no siblings and its revocation by the passkey, the same registration is accepted again in a
  transaction with the same precompile instruction, token accounts and signers, until the expiry that
  was signed, and the revoked session key is registered again with its full cap and nothing spent.\<close>

theorem revoked_session_returns:
  assumes "exec h sw e (RegisterSessionKey accs args) l = Inr l1" and "rg_siblings accs = []"
    and "exec h sw e1 (RevokeSessionKey (rg_vault accs) (rg_session accs) rk) l1 = Inr l2"
    and "sysvar e2 = sysvar e" and "tokens e2 = tokens e" and "signers e2 = signers e"
    and "sint (now e2) < sint (ra_expires_at args)"
  shows "\<exists>l3 a. exec h sw e2 (RegisterSessionKey accs args) l2 = Inr l3 \<and>
    sessions l3 (rg_session accs) = Some a \<and> sa_version a = 1 \<and>
    sa_session a = registration_of args \<and> frontier (sa_session a) = 0 \<and>
    sr_max_amount (sa_session a) = ra_max_amount args"
proof -
  let ?k = "rg_vault accs" and ?sk = "rg_session accs"
  have none: "siblings_of m (rg_siblings accs) = []" for m by (simp add: assms(2) siblings_of_def)
  from assms(1)[unfolded exec_register_eq none] obtain v ata b c where
    v: "vaults l ?k = Some v" "version v = 6" "live_session_count v < 255"
    and accounts: "tokens e (rg_usdc_ata accs) = Some ata" "rg_payer accs \<in> set (signers e)"
      "find_program_address h (session_seeds ?k (ra_allowed_counterparty args)) PROGRAM_ID =
        Some (?sk, b)" "rg_swig accs = swig_address v"
      "seeds_canonical h (swig_wallet_seeds (rg_swig accs)) SWIG_PROGRAM_ID (rg_swig_wallet accs)"
    and args: "0 < ra_max_amount args" "0 < ra_max_revolving_capacity args"
      "ta_owner ata = rg_swig_wallet accs" "passkey_authorized h (sysvar e) (passkey_pubkey v)
        (ra_client_data_json args) (ra_authenticator_data args) (register_message ?k args)"
    and gate: "admitted h (now e) v ?k (ta_amount ata) ?sk (existing_session l ?sk) []
      (ra_max_amount args)" "count_after v (now e) (existing_session l ?sk) [] c"
    and l1: "l1 = registered_ledger l ?k v c (now e) (rg_siblings accs) ?sk b args"
    by blast
  define s where "s = registered_session (existing_session l ?sk) b ?k args"
  let ?v = "v\<lparr>live_session_count := 0\<rparr>"
  from gate have "unat c = 1" by (auto simp: admitted_def count_after_def split: if_splits)
  then have one: "c = 1" by (simp add: word_unat_eq_iff [of c 1])
  have "vaults l1 ?k = Some (v\<lparr>live_session_count := 1\<rparr>)" "sessions l1 ?sk = Some s"
    by (simp_all add: l1 s_def one registered_ledger_def put_defs)
  with assms(3) have l2: "vaults l2 ?k = Some ?v" "existing_session l2 ?sk = clear_session s"
    by (auto simp: result_simps split_paired_Ex put_defs revoke_session_key_eq_Inr
        existing_session_def)
  have new: "session_is_new (clear_session s)" by (simp add: session_is_new_def clear_session_def)
  have "admitted h (now e2) ?v ?k (ta_amount ata) ?sk (clear_session s) [] (ra_max_amount args)"
    and "count_after ?v (now e2) (clear_session s) [] 1"
    using gate new by (auto simp: admitted_def count_after_def)
  then have "exec h sw e2 (RegisterSessionKey accs args) l2 =
      Inr (registered_ledger l2 ?k ?v 1 (now e2) (rg_siblings accs) ?sk b args)"
    unfolding exec_register_eq none l2
    by (intro exI [of _ ?v] exI [of _ ata] exI [of _ b] exI [of _ 1])
      (use accounts args v assms(4-7) l2 in simp)
  then show ?thesis
    using new by (auto simp: registered_ledger_sessions l2 registered_session_def simp del: exec.simps)
qed

theorem revoked_session_returns_witness:
  "\<exists>l3 a. exec sample_host sample_swig (passkey_env (register_op SELLER 400) 1300)
      (RegisterSessionKey (register_accs SESS []) (register_args SELLER 400)) L13 = Inr l3 \<and>
    sessions l3 SESS = Some a \<and> sa_session a = registration_of (register_args SELLER 400)"
  using revoked_session_returns [OF sample_register _ _, of "passkey_env (OpRevoke V SKEY) 1200"
      "revoke_args SELLER" L13 "passkey_env (register_op SELLER 400) 1300"] sample_revoke
  by (auto simp: register_accs_def register_args_def passkey_env_def simp del: exec.simps)

text \<open>A ledger is reachable in which the live sessions of a vault are entitled to 1400 while its
  wallet holds 1000: the cleared session of the default counterparty passed the gate as a sibling.\<close>

lemma overcommit_bypass:
  "reachable sample_host sample_swig (\<lambda>_. True) M4 \<and> live_total M4 V 1500 = 1400 \<and>
   map_option ta_amount (tokens (passkey_env x 1500) ATA) = Some 1000"
  using bypass_reachable bypass_total by simp

end
