(* ===== verification/Version_Five.thy ===== *)
theory Version_Five
  imports Control
begin

text \<open>
  An instruction and the vault it names. Apart from that one it looks at no other vault of the ledger;
  and where it accepts a vault of generation 5 it does the same to it as to one of generation 6.
\<close>

section \<open>The vault an instruction names\<close>

text \<open>The one vault account an instruction names, if it names one.\<close>

fun named_vault :: "vault_instruction \<Rightarrow> pubkey option" where
  "named_vault (InitializeVault k _ _ _) = Some k"
| "named_vault (SetSwig k _) = Some k"
| "named_vault (SetSwigAtomic k _ _) = Some k"
| "named_vault (RotatePasskey k _) = Some k"
| "named_vault (RotateDexterAuthority k _ _) = Some k"
| "named_vault (ProvePasskey k _) = Some k"
| "named_vault (RequestWithdrawal k _) = Some k"
| "named_vault (FinalizeWithdrawal k _ _) = Some k"
| "named_vault (ForceRelease k _) = Some k"
| "named_vault (SettleVoucher k _ _ _) = Some k"
| "named_vault (RegisterSessionKey accs _) = Some (rg_vault accs)"
| "named_vault (RevokeSessionKey k _ _) = Some k"
| "named_vault (CloseSession k _ _ _) = Some k"
| "named_vault (SettleTabVoucher accs _) = Some (st_vault accs)"
| "named_vault (LockVoucher accs _) = Some (lk_vault accs)"
| "named_vault (SettleLockedVoucher accs) = Some (sl_vault accs)"
| "named_vault (RecoverAbandonedLock k _ _) = Some k"
| "named_vault (TransferLockOwnership _ _ _) = None"
| "named_vault (SetStandbyReserve _ _) = None"
| "named_vault (OpenStandby k _ _ _) = Some k"
| "named_vault (CloseStandby accs _) = Some (cs_vault accs)"
| "named_vault (DrawCredit k _ _) = Some k"
| "named_vault (RepayCredit k _ _) = Some k"
| "named_vault (SeizeCollateral k _) = Some k"

text \<open>On a ledger with other vaults it does the same, and leaves those as they are.\<close>

lemma exec_local:
  assumes "exec h sw e ix l = Inr l'" and "\<And>k. named_vault ix = Some k \<Longrightarrow> f k = vaults l k"
  shows "exec h sw e ix (l\<lparr>vaults := f\<rparr>) = Inr (l'\<lparr>vaults :=
    (case named_vault ix of None \<Rightarrow> f | Some k \<Rightarrow> f(k := vaults l' k))\<rparr>)"
  using assms
proof (cases ix)
  case (SettleVoucher k s a args)
  then show ?thesis using assms
    by (cases s) (auto simp: result_simps put_defs)
qed (auto simp: result_simps put_defs Let_def siblings_of_def on_vault_def fun_upd_idem
    split: option.splits)

lemma exec_named:
  assumes "exec h sw e ix l = Inr l'"
  shows "vaults l' = (case named_vault ix of None \<Rightarrow> vaults l
    | Some k \<Rightarrow> (vaults l)(k := vaults l' k))"
proof -
  let ?g = "case named_vault ix of None \<Rightarrow> vaults l | Some k \<Rightarrow> (vaults l)(k := vaults l' k)"
  have "exec h sw e ix l = Inr (l'\<lparr>vaults := ?g\<rparr>)"
    using exec_local [OF assms, of "vaults l"] by simp
  with assms have "l' = l'\<lparr>vaults := ?g\<rparr>" by simp
  then have "vaults l' = vaults (l'\<lparr>vaults := ?g\<rparr>)" by (rule arg_cong)
  also have "\<dots> = ?g" by simp
  finally show ?thesis .
qed

section \<open>A vault that says generation 5\<close>

definition six :: "vault \<Rightarrow> vault" where "six v = v\<lparr>version := VAULT_VERSION_V6\<rparr>"

lemma versions [simp]: "any_supported_version 6" "credit_version 6"
  by (simp_all add: any_supported_version_def credit_version_def)

lemma six_sel [simp]:
  "version (six v) = 6" "bump (six v) = bump v" "passkey_pubkey (six v) = passkey_pubkey v"
  "swig_address (six v) = swig_address v" "cooling_off_seconds (six v) = cooling_off_seconds v"
  "pending_voucher_count (six v) = pending_voucher_count v"
  "pending_withdrawal (six v) = pending_withdrawal v" "identity_claim (six v) = identity_claim v"
  "dexter_authority (six v) = dexter_authority v" "live_session_count (six v) = live_session_count v"
  "outstanding_locked_amount (six v) = outstanding_locked_amount v"
  "total_crystallized_amount (six v) = total_crystallized_amount v"
  "total_settled_amount (six v) = total_settled_amount v" "borrowed (six v) = borrowed v"
  "standby_backer (six v) = standby_backer v" "standby_cap (six v) = standby_cap v"
  "borrow_recovery_at (six v) = borrow_recovery_at v"
  by (simp_all add: six_def)

lemma six_admin:
  "set_swig h e v args1 = Inr v' \<Longrightarrow> set_swig h e (six v) args1 = Inr (six v')"
  "rotate_passkey h e v args2 = Inr v' \<Longrightarrow> rotate_passkey h e (six v) args2 = Inr (six v')"
  "rotate_dexter_authority e v a n = Inr v' \<Longrightarrow> rotate_dexter_authority e (six v) a n = Inr (six v')"
  "prove_passkey h e v args3 = Inr u \<Longrightarrow> prove_passkey h e (six v) args3 = Inr u"
  "set_swig_atomic h ss cpi e v accs args = Inr (v', ixs) \<Longrightarrow>
     set_swig_atomic h ss cpi e (six v) accs args = Inr (six v', ixs)"
  by (auto simp: set_swig_eq_Inr rotate_passkey_eq_Inr rotate_dexter_authority_eq_Inr
      prove_passkey_eq_Inr set_swig_atomic_eq_Inr six_def)

lemma six_withdrawal:
  "request_withdrawal h e v args3 = Inr v' \<Longrightarrow> request_withdrawal h e (six v) args3 = Inr (six v')"
  "finalize_withdrawal h e v accs args4 = Inr v' \<Longrightarrow> finalize_withdrawal h e (six v) accs args4 = Inr (six v')"
  "force_release h e v args5 = Inr v' \<Longrightarrow> force_release h e (six v) args5 = Inr (six v')"
  by (auto simp: request_withdrawal_eq_Inr finalize_withdrawal_eq_Inr withdrawal_gate_def
      force_release_eq_Inr six_def)

lemma six_credit:
  "open_standby h e v k f sb bk args7 = Inr (v', sb') \<Longrightarrow> open_standby h e (six v) k f sb bk args7 = Inr (six v', sb')"
  "close_standby h e v sb accs8 args8 = Inr (v', sb') \<Longrightarrow> close_standby h e (six v) sb accs8 args8 = Inr (six v', sb')"
  "draw_credit h e v accs9 args9 = Inr v' \<Longrightarrow> draw_credit h e (six v) accs9 args9 = Inr (six v')"
  "repay_credit h e v accs10 m = Inr v' \<Longrightarrow> repay_credit h e (six v) accs10 m = Inr (six v')"
  "seize_collateral h e v accs10 = Inr v' \<Longrightarrow> seize_collateral h e (six v) accs10 = Inr (six v')"
  by (auto simp: open_standby_eq_Inr close_standby_eq_Inr draw_credit_eq_Inr draw_credit_handler_eq_Inr
     repay_credit_eq_Inr seize_collateral_eq_Inr current_cap_def close_consent_def deadline_after_def repaid_def
     check_user_swig_eq_Inr six_def split: closer.splits option.splits)

lemma six_claims:
  "settle_locked_voucher h e v c accs5 = Inr (v', c') \<Longrightarrow> settle_locked_voucher h e (six v) c accs5 = Inr (six v', c')"
  "recover_abandoned_lock h e v k c ck args6 = Inr (v', c') \<Longrightarrow> recover_abandoned_lock h e (six v) k c ck args6 = Inr (six v', c')"
  by (auto simp: settle_locked_voucher_eq_Inr recover_abandoned_lock_eq_Inr six_def)

lemma same_count:
  "draw_credit h e v accs9 args9 = Inr v' \<Longrightarrow> live_session_count v' = live_session_count v"
  "repay_credit h e v accs10 m = Inr v' \<Longrightarrow> live_session_count v' = live_session_count v"
  "seize_collateral h e v accs10 = Inr v' \<Longrightarrow> live_session_count v' = live_session_count v"
  "open_standby h e v k f sb bk args7 = Inr (v', sb') \<Longrightarrow> live_session_count v' = live_session_count v"
  "close_standby h e v sb accs8 args8 = Inr (v', sb') \<Longrightarrow> live_session_count v' = live_session_count v"
  "settle_locked_voucher h e v c accs5 = Inr (v', c') \<Longrightarrow> live_session_count v' = live_session_count v"
  "recover_abandoned_lock h e v k c ck args6 = Inr (v', c') \<Longrightarrow> live_session_count v' = live_session_count v"
  "set_swig_atomic h ss cpi e v accs args = Inr (v', ixs) \<Longrightarrow> live_session_count v' = live_session_count v"
  by (auto simp: open_standby_eq_Inr close_standby_eq_Inr draw_credit_eq_Inr draw_credit_handler_eq_Inr
      repay_credit_eq_Inr repaid_def seize_collateral_eq_Inr settle_locked_voucher_eq_Inr
      recover_abandoned_lock_eq_Inr set_swig_atomic_eq_Inr)

lemma same_count_admin:
  "set_swig h e v args1 = Inr v' \<Longrightarrow> live_session_count v' = live_session_count v"
  "rotate_passkey h e v args2 = Inr v' \<Longrightarrow> live_session_count v' = live_session_count v"
  "rotate_dexter_authority e v a n = Inr v' \<Longrightarrow> live_session_count v' = live_session_count v"
  "request_withdrawal h e v args3 = Inr v' \<Longrightarrow> live_session_count v' = live_session_count v"
  "finalize_withdrawal h e v accs args4 = Inr v' \<Longrightarrow> live_session_count v' = live_session_count v"
  "force_release h e v args5 = Inr v' \<Longrightarrow> live_session_count v' = live_session_count v"
  by (drule same_books_admin, simp add: same_books_def)+

text \<open>The instructions that use sessions accept generation 6 only.\<close>

lemma only_six:
  "settle_voucher h e v k s a args1 = Inr r1 \<Longrightarrow> version v = 6"
  "settle_tab_voucher h e v sa accs2 args2 = Inr r2 \<Longrightarrow> version v = 6"
  "lock_voucher h e v sa ex accs3 args3 = Inr r3 \<Longrightarrow> version v = 6"
  "register_session_key h e v old sibs accs4 args4 = Inr r4 \<Longrightarrow> version v = 6"
  "revoke_session_key h e v k sa sk args5 = Inr r5 \<Longrightarrow> version v = 6"
  "close_session h e v k sa sk auth cp = Inr r6 \<Longrightarrow> version v = 6"
  by (cases r1, auto simp: settle_voucher_eq_Inr settle_voucher_handler_eq_Inr)
    (cases r2, auto simp: settle_tab_voucher_eq_Inr settle_tab_voucher_handler_eq_Inr,
     cases r3, auto simp: lock_voucher_eq_Inr lock_voucher_handler_eq_Inr,
     cases r4, auto simp: register_session_key_eq_Inr register_session_key_handler_eq_Inr,
     cases r5, auto simp: revoke_session_key_eq_Inr,
     auto simp: close_session_eq_Inr)

lemmas six_steps = six_admin six_withdrawal six_credit six_claims
lemmas same_counts = same_count same_count_admin

lemma exec_six:
  assumes "exec h sw e ix l = Inr l'" and "named_vault ix = Some k" and "vaults l k = Some v"
    and "version v = 5"
  shows "exec h sw e ix (l\<lparr>vaults := (vaults l)(k \<mapsto> six v)\<rparr>) =
      Inr (l'\<lparr>vaults := (vaults l')(k := map_option six (vaults l' k))\<rparr>) \<and>
    (\<forall>v'. vaults l' k = Some v' \<longrightarrow> live_session_count v' = live_session_count v)"
proof (cases ix)
  case (SettleVoucher j s a args)
  then show ?thesis using assms
    by (cases s) (auto simp: result_simps put_defs on_vault_def dest: only_six)
qed (use assms in \<open>auto simp: result_simps put_defs on_vault_def Let_def initialize_vault_eq_Inr
    dest: only_six six_steps same_counts\<close>)

end
