(* ===== verification/Chain.thy ===== *)
theory Chain
  imports Version_Five Migration_Laws
begin

text \<open>
  The program over raw vault accounts, with all thirty entry points of \<open>lib.rs\<close>. A vault account is
  bytes of whichever generation wrote it; Anchor loads it by the current struct before an instruction
  and writes the struct back after it, while the migrations read it by the struct of their generation.
  On accounts of the current generation, and on those of generation 5 without a session, this is the
  typed ledger (\<open>run_current_refines\<close>).
\<close>

section \<open>The accounts\<close>

record chain =
  ch_vaults :: "pubkey \<Rightarrow> raw_account option"
  ch_sessions :: "pubkey \<Rightarrow> session_account option"
  ch_claims :: "pubkey \<Rightarrow> locked_claim option"
  ch_backers :: "pubkey \<Rightarrow> standby_backer_ledger option"

text \<open>\<open>Account<'info, Vault>\<close>: the owner and the discriminator are checked, then the current struct is
  read from the front of the bytes, whatever the version byte says.\<close>

definition anchor_load :: "raw_account \<Rightarrow> vault option" where
  "anchor_load a =
     (if ac_owner a = PROGRAM_ID then
        (case try_deserialize_vault (ac_data a) of Inl _ \<Rightarrow> None | Inr v \<Rightarrow> Some v)
      else None)"

text \<open>The write at the end of the instruction: the bytes behind the struct stay.\<close>

definition anchor_store :: "vault \<Rightarrow> raw_account \<Rightarrow> error + raw_account" where
  "anchor_store v a = write_image (account_image (ser_vault v)) a"

definition new_account :: "host \<Rightarrow> vault \<Rightarrow> raw_account" where
  "new_account h v = \<lparr> ac_owner = PROGRAM_ID, ac_data = vault_image v,
     ac_lamports = rent_minimum_balance h (8 + VAULT_SPACE) \<rparr>"

definition with_vaults :: "(raw_account \<Rightarrow> vault option) \<Rightarrow> chain \<Rightarrow> ledger" where
  "with_vaults rd c =
     \<lparr> vaults = (\<lambda>k. Option.bind (ch_vaults c k) rd), sessions = ch_sessions c,
       claims = ch_claims c, backers = ch_backers c \<rparr>"

definition loaded :: "chain \<Rightarrow> ledger" where "loaded = with_vaults anchor_load"

section \<open>Entry points\<close>

text \<open>The migrations name the vault, the authority and the payer with its lamports; the with-session
  path also names the session account and its counterparty.\<close>

datatype program_instruction =
    Current vault_instruction
  | MigrateV2ToV3 pubkey pubkey pubkey u64
  | MigrateV3ToV4 pubkey pubkey pubkey u64
  | MigrateV4ToV5 pubkey pubkey pubkey u64
  | MigrateV5ToV6 pubkey pubkey pubkey u64
  | MigrateV5ToV6WithSession pubkey pubkey pubkey pubkey pubkey u64
  | MigrateLegacyToV6 pubkey pubkey pubkey u64

text \<open>The vault that \<open>init\<close> creates.\<close>

fun created_vault :: "vault_instruction \<Rightarrow> pubkey option" where
  "created_vault (InitializeVault k _ _ _) = Some k"
| "created_vault _ = None"

section \<open>Dispatch\<close>

definition store_vault ::
  "host \<Rightarrow> ledger \<Rightarrow> pubkey \<Rightarrow> (pubkey \<Rightarrow> raw_account option) \<Rightarrow>
     error + (pubkey \<Rightarrow> raw_account option)" where
  "store_vault h l k accs =
     (case vaults l k of
        None \<Rightarrow> Inr accs
      | Some v \<Rightarrow>
          (case accs k of
             None \<Rightarrow> Inr (accs(k \<mapsto> new_account h v))
           | Some a \<Rightarrow> bind_res (anchor_store v a) (\<lambda>a'. Inr (accs(k \<mapsto> a')))))"

definition run_current ::
  "host \<Rightarrow> swig_world \<Rightarrow> tx_env \<Rightarrow> vault_instruction \<Rightarrow> chain \<Rightarrow> error + chain" where
  "run_current h sw e ix c =
     require (case created_vault ix of None \<Rightarrow> True | Some k \<Rightarrow> ch_vaults c k = None)
       (AnchorError AccountAlreadyInUse) (
     bind_res (exec h sw e ix (loaded c)) (\<lambda>l.
     bind_res (case named_vault ix of
         None \<Rightarrow> Inr (ch_vaults c)
       | Some k \<Rightarrow> store_vault h l k (ch_vaults c)) (\<lambda>accs.
     Inr \<lparr> ch_vaults = accs, ch_sessions = sessions l, ch_claims = claims l,
           ch_backers = backers l \<rparr>)))"

definition on_account ::
  "pubkey \<Rightarrow> (raw_account \<Rightarrow> error + raw_account \<times> u64) \<Rightarrow> chain \<Rightarrow> error + chain" where
  "on_account k run c =
     bind_res (ok_or (ch_vaults c k) (AnchorError ConstraintOwner)) (\<lambda>a.
     bind_res (run a) (\<lambda>(a', payer'). Inr (c\<lparr>ch_vaults := (ch_vaults c)(k \<mapsto> a')\<rparr>)))"

fun dispatch ::
  "host \<Rightarrow> transfer \<Rightarrow> swig_world \<Rightarrow> tx_env \<Rightarrow> program_instruction \<Rightarrow> chain \<Rightarrow> error + chain" where
  "dispatch h tr sw e (Current ix) c = run_current h sw e ix c"
| "dispatch h tr sw e (MigrateV2ToV3 k authority pk payer) c =
     on_account k (\<lambda>a. migrate_v2_to_v3 h tr e a authority pk payer) c"
| "dispatch h tr sw e (MigrateV3ToV4 k authority pk payer) c =
     on_account k (\<lambda>a. migrate_v3_to_v4 h tr e a authority pk payer) c"
| "dispatch h tr sw e (MigrateV4ToV5 k authority pk payer) c =
     on_account k (\<lambda>a. migrate_v4_to_v5 h tr e a authority pk payer) c"
| "dispatch h tr sw e (MigrateV5ToV6 k authority pk payer) c =
     on_account k (\<lambda>a. migrate_v5_to_v6 h e a authority pk payer) c"
| "dispatch h tr sw e (MigrateV5ToV6WithSession k authority sk counterparty pk payer) c =
     bind_res (ok_or (ch_vaults c k) (AnchorError ConstraintOwner)) (\<lambda>a.
     bind_res (migrate_v5_to_v6_with_session h e k a authority sk (ch_sessions c sk) counterparty
                 pk payer) (\<lambda>(a', sa, payer').
     Inr (c\<lparr>ch_vaults := (ch_vaults c)(k \<mapsto> a'), ch_sessions := (ch_sessions c)(sk \<mapsto> sa)\<rparr>)))"
| "dispatch h tr sw e (MigrateLegacyToV6 k authority pk payer) c =
     on_account k (\<lambda>a. migrate_legacy_to_v6 h tr e a authority pk payer) c"

lemma on_account_eq_Inr [result_simps]:
  "on_account k run c = Inr c' \<longleftrightarrow>
     (\<exists>a a' p. ch_vaults c k = Some a \<and> run a = Inr (a', p) \<and>
        c' = c\<lparr>ch_vaults := (ch_vaults c)(k \<mapsto> a')\<rparr>)"
  by (auto simp: on_account_def result_simps)

section \<open>The books of every generation\<close>

text \<open>What a vault account stands for: the vault of the current generation that the migrations make of
  it. Accounts of generations 2 and 3 and those without a version byte have no books yet. An account
  below 279 bytes has no version byte, what stands there is its bump.\<close>

definition read_as :: "('v \<Rightarrow> vault) \<Rightarrow> error + 'v \<times> byte list \<Rightarrow> vault option" where
  "read_as f r = (case r of Inl _ \<Rightarrow> None | Inr (v, _) \<Rightarrow> Some (f v))"

lemma read_as_simps [simp]: "read_as f (Inl x) = None" "read_as f (Inr (v, r)) = Some (f v)"
  by (simp_all add: read_as_def)

definition versioned :: "raw_account \<Rightarrow> bool" where
  "versioned a \<longleftrightarrow> ac_owner a = PROGRAM_ID \<and> 279 \<le> length (ac_data a) \<and>
     take 8 (ac_data a) = VAULT_DISCRIMINATOR"

definition modern :: "raw_account \<Rightarrow> vault option" where
  "modern a =
     (if \<not> versioned a then None
      else if ac_data a ! 8 = VAULT_VERSION_V6 then read_as id (read_vault (drop 8 (ac_data a)))
      else if ac_data a ! 8 = VAULT_VERSION_V5 then
        read_as (v6_of_v5 0) (read_vault_v5 (drop 8 (ac_data a)))
      else if ac_data a ! 8 = VAULT_VERSION_V4 then
        read_as (v6_of_v5 0 \<circ> v5_of_v4) (read_vault_v4 (drop 8 (ac_data a)))
      else None)"

definition view :: "chain \<Rightarrow> ledger" where "view = with_vaults modern"

lemma image_version [simp]:
  "(account_image (ser_vault v6) @ r) ! 8 = version v6"
  "(account_image (ser_vault_v5 v5) @ r) ! 8 = w5_version v5"
  "(account_image (ser_vault_v4 v4) @ r) ! 8 = w4_version v4"
  "(account_image (ser_vault_v3 v3) @ r) ! 8 = w3_version v3"
  "take 8 (account_image b @ r) = VAULT_DISCRIMINATOR"
  "drop 8 (account_image b @ r) = b @ r"
  by (simp_all add: account_image_def ser_vault_def ser_vault_v5_def ser_vault_v4_def
      ser_vault_v3_def nth_append)

lemma modern_image:
  assumes "ac_owner a = PROGRAM_ID" and "279 \<le> length (ac_data a)"
  shows "ac_data a = account_image (ser_vault v6) @ r \<Longrightarrow> version v6 = 6 \<Longrightarrow> modern a = Some v6"
    and "ac_data a = account_image (ser_vault_v5 v5) @ r \<Longrightarrow> w5_version v5 = 5 \<Longrightarrow>
      modern a = Some (v6_of_v5 0 v5)"
    and "ac_data a = account_image (ser_vault_v4 v4) @ r \<Longrightarrow> w4_version v4 = 4 \<Longrightarrow>
      modern a = Some (v6_of_v5 0 (v5_of_v4 v4))"
    and "ac_data a = account_image (ser_vault_v3 v3) @ r \<Longrightarrow> w3_version v3 = 3 \<Longrightarrow>
      modern a = None"
  using assms
  by (simp_all add: modern_def versioned_def vault_codec.rd_ser vault_v5_codec.rd_ser
      vault_v4_codec.rd_ser del: length_account_image take_append drop_append)

lemma modern_short: "length (ac_data a) < 279 \<Longrightarrow> modern a = None"
  by (simp add: modern_def versioned_def)

text \<open>Loading an account means having its front bytes.\<close>

lemma anchor_load_iff:
  "anchor_load a = Some v \<longleftrightarrow>
     ac_owner a = PROGRAM_ID \<and> (\<exists>r. ac_data a = account_image (ser_vault v) @ r)"
proof -
  have "try_deserialize_vault bs = Inr v \<longleftrightarrow> (\<exists>r. bs = account_image (ser_vault v) @ r)" for bs
    by (auto simp: try_deserialize_vault_def result_simps borsh account_image_def)
      (metis append_take_drop_id)
  then show ?thesis by (auto simp: anchor_load_def split: sum.splits)
qed

text \<open>An account that the current instructions read right: of the current generation, or of generation
  5 without a session, whose bytes are those of the current struct (the tag of the missing session is
  the count of live sessions).\<close>

definition usable :: "raw_account \<Rightarrow> bool" where
  "usable a \<longleftrightarrow> 279 \<le> length (ac_data a) \<and>
     (case anchor_load a of
        None \<Rightarrow> False
      | Some v \<Rightarrow> version v = VAULT_VERSION_V6 \<or>
          version v = VAULT_VERSION_V5 \<and> live_session_count v = 0)"

definition v5_of_v6 :: "vault \<Rightarrow> vault_v5" where
  "v5_of_v6 v =
     \<lparr> w5_version = version v, w5_bump = bump v, w5_passkey_pubkey = passkey_pubkey v,
       w5_swig_address = swig_address v, w5_cooling_off_seconds = cooling_off_seconds v,
       w5_pending_voucher_count = pending_voucher_count v,
       w5_pending_withdrawal = pending_withdrawal v, w5_identity_claim = identity_claim v,
       w5_dexter_authority = dexter_authority v, w5_active_session = None,
       w5_outstanding_locked_amount = outstanding_locked_amount v,
       w5_total_crystallized_amount = total_crystallized_amount v,
       w5_total_settled_amount = total_settled_amount v, w5_borrowed = borrowed v,
       w5_standby_backer = standby_backer v, w5_standby_cap = standby_cap v,
       w5_borrow_recovery_at = borrow_recovery_at v \<rparr>"

lemma sessionless_bytes:
  assumes "live_session_count v = 0"
  shows "ser_vault v = ser_vault_v5 (v5_of_v6 v)" and "v6_of_v5 0 (v5_of_v6 v) = six v"
  using assms by (simp_all add: ser_vault_def ser_vault_v5_def v5_of_v6_def v6_of_v5_def six_def)

lemma six_id [simp]: "version v = 6 \<Longrightarrow> six v = v"
  by (simp add: six_def)

lemma modern_loaded:
  assumes "ac_owner a = PROGRAM_ID" and "279 \<le> length (ac_data a)"
    and d: "ac_data a = account_image (ser_vault v) @ r"
    and "version v = 6 \<or> version v = 5 \<and> live_session_count v = 0"
  shows "modern a = Some (six v)" and "usable a"
proof -
  have load: "anchor_load a = Some v" using assms(1) d anchor_load_iff by blast
  then show "usable a" using assms by (simp add: usable_def)
  show "modern a = Some (six v)"
  proof (cases "version v = 6")
    case True
    then show ?thesis using modern_image(1) [OF assms(1,2) d] by simp
  next
    case False
    with assms(4) have five: "version v = 5" "live_session_count v = 0" by auto
    then show ?thesis
      using modern_image(2) [OF assms(1,2), of "v5_of_v6 v" r] d sessionless_bytes [OF five(2)]
      by (simp add: v5_of_v6_def)
  qed
qed

lemma modern_usable:
  assumes "usable a"
  obtains v where "anchor_load a = Some v" and "modern a = Some (six v)"
    and "version v = 6 \<or> version v = 5 \<and> live_session_count v = 0" and "ac_owner a = PROGRAM_ID"
proof -
  from assms obtain v where v: "anchor_load a = Some v" "279 \<le> length (ac_data a)"
    "version v = 6 \<or> version v = 5 \<and> live_session_count v = 0"
    by (auto simp: usable_def split: option.splits)
  then obtain r where "ac_owner a = PROGRAM_ID" "ac_data a = account_image (ser_vault v) @ r"
    by (auto simp: anchor_load_iff)
  with v modern_loaded(1) that show ?thesis by blast
qed

lemma anchor_store_usable:
  assumes "anchor_store v a = Inr a'" and "279 \<le> length (ac_data a)" and "ac_owner a = PROGRAM_ID"
    and "version v = 6 \<or> version v = 5 \<and> live_session_count v = 0"
  shows "usable a' \<and> modern a' = Some (six v)"
proof -
  from assms(1) have fits: "length (account_image (ser_vault v)) \<le> length (ac_data a)"
    and a': "a' = a\<lparr>ac_data := account_image (ser_vault v) @
      drop (length (account_image (ser_vault v))) (ac_data a)\<rparr>"
    by (simp_all add: anchor_store_def write_image_eq_Inr del: length_account_image)
  have len: "length (ac_data a') = length (ac_data a)" using fits by (simp add: a')
  show ?thesis
    using modern_loaded [of a' v "drop (length (account_image (ser_vault v))) (ac_data a)"]
      assms len by (simp add: a')
qed

section \<open>Usable accounts are the typed ledger\<close>

text \<open>Only \<open>initialize_vault\<close> makes a vault, of the current generation; the others load theirs.\<close>

lemma exec_births:
  assumes "exec h sw e ix l = Inr l'" and "named_vault ix = Some k" and "vaults l k = None"
  shows "created_vault ix = Some k \<and> (\<exists>v. vaults l' k = Some v \<and> version v = 6)"
proof (cases ix)
  case (SettleVoucher j s a args)
  then show ?thesis using assms by (cases s) (auto simp: result_simps put_defs split: if_splits)
qed (use assms in \<open>auto simp: result_simps put_defs Let_def on_vault_def initialize_vault_eq_Inr
    split: if_splits\<close>)

definition names_usable :: "chain \<Rightarrow> vault_instruction \<Rightarrow> bool" where
  "names_usable c ix \<longleftrightarrow>
     (case Option.bind (named_vault ix) (ch_vaults c) of None \<Rightarrow> True | Some a \<Rightarrow> usable a)"

lemma view_sel [simp]:
  "vaults (view c) k = Option.bind (ch_vaults c k) modern" "sessions (view c) = ch_sessions c"
  "claims (view c) = ch_claims c" "backers (view c) = ch_backers c"
  "vaults (loaded c) k = Option.bind (ch_vaults c k) anchor_load"
  "sessions (loaded c) = ch_sessions c" "claims (loaded c) = ch_claims c"
  "backers (loaded c) = ch_backers c"
  by (simp_all add: view_def loaded_def with_vaults_def)

lemma ledger_eqI:
  "\<lbrakk> \<And>k. vaults l k = vaults m k; sessions l = sessions m; claims l = claims m;
     backers l = backers m \<rbrakk> \<Longrightarrow> l = (m :: ledger)"
  by (rule ledger.equality) auto

lemma loaded_view:
  "(loaded c)\<lparr>vaults := vaults (view c)\<rparr> = view c"
  by (simp add: view_def loaded_def with_vaults_def)

text \<open>The instruction on the view does what it does on the loaded accounts, up to the version byte of a
  generation-5 account.\<close>

lemma exec_on_named:
  assumes ex: "exec h sw e ix (loaded c) = Inr l'" and k: "named_vault ix = Some k"
    and nu: "names_usable c ix" and fresh: "created_vault ix = Some k \<Longrightarrow> ch_vaults c k = None"
  shows "exec h sw e ix ((loaded c)\<lparr>vaults := (vaults (loaded c))(k := vaults (view c) k)\<rparr>) =
      Inr (l'\<lparr>vaults := (vaults l')(k := map_option six (vaults l' k))\<rparr>) \<and>
    (\<exists>v. vaults l' k = Some v \<and> (version v = 6 \<or> version v = 5 \<and> live_session_count v = 0))"
  (is "exec h sw e ix ((loaded c)\<lparr>vaults := ?g\<rparr>) = _ \<and> _")
proof (cases "vaults (loaded c) k")
  case None
  then obtain v where v: "created_vault ix = Some k" "vaults l' k = Some v" "version v = 6"
    using exec_births [OF ex k] by blast
  then have "?g = vaults (loaded c)" using fresh by (simp add: fun_eq_iff)
  then show ?thesis using ex v by (simp add: fun_upd_idem del: view_sel)
next
  case (Some w)
  then obtain a where a: "ch_vaults c k = Some a" "anchor_load a = Some w"
    by (auto simp: bind_eq_Some_conv)
  then have m: "vaults (view c) k = Some (six w)"
    and w: "version w = 6 \<or> version w = 5 \<and> live_session_count w = 0"
    using nu k modern_usable [of a] by (auto simp: names_usable_def)
  obtain v where v: "vaults l' k = Some v" "version v = version w"
    using exec_controlled [OF ex] Some unfolding controlled_def control_step_def by blast
  show ?thesis
  proof (cases "version w = 6")
    case True
    then have "?g = vaults (loaded c)" using m Some by (simp add: fun_eq_iff del: view_sel)
    then show ?thesis using ex v True by (simp add: fun_upd_idem del: view_sel)
  next
    case False
    with w have five: "version w = 5" "live_session_count w = 0" by auto
    show ?thesis using exec_six [OF ex k Some five(1)] v five m by (simp del: view_sel)
  qed
qed

lemma exec_on_view:
  assumes ex: "exec h sw e ix (loaded c) = Inr l'" and k: "named_vault ix = Some k"
    and nu: "names_usable c ix" and fresh: "created_vault ix = Some k \<Longrightarrow> ch_vaults c k = None"
  shows "exec h sw e ix (view c) =
      Inr (l'\<lparr>vaults := (vaults (view c))(k := map_option six (vaults l' k))\<rparr>)"
    and "\<exists>v. vaults l' k = Some v \<and> (version v = 6 \<or> version v = 5 \<and> live_session_count v = 0)"
proof -
  let ?g = "(vaults (loaded c))(k := vaults (view c) k)"
  note part = exec_on_named [OF ex k nu fresh]
  have "exec h sw e ix ((loaded c)\<lparr>vaults := ?g\<rparr>\<lparr>vaults := vaults (view c)\<rparr>) =
      Inr (l'\<lparr>vaults := (vaults l')(k := map_option six (vaults l' k))\<rparr>\<lparr>vaults :=
        (case named_vault ix of None \<Rightarrow> vaults (view c)
         | Some i \<Rightarrow> (vaults (view c))(i := ((vaults l')(k := map_option six (vaults l' k))) i))\<rparr>)"
    using exec_local [OF conjunct1 [OF part], where f = "vaults (view c)"] k
    by (simp del: view_sel)
  moreover have "(loaded c)\<lparr>vaults := ?g\<rparr>\<lparr>vaults := vaults (view c)\<rparr> = view c"
    using loaded_view by (simp del: view_sel)
  ultimately show "exec h sw e ix (view c) =
      Inr (l'\<lparr>vaults := (vaults (view c))(k := map_option six (vaults l' k))\<rparr>)"
    using k by (simp del: view_sel)
  show "\<exists>v. vaults l' k = Some v \<and> (version v = 6 \<or> version v = 5 \<and> live_session_count v = 0)"
    using part by (rule conjunct2)
qed

lemma stored_vault:
  assumes "store_vault h l' k accs = Inr accs'" and "vaults l' k = Some v"
    and v: "version v = 6 \<or> version v = 5 \<and> live_session_count v = 0"
    and "\<And>a. accs k = Some a \<Longrightarrow> usable a"
  shows "\<exists>a. accs' = accs(k \<mapsto> a) \<and> usable a \<and> modern a = Some (six v)"
proof (cases "accs k")
  case None
  let ?a = "new_account h v"
  obtain n where d: "ac_data ?a = account_image (ser_vault v) @ replicate n 0"
    using vault_image_pad by (auto simp: new_account_def)
  have "ac_owner ?a = PROGRAM_ID" "279 \<le> length (ac_data ?a)" by (simp_all add: new_account_def)
  then have "usable ?a \<and> modern ?a = Some (six v)" using modern_loaded [OF _ _ d v] by blast
  then show ?thesis using assms(1,2) None by (auto simp: store_vault_def)
next
  case (Some a)
  then have a: "usable a" using assms(4) by blast
  then have "ac_owner a = PROGRAM_ID" "279 \<le> length (ac_data a)"
    using modern_usable [OF a] by (auto simp: usable_def)
  moreover obtain a' where "anchor_store v a = Inr a'" "accs' = accs(k \<mapsto> a')"
    using assms(1,2) Some by (auto simp: store_vault_def result_simps)
  ultimately show ?thesis using anchor_store_usable v by blast
qed

lemma run_current_refines:
  assumes "run_current h sw e ix c = Inr c'" and "names_usable c ix"
  shows "exec h sw e ix (view c) = Inr (view c')"
    and "ch_vaults c' i = ch_vaults c i \<or> (\<exists>a. ch_vaults c' i = Some a \<and> usable a)"
proof -
  from assms(1) obtain l' accs where
    fresh: "case created_vault ix of None \<Rightarrow> True | Some k \<Rightarrow> ch_vaults c k = None"
    and ex: "exec h sw e ix (loaded c) = Inr l'"
    and st: "(case named_vault ix of None \<Rightarrow> Inr (ch_vaults c)
       | Some k \<Rightarrow> store_vault h l' k (ch_vaults c)) = Inr accs"
    and c': "c' = \<lparr> ch_vaults = accs, ch_sessions = sessions l', ch_claims = claims l',
           ch_backers = backers l' \<rparr>"
    unfolding run_current_def bind_res_eq_Inr require_eq_Inr by blast
  have "exec h sw e ix (view c) = Inr (view c') \<and>
    (ch_vaults c' i = ch_vaults c i \<or> (\<exists>a. ch_vaults c' i = Some a \<and> usable a))"
  proof (cases "named_vault ix")
    case None
    then have "accs = ch_vaults c" using st by simp
    moreover have "exec h sw e ix (view c) = Inr (l'\<lparr>vaults := vaults (view c)\<rparr>)"
      using exec_local [OF ex, where f = "vaults (view c)"] None loaded_view
      by (simp del: view_sel)
    ultimately show ?thesis by (auto simp: c' intro!: ledger_eqI)
  next
    case (Some k)
    have "created_vault ix = Some k \<Longrightarrow> ch_vaults c k = None" using fresh by simp
    note run = exec_on_view [OF ex Some assms(2) this]
    from run(2) obtain v where v: "vaults l' k = Some v"
      "version v = 6 \<or> version v = 5 \<and> live_session_count v = 0" by blast
    have "\<And>a. ch_vaults c k = Some a \<Longrightarrow> usable a"
      using assms(2) Some by (simp add: names_usable_def)
    then obtain a where "accs = (ch_vaults c)(k \<mapsto> a)" "usable a" "modern a = Some (six v)"
      using stored_vault [OF _ v, of h "ch_vaults c" accs] st Some by auto
    then show ?thesis using run(1) v(1) by (auto simp: c' intro!: ledger_eqI)
  qed
  then show "exec h sw e ix (view c) = Inr (view c')"
    and "ch_vaults c' i = ch_vaults c i \<or> (\<exists>a. ch_vaults c' i = Some a \<and> usable a)" by blast+
qed

lemma store_vault_frame:
  "store_vault h l k accs = Inr accs' \<Longrightarrow> i \<noteq> k \<Longrightarrow> accs' i = accs i"
  by (auto simp: store_vault_def bind_res_eq_Inr dest!: sym [of _ accs'] split: option.splits)

lemma run_current_frame:
  assumes "run_current h sw e ix c = Inr c'" and "named_vault ix \<noteq> Some i"
  shows "ch_vaults c' i = ch_vaults c i"
proof (cases "named_vault ix")
  case None
  then show ?thesis using assms(1) by (auto simp: run_current_def result_simps)
next
  case (Some k)
  then obtain l' where "store_vault h l' k (ch_vaults c) = Inr (ch_vaults c')"
    using assms(1) by (auto simp: run_current_def result_simps)
  moreover have "i \<noteq> k" using Some assms(2) by auto
  ultimately show ?thesis by (rule store_vault_frame)
qed

end
