(* ===== verification/Panic_Freedom.thy ===== *)
theory Panic_Freedom
  imports Chain
begin

text \<open>
  No entry point panics. The build has overflow checks on, so a plain \<open>+\<close>, \<open>-\<close> or \<open>abs\<close> that
  overflows panics, and so does an index out of bounds and an address search that finds no bump; the
  definitions return \<open>Panic\<close> there. The rules \<open>returns_intros\<close> follow the shape of a handler and
  leave the places where a panic is possible. What is needed from outside: the address search finds a
  bump, the clock is not before the epoch, the layouts of the Swig crate are small, a failed transfer
  is an error, and the lamports that a shrinking account gives back fit in the payer's balance.
\<close>

definition returns :: "error + 'a \<Rightarrow> bool" where
  "returns r \<longleftrightarrow> r \<noteq> Inl Panic"

definition bump_found :: "host \<Rightarrow> bool" where
  "bump_found h \<longleftrightarrow> (\<forall>seeds p. find_program_address h seeds p \<noteq> None)"

section \<open>Rules\<close>

named_theorems returns_intros

lemma returns_Inr [returns_intros]: "returns (Inr x)"
  by (simp add: returns_def)

lemma returns_Inl [returns_intros]: "err \<noteq> Panic \<Longrightarrow> returns (Inl err)"
  by (simp add: returns_def)

lemma returns_bind [returns_intros]:
  "\<lbrakk> returns m; \<And>x. m = Inr x \<Longrightarrow> returns (f x) \<rbrakk> \<Longrightarrow> returns (bind_res m f)"
  by (auto simp: returns_def bind_res_eq_Inl)

lemma returns_require [returns_intros]:
  "\<lbrakk> err \<noteq> Panic; c \<Longrightarrow> returns k \<rbrakk> \<Longrightarrow> returns (require c err k)"
  by (auto simp: returns_def require_eq_Inl)

lemma returns_ok_or [returns_intros]: "err \<noteq> Panic \<or> x \<noteq> None \<Longrightarrow> returns (ok_or x err)"
  by (auto simp: returns_def ok_or_eq_Inl)

lemma returns_if [returns_intros]:
  "\<lbrakk> c \<Longrightarrow> returns a; \<not> c \<Longrightarrow> returns b \<rbrakk> \<Longrightarrow> returns (if c then a else b)"
  by simp

lemma returns_case_option [returns_intros]:
  "\<lbrakk> x = None \<Longrightarrow> returns a; \<And>y. x = Some y \<Longrightarrow> returns (f y) \<rbrakk> \<Longrightarrow>
    returns (case x of None \<Rightarrow> a | Some y \<Rightarrow> f y)"
  by (cases x) simp_all

lemma returns_case_prod [returns_intros]:
  "(\<And>a b. x = (a, b) \<Longrightarrow> returns (f a b)) \<Longrightarrow> returns (case x of (a, b) \<Rightarrow> f a b)"
  by (cases x) simp

lemma returns_Let [returns_intros]: "returns (f x) \<Longrightarrow> returns (let y = x in f y)"
  by simp

lemma returns_case_closer [returns_intros]:
  "\<lbrakk> returns a; returns b \<rbrakk> \<Longrightarrow> returns (case c of User \<Rightarrow> a | Financier \<Rightarrow> b)"
  by (cases c) simp_all

section \<open>Accounts and signatures\<close>

lemma returns_check_signer [returns_intros]: "returns (check_signer e k)"
  unfolding check_signer_def by (intro returns_intros) simp

lemma returns_check_swig_pair [returns_intros]: "returns (check_swig_pair h r s w)"
  unfolding check_swig_pair_def by (intro returns_intros) simp_all

lemma returns_has_one_authority [returns_intros]: "returns (has_one_authority v a)"
  unfolding has_one_authority_def by (intro returns_intros) simp

lemma returns_check_session_seeds [returns_intros]: "returns (check_session_seeds h vk c s k)"
  unfolding check_session_seeds_def by (intro returns_intros) simp

lemma returns_load [returns_intros]: "returns (load m k)"
  unfolding load_def by (intro returns_intros) simp

lemma returns_load_token [returns_intros]: "returns (load_token e k)"
  unfolding load_token_def by (intro returns_intros) simp_all

lemma returns_introspect [returns_intros]:
  "err \<noteq> Panic \<Longrightarrow> returns (introspect_precompile prog n err sv pk msg)"
  unfolding returns_def using introspect_precompile_eq_Inl by blast

lemma returns_verify_session_signed [returns_intros]: "returns (verify_session_signed sv pk msg)"
  unfolding verify_session_signed_def by (intro returns_intros) simp

lemma returns_b64_loop: "returns (b64_loop buf bits out inp)"
  by (induction buf bits out inp rule: b64_loop.induct)
    (auto simp: Let_def intro: returns_intros split: b64_char.split)

lemma returns_extract_challenge [returns_intros]:
  "returns (extract_challenge_from_client_data data)"
proof -
  have "returns (index_range p (scan_to_quote data p) data)"
    if "find_challenge_key data 0 = Some p" for p
  proof -
    from that have "p \<le> length data" by (auto simp: find_challenge_key_eq_Some key_at_def)
    from scan_to_quote_spec [OF this] show ?thesis by (auto simp: returns_def index_range_eq_Inl)
  qed
  then show ?thesis
    unfolding extract_challenge_from_client_data_def base64url_decode_def
    by (intro returns_intros returns_b64_loop) (auto simp: result_simps)
qed

lemma returns_introspect_simd [returns_intros]: "returns (introspect_simd_0075 sv pk msg)"
  unfolding introspect_simd_0075_def by (intro returns_intros) simp_all

lemma returns_verify_passkey [returns_intros]: "returns (verify_passkey_signed h sv pk cdj ad msg)"
  unfolding verify_passkey_signed_def by (intro returns_intros) simp_all

section \<open>Vaults\<close>

lemma returns_initialize_vault [returns_intros]: "bump_found h \<Longrightarrow> returns (initialize_vault h e k p a x args)"
  unfolding initialize_vault_def initialize_vault_handler_def
  by (intro returns_intros) (simp_all add: bump_found_def)

lemma returns_set_swig [returns_intros]: "returns (set_swig h e v args)"
  unfolding set_swig_def by (intro returns_intros) simp_all

lemma returns_rotate_passkey [returns_intros]: "returns (rotate_passkey h e v args)"
  unfolding rotate_passkey_def by (intro returns_intros) simp_all

lemma returns_rotate_authority [returns_intros]: "returns (rotate_dexter_authority e v a n)"
  unfolding rotate_dexter_authority_def by (intro returns_intros) simp_all

lemma returns_prove_passkey [returns_intros]: "returns (prove_passkey h e v args)"
  unfolding prove_passkey_def by (intro returns_intros) simp_all

text \<open>\<open>abs\<close> panics on the least integer only, which a clock at or after the epoch does not give.\<close>

lemma returns_abs_i64:
  assumes "0 \<le> sint n"
  shows "returns (abs_i64 (case checked_sub_i64 n t of None \<Rightarrow> i64_max | Some d \<Rightarrow> d))"
proof -
  have "d \<noteq> i64_min" if "checked_sub_i64 n t = Some d" for d
  proof
    assume "d = i64_min"
    with that have "sint n - sint t = sint i64_min"
      using sint_minus_fits [of n t] by (auto simp: checked_sub_i64_def split: if_splits)
    moreover have "sint i64_min = - (2 ^ 63)" by (simp add: i64_min_def)
    moreover have "sint t < 2 ^ 63" using sint_lt [of t] by simp
    ultimately show False using assms by simp
  qed
  moreover have "i64_max \<noteq> i64_min" by (simp add: i64_max_def i64_min_def)
  ultimately show ?thesis by (auto simp: returns_def abs_i64_def split: option.split)
qed

lemma clock_before_epoch_panics: "abs_i64 (case checked_sub_i64 (- 1) i64_max of None \<Rightarrow> i64_max
    | Some d \<Rightarrow> d) = Inl Panic"
  by (simp add: abs_i64_def checked_sub_i64_def i64_fits_def i64_max_def i64_min_def)

lemma returns_request_withdrawal [returns_intros]: "0 \<le> sint (now e) \<Longrightarrow> returns (request_withdrawal h e v args)"
  unfolding request_withdrawal_def by (intro returns_intros returns_abs_i64) simp_all

lemma returns_finalize_withdrawal [returns_intros]: "returns (finalize_withdrawal h e v accs args)"
  unfolding finalize_withdrawal_def finalize_withdrawal_handler_def by (intro returns_intros) simp_all

lemma returns_force_release [returns_intros]: "returns (force_release h e v args)"
  unfolding force_release_def by (intro returns_intros) (simp_all add: checked_sub_one)

section \<open>Sessions, vouchers and claims\<close>

lemma returns_visit_sibling [returns_intros]: "returns (visit_sibling h n vk sk prev s g)"
  unfolding visit_sibling_def by (intro returns_intros) simp_all

lemma returns_visit_siblings [returns_intros]: "returns (visit_siblings h n vk sk prev ss g)"
  by (induction h n vk sk prev ss g rule: visit_siblings.induct) (auto intro: returns_intros)

lemma returns_overcommit_gate [returns_intros]: "returns (overcommit_gate h n v vk bal sk new ss m)"
  unfolding overcommit_gate_def by (intro returns_intros) simp_all

lemma returns_write_registration [returns_intros]: "returns (write_registration v vk s b n args)"
  unfolding write_registration_def by (intro returns_intros) simp_all

lemma returns_register [returns_intros]: "bump_found h \<Longrightarrow> returns (register_session_key h e v s ss accs args)"
  unfolding register_session_key_def register_session_key_handler_def
  by (intro returns_intros) (simp_all add: bump_found_def)

lemma returns_revoke [returns_intros]: "returns (revoke_session_key h e v vk s sk args)"
  unfolding revoke_session_key_def revoke_session_key_handler_def by (intro returns_intros) simp_all

lemma returns_close_session [returns_intros]: "returns (close_session h e v vk s sk a c)"
  unfolding close_session_def by (intro returns_intros) simp_all

lemma returns_settle_voucher [returns_intros]: "returns (settle_voucher h e v vk s a args)"
  unfolding settle_voucher_def settle_voucher_handler_def
  by (intro returns_intros) (simp_all add: checked_sub_one)

lemma returns_settle_tab [returns_intros]: "returns (settle_tab_voucher h e v s accs args)"
  unfolding settle_tab_voucher_def settle_tab_voucher_handler_def by (intro returns_intros) simp_all

lemma returns_lock [returns_intros]: "bump_found h \<Longrightarrow> returns (lock_voucher h e v s c accs args)"
  unfolding lock_voucher_def lock_voucher_handler_def
  by (intro returns_intros) (simp_all add: bump_found_def)

lemma returns_settle_locked [returns_intros]: "returns (settle_locked_voucher h e v c accs)"
  unfolding settle_locked_voucher_def settle_locked_handler_def by (intro returns_intros) simp_all

lemma returns_recover [returns_intros]: "returns (recover_abandoned_lock h e v vk c ck args)"
  unfolding recover_abandoned_lock_def recover_abandoned_handler_def by (intro returns_intros) simp_all

lemma returns_transfer_lock [returns_intros]: "returns (transfer_lock_ownership e c a b)"
  unfolding transfer_lock_ownership_def by (intro returns_intros) simp_all

section \<open>Credit\<close>

lemma returns_set_reserve [returns_intros]: "bump_found h \<Longrightarrow> returns (set_standby_reserve h e x accs r)"
  unfolding set_standby_reserve_def set_standby_reserve_handler_def
  by (intro returns_intros) (simp_all add: bump_found_def)

lemma returns_check_standby_seeds [returns_intros]: "returns (check_standby_seeds h f sb k)"
  unfolding check_standby_seeds_def by (intro returns_intros) simp_all

lemma returns_check_authority [returns_intros]: "returns (check_authority v a)"
  unfolding check_authority_def by (intro returns_intros) simp_all

lemma returns_check_user_swig [returns_intros]: "returns (check_user_swig h e v accs)"
  unfolding check_user_swig_def by (intro returns_intros)

lemma returns_open_standby [returns_intros]: "returns (open_standby h e v vk f sb k args)"
  unfolding open_standby_def open_standby_handler_def by (intro returns_intros) simp_all

lemma returns_close_core [returns_intros]: "returns (close_standby_core v sb)"
  unfolding close_standby_core_def by (intro returns_intros) simp_all

lemma returns_close_standby [returns_intros]: "returns (close_standby h e v sb accs args)"
  unfolding close_standby_def close_standby_handler_def by (intro returns_intros) simp_all

lemma returns_draw [returns_intros]: "returns (draw_credit h e v accs args)"
  unfolding draw_credit_def draw_credit_handler_def by (intro returns_intros) simp_all

lemma returns_repay [returns_intros]: "returns (repay_credit h e v accs n)"
  unfolding repay_credit_def repay_credit_handler_def by (intro returns_intros) simp_all

lemma returns_seize [returns_intros]: "returns (seize_collateral h e v accs)"
  unfolding seize_collateral_def seize_collateral_handler_def by (intro returns_intros) simp_all

section \<open>The calls to the Swig program\<close>

lemma returns_write_action:
  assumes "length buf + action_len ss + body_len ss a < 2 ^ 32"
  shows "returns (write_action ss a buf)"
proof -
  have offset: "checked_add (word_of_nat (length buf) :: u32) (word_of_nat (action_len ss)) =
      Some (word_of_nat (length buf + action_len ss))"
    using assms by (simp add: checked_add_def unat_of_nat take_bit_nat_eq_self)
  have boundary: "checked_add (word_of_nat (length buf + action_len ss) :: u32)
      (word_of_nat (body_len ss a)) \<noteq> None"
    using assms by (simp add: checked_add_def unat_of_nat take_bit_nat_eq_self del: of_nat_add)
  show ?thesis
    unfolding write_action_def Let_def offset ok_or_Some bind_res_Inr
    by (intro returns_intros) (use boundary in simp_all)
qed

lemma returns_write_actions:
  assumes "small_layout ss" and "length buf + length as * 2 ^ 16 < 2 ^ 32"
  shows "returns (write_actions ss as buf)"
  using assms(2)
proof (induction as arbitrary: buf)
  case Nil
  then show ?case by (simp add: returns_Inr)
next
  case (Cons a as)
  from assms(1) have lay: "swig_layout ss" and small: "action_len ss + body_len ss a < 2 ^ 16"
    by (auto simp: small_layout_def)
  have "returns (write_action ss a buf)"
    using Cons.prems small by (intro returns_write_action) simp
  moreover have "returns (write_actions ss as out)" if "write_action ss a buf = Inr out" for out
    using Cons.prems small write_action_length [OF lay that] by (intro Cons.IH) simp
  ultimately show ?case by (auto intro: returns_intros)
qed

lemma returns_set_swig_atomic [returns_intros]:
  assumes "small_layout ss"
  shows "returns (set_swig_atomic h ss cpi e v accs args)"
  unfolding set_swig_atomic_def set_swig_atomic_handler_def add_settle_tab_role_def bind_swig_address_def build_create_v1_data_def
    build_add_authority_data_def invoke_cpi_def
  by (intro returns_intros returns_write_actions assms) simp_all

section \<open>Readers and raw accounts\<close>

lemma returns_read_bytes [returns_intros]: "returns (read_bytes n bs)"
  unfolding read_bytes_def by (intro returns_intros) simp

lemma returns_read_words [returns_intros]:
  "returns (read_u8 bs)" "returns (read_u32 bs)" "returns (read_u64 bs)" "returns (read_array bs)"
  unfolding read_u8_def read_u32_def read_u64_def read_word_def read_array_def
  by (intro returns_intros)+

lemma returns_read_option [returns_intros]:
  "(\<And>r. returns (rd r)) \<Longrightarrow> returns (read_option rd bs)"
  unfolding read_option_def by (intro returns_intros) simp_all

lemma returns_read_pending [returns_intros]: "returns (read_pending_withdrawal bs)"
  unfolding read_pending_withdrawal_def by (intro returns_intros)

lemma returns_read_registrations [returns_intros]:
  "returns (read_session_registration bs)" "returns (read_session_registration_v3 bs)"
  unfolding read_session_registration_def read_session_registration_v3_def
  by (intro returns_intros)+

lemma returns_read_vaults [returns_intros]:
  "returns (read_vault_v3 bs)" "returns (read_vault_v4 bs)" "returns (read_vault_v5 bs)"
  unfolding read_vault_v3_def read_vault_v4_def read_vault_v5_def by (intro returns_intros)+

lemma returns_read_recorded [returns_intros]: "returns (read_recorded_authority bs)"
  unfolding read_recorded_authority_def by (intro returns_intros)

lemma returns_decode_legacy [returns_intros]: "returns (decode_legacy_vault data)"
  unfolding decode_legacy_vault_def read_legacy_authority_def by (intro returns_intros) simp_all

lemma returns_check_migration [returns_intros]:
  "returns (check_migration_accounts e acc a p)" "returns (check_vault_bytes v data)"
  unfolding check_migration_accounts_def check_vault_bytes_def
  by ((intro returns_intros; simp)+)

lemma returns_write_image [returns_intros]: "returns (write_image out acc)"
  unfolding write_image_def by (intro returns_intros) simp

section \<open>Migrations\<close>

text \<open>The System program's transfer fails with an error of its own, and the lamports that a shrinking
  account gives back fit in the payer's balance (the supply of lamports is below \<open>2 ^ 64\<close>).\<close>

definition transfer_returns :: "transfer \<Rightarrow> bool" where
  "transfer_returns tr \<longleftrightarrow> (\<forall>n a b. tr n a b \<noteq> Inl Panic)"

definition refund_fits :: "raw_account \<Rightarrow> u64 \<Rightarrow> bool" where
  "refund_fits acc payer \<longleftrightarrow> unat (ac_lamports acc) + unat payer < 2 ^ 64"

lemma returns_top_up [returns_intros]: "transfer_returns tr \<Longrightarrow> returns (top_up h tr n acc p)"
  unfolding top_up_def by (intro returns_intros) (simp add: transfer_returns_def returns_def)

lemma returns_grow [returns_intros]: "transfer_returns tr \<Longrightarrow> returns (grow_account h tr n acc p)"
  unfolding grow_account_def by (intro returns_intros)

lemma returns_refund:
  assumes "refund_fits acc p"
  shows "returns (refund_rent h n acc p)"
proof -
  let ?r = "ac_lamports acc - rent_minimum_balance h n"
  have "unat ?r \<le> unat (ac_lamports acc)" if "rent_minimum_balance h n < ac_lamports acc"
    using that by (simp add: unat_sub word_less_nat_alt word_le_nat_alt)
  then have "checked_sub (ac_lamports acc) ?r \<noteq> None" "checked_add p ?r \<noteq> None"
    if "rent_minimum_balance h n < ac_lamports acc"
    using that assms
    by (fastforce simp: checked_sub_def checked_add_def refund_fits_def word_le_nat_alt)+
  then show ?thesis unfolding refund_rent_def by (intro returns_intros) simp_all
qed

lemma returns_write_padded [returns_intros]: "returns (write_padded n v acc)"
  unfolding write_padded_def by (intro returns_intros) simp

lemma refund_fits_padded:
  assumes "refund_fits acc p" and "write_padded n v acc = Inr a"
  shows "refund_fits (a\<lparr>ac_data := d\<rparr>) p"
  using assms
  by (auto simp: write_padded_def Let_def result_simps write_image_eq_Inr refund_fits_def)

lemma returns_shrink:
  assumes "refund_fits acc p"
  shows "returns (shrink_to_v6 h v acc p)"
  unfolding shrink_to_v6_def
  by (intro returns_intros returns_refund refund_fits_padded [OF assms])

lemma returns_migrations [returns_intros]:
  "transfer_returns tr \<Longrightarrow> returns (migrate_v2_to_v3 h tr e acc a k p)"
  "transfer_returns tr \<Longrightarrow> returns (migrate_v3_to_v4 h tr e acc a k p)"
  "transfer_returns tr \<Longrightarrow> returns (migrate_v4_to_v5 h tr e acc a k p)"
  "transfer_returns tr \<Longrightarrow> returns (migrate_legacy_to_v6 h tr e acc a k p)"
  unfolding migrate_v2_to_v3_def migrate_v3_to_v4_def migrate_v4_to_v5_def
    migrate_legacy_to_v6_def encode_v6_image_def
  by ((intro returns_intros; simp)+)

lemma returns_shrinking:
  assumes "refund_fits acc p"
  shows "returns (migrate_v5_to_v6 h e acc a k p)"
    and "bump_found h \<Longrightarrow> returns (migrate_v5_to_v6_with_session h e vk acc a sk x cp k p)"
  unfolding migrate_v5_to_v6_def migrate_v5_to_v6_with_session_def
  by ((intro returns_intros returns_shrink assms; simp add: bump_found_def)+)

section \<open>Every entry point\<close>

lemma returns_on_vault [returns_intros]:
  "(\<And>v. returns (run v)) \<Longrightarrow> returns (on_vault l k run)"
  unfolding on_vault_def by (intro returns_intros) simp

lemma returns_exec [returns_intros]:
  assumes "bump_found h" and "small_layout (swig_lib sw)" and "0 \<le> sint (now e)"
  shows "returns (exec h sw e ix l)"
  by (cases "(h, sw, e, ix, l)" rule: exec.cases)
    (simp_all, (intro returns_intros assms; simp)+)

lemma returns_run_current:
  assumes "bump_found h" and "small_layout (swig_lib sw)" and "0 \<le> sint (now e)"
  shows "returns (run_current h sw e ix c)"
  unfolding run_current_def store_vault_def anchor_store_def
  by (intro returns_intros assms) simp

text \<open>The vault and the payer of a migration that gives rent back.\<close>

fun refunds :: "program_instruction \<Rightarrow> (pubkey \<times> u64) option" where
  "refunds (MigrateV5ToV6 k authority pk payer) = Some (k, payer)"
| "refunds (MigrateV5ToV6WithSession k authority sk counterparty pk payer) = Some (k, payer)"
| "refunds ix = None"

definition refunds_fit :: "chain \<Rightarrow> program_instruction \<Rightarrow> bool" where
  "refunds_fit c ix \<longleftrightarrow>
     (\<forall>k payer a. refunds ix = Some (k, payer) \<longrightarrow> ch_vaults c k = Some a \<longrightarrow> refund_fits a payer)"

lemma returns_on_account:
  assumes "\<And>a. ch_vaults c k = Some a \<Longrightarrow> returns (run a)"
  shows "returns (on_account k run c)"
  unfolding on_account_def by (intro returns_intros) (auto simp: result_simps intro: assms)

lemma returns_dispatch:
  assumes "bump_found h" and "small_layout (swig_lib sw)" and "0 \<le> sint (now e)"
    and "transfer_returns tr" and "refunds_fit c ix"
  shows "returns (dispatch h tr sw e ix c)"
proof (cases ix)
  case (Current i)
  then show ?thesis using returns_run_current [OF assms(1-3)] by simp
next
  case (MigrateV5ToV6 k a pk p)
  with assms(5) show ?thesis
    by (auto simp: refunds_fit_def intro!: returns_on_account returns_shrinking)
next
  case (MigrateV5ToV6WithSession k a sk cp pk p)
  with assms(5) have fits: "refund_fits x p" if "ch_vaults c k = Some x" for x
    using that by (simp add: refunds_fit_def)
  show ?thesis
    unfolding MigrateV5ToV6WithSession dispatch.simps
    by (intro returns_intros returns_shrinking(2) assms(1)) (auto simp: result_simps intro: fits)
qed (use assms(4) in \<open>auto intro!: returns_on_account returns_migrations\<close>)

end
