(* ===== verification/Account_Properties.thy ===== *)
theory Account_Properties
  imports Sample_Runs Panic_Freedom
begin

text \<open>Properties of the withdrawal, credit and swig instructions, one by one.\<close>

section \<open>Withdrawals\<close>

text \<open>C24: a withdrawal is finalized exactly when one is pending, the wallet's token account holds the
  amount on top of the reservation and the loan, no voucher is pending, the cooling-off has elapsed
  since the signed request (compared over the integers, so no width can wrap), and the passkey signed
  this amount and destination; the request is then gone.\<close>

theorem finalize_withdrawal_iff:
  "exec h sw e (FinalizeWithdrawal k accs args) l = Inr l' \<longleftrightarrow>
     (\<exists>v p ata. vaults l k = Some v \<and> pending_withdrawal v = Some p \<and>
        tokens e (fw_usdc_ata accs) = Some ata \<and> ta_owner ata = fw_swig_wallet accs \<and>
        fw_swig accs = swig_address v \<and>
        seeds_canonical h (swig_wallet_seeds (swig_address v)) SWIG_PROGRAM_ID (fw_swig_wallet accs) \<and>
        swig_address v \<noteq> 0 \<and> any_supported_version (version v) \<and>
        (cooling_off_seconds v = 0 \<or>
           sint (pw_requested_at p) + uint (cooling_off_seconds v) \<le> sint (now e)) \<and>
        pending_voucher_count v = 0 \<and>
        unat (pw_amount p) + unat (outstanding_locked_amount v) + unat (borrowed v)
          \<le> unat (ta_amount ata) \<and>
        passkey_authorized h (sysvar e) (passkey_pubkey v) (fw_client_data_json args)
          (fw_authenticator_data args)
          (finalize_withdrawal_message (pw_amount p) (pw_destination p)) \<and>
        l' = put_vault l k (v\<lparr>pending_withdrawal := None\<rparr>))"
  by (auto simp: result_simps finalize_withdrawal_eq_Inr withdrawal_gate_def)

text \<open>C25: a withdrawal is requested exactly with a ceremony whose signed time is within 300 seconds of
  the clock, in either direction and at any distance the two 64-bit times can have; the request is
  dated with the signed time and replaces an earlier one.\<close>

theorem request_withdrawal_iff:
  "exec h sw e (RequestWithdrawal k args) l = Inr l' \<longleftrightarrow>
     (\<exists>v. vaults l k = Some v \<and> any_supported_version (version v) \<and>
        \<bar>sint (now e) - sint (rw_signed_at args)\<bar> \<le> 300 \<and>
        passkey_authorized h (sysvar e) (passkey_pubkey v) (rw_client_data_json args)
          (rw_authenticator_data args) (op_message
            (OpRequestWithdrawal (rw_amount args) (rw_destination args) (rw_signed_at args))) \<and>
        l' = put_vault l k (v\<lparr>pending_withdrawal := Some \<lparr> pw_amount = rw_amount args,
          pw_destination = rw_destination args, pw_requested_at = rw_signed_at args \<rparr>\<rparr>))"
  by (auto simp: result_simps request_withdrawal_eq_Inr)

section \<open>The swig binding\<close>

text \<open>The stuck vouchers of a vault are released one by one, all with the same ceremony.\<close>

lemma release_all:
  assumes "vaults l k = Some v" and "any_supported_version (version v)"
    and "pending_withdrawal v = Some p" and "sint (pw_requested_at p) + 604800 \<le> sint (now e)"
    and "passkey_authorized h (sysvar e) (passkey_pubkey v) (fr_client_data_json fr)
      (fr_authenticator_data fr) (force_release_message (swig_address v))"
  shows "n = unat (pending_voucher_count v) \<Longrightarrow> exec_all h sw (replicate n (e, ForceRelease k fr)) l =
    Inr (put_vault l k (v\<lparr>pending_voucher_count := 0\<rparr>))"
  using assms
proof (induction n arbitrary: l v)
  case 0
  then have "v\<lparr>pending_voucher_count := 0\<rparr> = v" by (simp add: unat_eq_0 [symmetric])
  with "0.prems"(2) show ?case by (simp add: put_vault_def map_upd_triv)
next
  case (Suc n)
  define v1 where "v1 = v\<lparr>pending_voucher_count := pending_voucher_count v - 1\<rparr>"
  from Suc.prems(1) have pos: "0 < pending_voucher_count v" by (simp add: word_less_nat_alt)
  then have "n = unat (pending_voucher_count v1)"
    using Suc.prems(1) by (simp add: v1_def unat_sub word_le_nat_alt word_less_nat_alt)
  then have "exec_all h sw (replicate n (e, ForceRelease k fr)) (put_vault l k v1) =
      Inr (put_vault (put_vault l k v1) k (v1\<lparr>pending_voucher_count := 0\<rparr>))"
    by (rule Suc.IH) (use Suc.prems in \<open>simp_all add: v1_def put_vault_def\<close>)
  moreover have "exec h sw e (ForceRelease k fr) l = Inr (put_vault l k v1)"
    using Suc.prems pos by (simp add: result_simps force_release_eq_Inr v1_def)
  ultimately show ?case by (simp add: v1_def put_vault_def del: exec.simps)
qed

text \<open>C14: the buyer gets out alone. From any ledger with a supported vault bound to a swig, ceremonies
  of its passkey are enough, with no other signature: a request, after a week one release for every
  voucher that is still pending, and the withdrawal, of any amount that the claims and the loan of
  the vault leave free.\<close>

theorem buyer_can_exit:
  assumes "vaults l k = Some v" and "any_supported_version (version v)" and "swig_address v \<noteq> 0"
    and "\<bar>sint (now e0) - sint (rw_signed_at rq)\<bar> \<le> 300"
    and "sint (rw_signed_at rq) + 604800 \<le> sint (now e1)"
    and "sint (rw_signed_at rq) + uint (cooling_off_seconds v) \<le> sint (now e2)"
    and "passkey_authorized h (sysvar e0) (passkey_pubkey v) (rw_client_data_json rq)
      (rw_authenticator_data rq) (op_message
        (OpRequestWithdrawal (rw_amount rq) (rw_destination rq) (rw_signed_at rq)))"
    and "passkey_authorized h (sysvar e1) (passkey_pubkey v) (fr_client_data_json fr)
      (fr_authenticator_data fr) (op_message (OpForceRelease (swig_address v)))"
    and "passkey_authorized h (sysvar e2) (passkey_pubkey v) (fw_client_data_json args)
      (fw_authenticator_data args) (op_message
        (OpFinalizeWithdrawal (rw_amount rq) (rw_destination rq)))"
    and "tokens e2 (fw_usdc_ata accs) = Some ata" and "ta_owner ata = fw_swig_wallet accs"
    and "unat (rw_amount rq) + unat (outstanding_locked_amount v) + unat (borrowed v)
      \<le> unat (ta_amount ata)"
    and "fw_swig accs = swig_address v"
    and "seeds_canonical h (swig_wallet_seeds (swig_address v)) SWIG_PROGRAM_ID (fw_swig_wallet accs)"
  shows "exec_all h sw ([(e0, RequestWithdrawal k rq)] @
      replicate (unat (pending_voucher_count v)) (e1, ForceRelease k fr) @
      [(e2, FinalizeWithdrawal k accs args)]) l =
    Inr (put_vault l k (v\<lparr>pending_voucher_count := 0, pending_withdrawal := None\<rparr>))"
proof -
  define p where "p = \<lparr> pw_amount = rw_amount rq, pw_destination = rw_destination rq,
    pw_requested_at = rw_signed_at rq \<rparr>"
  define v1 where "v1 = v\<lparr>pending_withdrawal := Some p\<rparr>"
  have "exec h sw e0 (RequestWithdrawal k rq) l = Inr (put_vault l k v1)"
    using assms(1,2,4,7) by (simp add: result_simps request_withdrawal_eq_Inr v1_def p_def)
  moreover have "exec_all h sw (replicate (unat (pending_voucher_count v)) (e1, ForceRelease k fr))
      (put_vault l k v1) = Inr (put_vault (put_vault l k v1) k (v1\<lparr>pending_voucher_count := 0\<rparr>))"
    by (rule release_all [where p = p])
      (use assms(2,5,8) in \<open>simp_all add: v1_def p_def put_vault_def\<close>)
  moreover have "exec h sw e2 (FinalizeWithdrawal k accs args)
      (put_vault (put_vault l k v1) k (v1\<lparr>pending_voucher_count := 0\<rparr>)) =
    Inr (put_vault l k (v\<lparr>pending_voucher_count := 0, pending_withdrawal := None\<rparr>))"
    using assms(2,3,6,9-14)
    by (simp add: result_simps finalize_withdrawal_eq_Inr withdrawal_gate_def v1_def p_def put_vault_def)
  ultimately show ?thesis by (simp add: exec_all_append del: exec.simps)
qed

theorem buyer_can_exit_witness:
  "exec_all sample_host sample_swig
     [(passkey_env (OpRequestWithdrawal 300 SELLER 1000) 1000, RequestWithdrawal V request_args),
      (passkey_env (OpForceRelease SWIG) 605800, ForceRelease V release_args),
      (passkey_env (OpForceRelease SWIG) 605800, ForceRelease V release_args),
      (passkey_env (OpFinalizeWithdrawal 300 SELLER) 605801,
       FinalizeWithdrawal V finalize_accs finalize_args)]
     (put_vault L4 V (V3\<lparr>pending_voucher_count := 2\<rparr>)) =
   Inr (put_vault (put_vault L4 V (V3\<lparr>pending_voucher_count := 2\<rparr>)) V
     (V3\<lparr>pending_voucher_count := 0, pending_withdrawal := None\<rparr>))"
proof -
  have two: "replicate (unat (pending_voucher_count (V3\<lparr>pending_voucher_count := 2\<rparr>))) x = [x, x]" for x
    by (simp add: replicate_2)
  show ?thesis
    using buyer_can_exit [of "put_vault L4 V (V3\<lparr>pending_voucher_count := 2\<rparr>)" V
        "V3\<lparr>pending_voucher_count := 2\<rparr>" "passkey_env (OpRequestWithdrawal 300 SELLER 1000) 1000"
        request_args "passkey_env (OpForceRelease SWIG) 605800"
        "passkey_env (OpFinalizeWithdrawal 300 SELLER) 605801" sample_host release_args finalize_args
        finalize_accs BALANCE sample_swig]
    unfolding two
    by (simp add: request_args_def release_args_def finalize_args_def finalize_accs_def put_vault_def
        del: exec.simps exec_all.simps op_message.simps)
qed

text \<open>C26: a bound swig stays bound: along any run the vault keeps its swig, its identity and its layout
  version, and every later \<open>set_swig\<close> fails, with the verification error on a supported vault.\<close>

theorem swig_binding_permanent:
  assumes "(ledger_step h sw allowed)\<^sup>*\<^sup>* l l'" and "vaults l k = Some v" and "swig_address v \<noteq> 0"
  shows "\<exists>v'. vaults l' k = Some v' \<and> swig_address v' = swig_address v \<and>
    identity_claim v' = identity_claim v \<and> version v' = version v \<and>
    exec h sw e (SetSwig k args) l' = Inl (VaultError
      (if any_supported_version (version v) then PasskeyVerificationFailed
       else UnsupportedVaultVersion))"
proof -
  obtain v' where v': "vaults l' k = Some v'" "swig_address v' = swig_address v"
    "identity_claim v' = identity_claim v" "version v' = version v"
    using steps_binding [OF assms] by blast
  have "set_swig h e v' args = Inl (VaultError
      (if any_supported_version (version v) then PasskeyVerificationFailed
       else UnsupportedVaultVersion))"
    using v' assms(3) by (simp add: set_swig_def)
  then have "exec h sw e (SetSwig k args) l' = Inl (VaultError
      (if any_supported_version (version v) then PasskeyVerificationFailed
       else UnsupportedVaultVersion))"
    using v'(1) by (simp only: exec.simps on_vault_def load_def ok_or_Some bind_res_Inr bind_res_Inl)
  with v' show ?thesis by blast
qed

theorem swig_binding_permanent_witness:
  "exec sample_host sample_swig (passkey_env (OpSetSwig FIN) 1000) (SetSwig V swig_args) L11
     = Inl (VaultError PasskeyVerificationFailed)"
proof -
  have "ledger_step sample_host sample_swig (\<lambda>_. True) L4 L11"
    by (rule ledger_step.intros [OF _ sample_settle_claim]) simp
  then show ?thesis
    using swig_binding_permanent [OF r_into_rtranclp, of sample_host sample_swig "\<lambda>_. True" L4 L11 V V3
      "passkey_env (OpSetSwig FIN) 1000" swig_args]
    by (auto simp del: exec.simps)
qed

section \<open>Credit\<close>

text \<open>C27: credit is drawn exactly with the authority's signature, against the backer of the vault and
  within the standby cap (no wrap-around); the first draw fixes the deadline, later ones keep it, and
  a deadline past the end of time makes the draw fail.\<close>

theorem draw_credit_iff:
  "exec h sw e (DrawCredit k accs args) l = Inr l' \<longleftrightarrow>
     (\<exists>v d. vaults l k = Some v \<and> dc_dexter_authority accs \<in> set (signers e) \<and>
        dc_dexter_authority accs = dexter_authority v \<and>
        seeds_canonical h (swig_wallet_seeds (dc_financier_swig accs)) SWIG_PROGRAM_ID
          (dc_financier_swig_wallet accs) \<and>
        credit_version (version v) \<and> standby_backer v = Some (dc_financier_swig accs) \<and>
        unat (borrowed v) + unat (dc_amount args) \<le> unat (standby_cap v) \<and>
        (case borrow_recovery_at v of
           Some t \<Rightarrow> d = t
         | None \<Rightarrow> sint d = sint (now e) + sint (dc_recovery_window_seconds args)) \<and>
        l' = put_vault l k
          (v\<lparr>borrowed := borrowed v + dc_amount args, borrow_recovery_at := Some d\<rparr>))"
proof -
  have deadline: "deadline_after e v args = Some d \<longleftrightarrow>
      (case borrow_recovery_at v of Some t \<Rightarrow> d = t
       | None \<Rightarrow> sint d = sint (now e) + sint (dc_recovery_window_seconds args))" for v d
    by (auto simp: deadline_after_def checked_add_i64_eq_Some split: option.splits)
  have "deadline_after e v args \<noteq> None \<and>
      v' = v\<lparr>borrowed := b, borrow_recovery_at := deadline_after e v args\<rparr> \<longleftrightarrow>
      (\<exists>d. deadline_after e v args = Some d \<and>
        v' = v\<lparr>borrowed := b, borrow_recovery_at := Some d\<rparr>)" for v v' b
    by (cases "deadline_after e v args") auto
  then show ?thesis unfolding deadline [symmetric]
    by (simp add: bind_res_eq_Inr on_vault_eq_Inr draw_credit_eq_Inr draw_credit_handler_eq_Inr) blast
qed

lemma seize_collateral_iff:
  "exec h sw e (SeizeCollateral k accs) l = Inr l' \<longleftrightarrow>
     (\<exists>v d. vaults l k = Some v \<and> us_dexter_authority accs \<in> set (signers e) \<and>
        us_dexter_authority accs = dexter_authority v \<and> us_swig accs = swig_address v \<and>
        seeds_canonical h (swig_wallet_seeds (us_swig accs)) SWIG_PROGRAM_ID (us_swig_wallet accs) \<and>
        credit_version (version v) \<and> 0 < borrowed v \<and> borrow_recovery_at v = Some d \<and>
        sint d \<le> sint (now e) \<and>
        l' = put_vault l k (v\<lparr>borrowed := 0, borrow_recovery_at := None\<rparr>))"
  by (auto simp: result_simps seize_collateral_eq_Inr)

lemma draw_arms:
  assumes "exec h sw e (DrawCredit k accs args) l = Inr l'" and "vaults l k = Some v"
    and "borrow_recovery_at v = None"
  shows "\<exists>v' d. vaults l' k = Some v' \<and> borrow_recovery_at v' = Some d \<and>
    unat (borrowed v') = unat (borrowed v) + unat (dc_amount args) \<and>
    sint d = sint (now e) + sint (dc_recovery_window_seconds args)"
  using assms unat_less_2p [of "standby_cap v"]
  by (auto simp: result_simps draw_credit_eq_Inr draw_credit_handler_eq_Inr deadline_after_def
      checked_add_i64_eq_Some put_vault_def unat_word_ariths)

text \<open>C28: the borrower has the whole window of the first draw. Whatever runs in between, other draws
  included, a loan that was not repaid in the meantime is seized at the earliest when the recovery
  window of its first draw is over, by the authority the vault then has; the seizure takes all that
  was drawn since, and the vault owes nothing any more and keeps its standby.\<close>

theorem no_early_seizure:
  assumes "exec h sw e0 (DrawCredit k accs args) l0 = Inr l1" and "vaults l0 k = Some v0"
    and "borrow_recovery_at v0 = None"
    and "(ledger_step h sw (keeps_loan k))\<^sup>*\<^sup>* l1 l2"
    and "exec h sw e (SeizeCollateral k accs') l2 = Inr l3"
  shows "sint (now e0) + sint (dc_recovery_window_seconds args) \<le> sint (now e) \<and>
    (\<exists>v2 v3. vaults l2 k = Some v2 \<and> vaults l3 k = Some v3 \<and> dexter_authority v2 \<in> set (signers e) \<and>
      unat (borrowed v0) + unat (dc_amount args) \<le> unat (borrowed v2) \<and>
      borrowed v3 = 0 \<and> borrow_recovery_at v3 = None \<and>
      standby_backer v3 = standby_backer v2 \<and> standby_cap v3 = standby_cap v2)"
proof -
  from draw_arms [OF assms(1-3)] obtain v1 d where v1: "vaults l1 k = Some v1"
    "borrow_recovery_at v1 = Some d"
    "unat (borrowed v1) = unat (borrowed v0) + unat (dc_amount args)"
    "sint d = sint (now e0) + sint (dc_recovery_window_seconds args)" by blast
  from steps_loan_held [OF assms(4) v1(1)] obtain v2 where v2: "vaults l2 k = Some v2"
    "loan_held v1 v2" by blast
  from assms(5)[unfolded seize_collateral_iff] v2(1)
  have "borrow_recovery_at v2 \<noteq> None" "dexter_authority v2 \<in> set (signers e)"
    and late: "\<And>t. borrow_recovery_at v2 = Some t \<Longrightarrow> sint t \<le> sint (now e)"
    and l3: "l3 = put_vault l2 k (v2\<lparr>borrowed := 0, borrow_recovery_at := None\<rparr>)" by auto
  with v1 v2 show ?thesis
    by (auto simp: loan_held_def put_vault_def word_le_nat_alt)
qed

theorem no_early_seizure_witness:
  "sint (now (plain_env 1000)) + sint (dc_recovery_window_seconds draw_args) \<le> sint (now (plain_env 2000)) \<and>
    borrowed V4 + 50 \<le> borrowed V5"
proof -
  have "vaults L6 V = Some V4" "borrow_recovery_at V4 = None" "borrowed V4 = 0"
    by (simp_all add: L6_def put_defs V4_def V3_def V2_def V1_def V0_def)
  with no_early_seizure [OF sample_draw this(1,2) rtranclp.rtrancl_refl sample_seize]
  show ?thesis by (auto simp: L7_def put_defs V5_def)
qed

section \<open>Binding a swig in one transaction\<close>

text \<open>C29: with layouts of the Swig crate that have their declared, small lengths, \<open>set_swig_atomic\<close>
  succeeds exactly when the fee payer signed, the vault has no swig, the passkey signed the address, and
  the Swig program accepts four calls in this order: the creation of the swig with the fee payer as its
  Ed25519 authority, and the additions of the \<open>finalize_withdrawal\<close> role, the session role of the master
  key and the \<open>settle_tab_voucher\<close> role. The calls are given byte by byte (\<open>create_wire\<close>,
  \<open>exec_role_wire\<close>, \<open>session_role_wire\<close>): accounts and flags, header, authority payload, actions whose
  headers name the offsets at which they end (\<open>actions_layout\<close>), index of the acting authority.\<close>

theorem set_swig_atomic_effect:
  assumes "small_layout ss"
  shows "set_swig_atomic h ss cpi e v accs args = Inr (v', ixs) \<longleftrightarrow>
     at_fee_payer accs \<in> set (signers e) \<and> at_swig_program accs = SWIG_PROGRAM_ID \<and>
     version v \<in> {2, 3, 4, 5, 6} \<and> swig_address v = 0 \<and>
     passkey_authorized h (sysvar e) (passkey_pubkey v) (at_client_data_json args)
       (at_authenticator_data args) (op_message (OpSetSwig (at_swig_account accs))) \<and>
     (\<exists>create all1 session all2. actions_layout ss 0 [ManageAuthority] create \<and>
        actions_layout ss 0 [All] all1 \<and>
        actions_layout ss 0 [TokenLimit USDC_MAINNET 1000000000, ProgramAll] session \<and>
        actions_layout ss 0 [All] all2 \<and>
        ixs = swig_call [(at_swig_account accs, False, True), (at_fee_payer accs, True, True),
              (at_swig_wallet_address accs, False, True), (SYSTEM_PROGRAM_ID, False, False)]
            (create_wire ss (at_swig_id args) (at_swig_account_bump args)
              (at_swig_wallet_address_bump args) (at_fee_payer accs) create) #
          map (swig_call [(at_swig_account accs, False, True), (at_fee_payer accs, True, True),
              (SYSTEM_PROGRAM_ID, False, False), (at_fee_payer accs, True, False)])
            [exec_role_wire ss [178, 87, 206, 68, 201, 186, 164, 232] all1,
             session_role_wire ss (at_dexter_master_pubkey args) session,
             exec_role_wire ss [173, 22, 98, 31, 110, 129, 59, 161] all2]) \<and>
     (\<forall>i < 4. cpi (take i ixs) (ixs ! i)) \<and> v' = v\<lparr>swig_address := at_swig_account accs\<rparr>"
proof -
  note wires = create_data_wire [OF assms] exec_role_data_wire [OF assms]
    session_role_data_wire [OF assms]
  have marks: "length SWIG_MARKER_FINALIZE_WITHDRAWAL = 8" "length SWIG_MARKER_SETTLE_TAB = 8"
    by (simp_all add: SWIG_MARKER_FINALIZE_WITHDRAWAL_def SWIG_MARKER_SETTLE_TAB_def)
  have calls: "create_ix accs d = swig_call [(at_swig_account accs, False, True),
      (at_fee_payer accs, True, True), (at_swig_wallet_address accs, False, True),
      (SYSTEM_PROGRAM_ID, False, False)] d"
    "add_role_ix accs d = swig_call [(at_swig_account accs, False, True),
      (at_fee_payer accs, True, True), (SYSTEM_PROGRAM_ID, False, False),
      (at_fee_payer accs, True, False)] d" for d
    by (simp_all add: create_ix_def add_role_ix_def swig_call_def meta_def meta_readonly_def)
  have supported: "any_supported_version x \<longleftrightarrow> x \<in> {2, 3, 4, 5, 6}" for x
    by (auto simp: any_supported_version_def)
  show ?thesis
    unfolding set_swig_atomic_eq_Inr role_data_def wires(1,3) wires(2) [OF marks(1)]
      wires(2) [OF marks(2)] calls supported DEFAULT_SPEND_LIMIT_ATOMIC_def op_message.simps list.map
    unfolding SWIG_MARKER_FINALIZE_WITHDRAWAL_def SWIG_MARKER_SETTLE_TAB_def
    by (rule iffI; elim exE conjE; hypsubst; intro conjI exI; (assumption | rule refl)?; blast)
qed

definition atomic_accs :: set_swig_atomic_accounts where
  "atomic_accs = \<lparr> at_fee_payer = AUTH, at_swig_account = SWIG, at_swig_wallet_address = SWIG_WALLET,
     at_swig_program = SWIG_PROGRAM_ID \<rparr>"

definition atomic_args :: set_swig_atomic_args where
  "atomic_args = \<lparr> at_swig_id = fill 7, at_swig_account_bump = 254, at_swig_wallet_address_bump = 253,
     at_dexter_master_pubkey = AUTH, at_client_data_json = client_of (OpSetSwig SWIG),
     at_authenticator_data = AUTHDATA \<rparr>"

lemma sample_small: "small_layout (swig_lib sample_swig)"
  by (auto simp: small_layout_def swig_layout_def sample_swig_def)

lemma sample_actions:
  "\<exists>acts. actions_layout (swig_lib sample_swig) 0 [a] acts"
  "\<exists>acts. actions_layout (swig_lib sample_swig) 0 [a, b] acts"
proof -
  have "\<exists>acts. write_actions (swig_lib sample_swig) [a] [] = Inr acts"
    "\<exists>acts. write_actions (swig_lib sample_swig) [a, b] [] = Inr acts"
    by (simp_all add: sample_swig_def write_action_def checked_add_def)
  then show "\<exists>acts. actions_layout (swig_lib sample_swig) 0 [a] acts"
    "\<exists>acts. actions_layout (swig_lib sample_swig) 0 [a, b] acts"
    using write_actions_eq_Inr [OF sample_small, of "[]" "[a]"]
      write_actions_eq_Inr [OF sample_small, of "[]" "[a, b]"] by auto
qed

theorem set_swig_atomic_effect_witness:
  "\<exists>ixs. set_swig_atomic sample_host (swig_lib sample_swig) (\<lambda>calls ix. length calls < 4)
     (passkey_env (OpSetSwig SWIG) 1000) V0 atomic_accs atomic_args = Inr (V1, ixs) \<and> length ixs = 4"
proof -
  obtain c a s where lay: "actions_layout (swig_lib sample_swig) 0 [ManageAuthority] c"
    "actions_layout (swig_lib sample_swig) 0 [All] a"
    "actions_layout (swig_lib sample_swig) 0 [TokenLimit USDC_MAINNET 1000000000, ProgramAll] s"
    using sample_actions by metis
  show ?thesis
    unfolding set_swig_atomic_effect [OF sample_small]
    by (intro exI conjI, simp_all only: list.map)
      (rule lay refl | simp add: atomic_accs_def atomic_args_def V0_def V1_def
        sample_authorized [of "OpSetSwig SWIG" 1000, simplified])+
qed

text \<open>In the action buffer the program writes, every header names the offset at which its action
  ends, so that a reader that follows the headers finds exactly the actions.\<close>

lemma actions_follow_headers:
  assumes "swig_layout ss" and "write_actions ss as [] = Inr out"
  shows "actions_layout ss 0 as out"
  using write_actions_layout [OF assms] by simp

lemma actions_follow_headers_example:
  "\<exists>out. write_actions (swig_lib sample_swig) [All, ManageAuthority] [] = Inr out \<and>
     actions_layout (swig_lib sample_swig) 0 [All, ManageAuthority] out \<and> length out = 16"
proof -
  have lay: "swig_layout (swig_lib sample_swig)" by (auto simp: swig_layout_def sample_swig_def)
  obtain out where out: "write_actions (swig_lib sample_swig) [All, ManageAuthority] [] = Inr out"
    "length out = 16"
    by (simp add: sample_swig_def write_action_def checked_add_def)
  show ?thesis using actions_follow_headers [OF lay out(1)] out by blast
qed

text \<open>The authority payload of a program-execution role reads back as the program and the marker.\<close>

lemma program_exec_roundtrip:
  assumes "length x \<le> PROGRAM_EXEC_MAX_PREFIX_LEN"
  shows "parse_program_exec (build_program_exec_authority_bytes p x) = (to_list p, x)"
  using assms by (intro parse_program_exec_build) (simp add: PROGRAM_EXEC_MAX_PREFIX_LEN_def)

section \<open>What a token account has to be\<close>

text \<open>The same transaction with every token account of another mint.\<close>

definition remint :: "(pubkey \<Rightarrow> pubkey) \<Rightarrow> tx_env \<Rightarrow> tx_env" where
  "remint m e =
     e\<lparr>tokens := \<lambda>k. map_option (\<lambda>t. t\<lparr>ta_mint := m k\<rparr>) (tokens e k)\<rparr>"

lemma remint_sel [simp]:
  "now (remint m e) = now e" "sysvar (remint m e) = sysvar e" "signers (remint m e) = signers e"
  "tokens (remint m e) k = map_option (\<lambda>t. t\<lparr>ta_mint := m k\<rparr>) (tokens e k)"
  "check_signer (remint m e) k = check_signer e k"
  by (simp_all add: remint_def check_signer_def)

lemma bind_load_token_remint:
  assumes "\<And>t. f (t\<lparr>ta_mint := m k\<rparr>) = f t"
  shows "bind_res (load_token (remint m e) k) f = bind_res (load_token e k) f"
  using assms by (cases "tokens e k") (simp_all add: load_token_def)

lemma finalize_remint [simp]:
  "finalize_withdrawal h (remint m e) v accs args = finalize_withdrawal h e v accs args"
  unfolding finalize_withdrawal_def
  by (subst bind_load_token_remint) (simp_all add: finalize_withdrawal_handler_def)

lemma lock_remint [simp]:
  "lock_voucher h (remint m e) v sa ex accs args = lock_voucher h e v sa ex accs args"
  unfolding lock_voucher_def
  by (subst bind_load_token_remint) (simp_all add: lock_voucher_handler_def)

lemma register_remint [simp]:
  "register_session_key h (remint m e) v ex sibs accs args =
     register_session_key h e v ex sibs accs args"
  unfolding register_session_key_def
  by (subst bind_load_token_remint) (simp_all add: register_session_key_handler_def)

text \<open>The others read no token account.\<close>

lemma admin_remint [simp]:
  "initialize_vault h (remint m e) k p a existing args1 = initialize_vault h e k p a existing args1"
  "set_swig h (remint m e) v args2 = set_swig h e v args2"
  "set_swig_atomic h ss cpi (remint m e) v accs3 args3 = set_swig_atomic h ss cpi e v accs3 args3"
  "rotate_passkey h (remint m e) v args4 = rotate_passkey h e v args4"
  "rotate_dexter_authority (remint m e) v a n = rotate_dexter_authority e v a n"
  "prove_passkey h (remint m e) v args5 = prove_passkey h e v args5"
  "request_withdrawal h (remint m e) v args6 = request_withdrawal h e v args6"
  "force_release h (remint m e) v args7 = force_release h e v args7"
  by (simp_all add: initialize_vault_def set_swig_def set_swig_atomic_def
      set_swig_atomic_handler_def add_settle_tab_role_def bind_swig_address_def rotate_passkey_def rotate_dexter_authority_def
      prove_passkey_def request_withdrawal_def force_release_def)

lemma session_remint [simp]:
  "settle_voucher h (remint m e) v vk s a args1 = settle_voucher h e v vk s a args1"
  "revoke_session_key h (remint m e) v k sa sk args2 = revoke_session_key h e v k sa sk args2"
  "close_session h (remint m e) v k sa sk a cp = close_session h e v k sa sk a cp"
  "settle_tab_voucher h (remint m e) v sa accs3 args3 = settle_tab_voucher h e v sa accs3 args3"
  "settle_locked_voucher h (remint m e) v c accs4 = settle_locked_voucher h e v c accs4"
  "recover_abandoned_lock h (remint m e) v k c ck args5 = recover_abandoned_lock h e v k c ck args5"
  "transfer_lock_ownership (remint m e) c hl n = transfer_lock_ownership e c hl n"
  by (simp_all add: settle_voucher_def revoke_session_key_def revoke_session_key_handler_def
      close_session_def settle_tab_voucher_def settle_tab_voucher_handler_def
      settle_locked_voucher_def settle_locked_handler_def recover_abandoned_lock_def
      recover_abandoned_handler_def transfer_lock_ownership_def cong: option.case_cong)

lemma credit_remint [simp]:
  "set_standby_reserve h (remint m e) ex accs1 r = set_standby_reserve h e ex accs1 r"
  "open_standby h (remint m e) v k f sb bk args2 = open_standby h e v k f sb bk args2"
  "close_standby h (remint m e) v sb accs3 args3 = close_standby h e v sb accs3 args3"
  "draw_credit h (remint m e) v accs4 args4 = draw_credit h e v accs4 args4"
  "repay_credit h (remint m e) v accs5 amount = repay_credit h e v accs5 amount"
  "seize_collateral h (remint m e) v accs6 = seize_collateral h e v accs6"
  by (simp_all add: set_standby_reserve_def open_standby_def open_standby_handler_def
      close_standby_def close_standby_handler_def draw_credit_def draw_credit_handler_def
      check_authority_def repay_credit_def seize_collateral_def seize_collateral_handler_def
      check_user_swig_def cong: option.case_cong closer.case_cong if_cong)

text \<open>C30: none of the thirty entry points panics, on whatever accounts and with whatever arguments: the
  checks before every index, sum, difference and absolute value cover it. Assumed of the outside: the
  search for an address finds one (\<open>bump_found\<close>), the layouts of the Swig crate have their declared,
  small lengths (\<open>small_layout\<close>), a failed transfer is an error (\<open>transfer_returns\<close>), the lamports a
  shrinking account gives back fit in the payer's balance (\<open>refunds_fit\<close>), and the clock is not before
  the epoch (\<open>request_withdrawal\<close> takes the absolute value of a time difference, which overflows
  otherwise, \<open>clock_before_epoch_panics\<close>).\<close>

theorem no_panic:
  assumes "bump_found h" and "small_layout (swig_lib sw)" and "0 \<le> sint (now e)"
    and "transfer_returns tr" and "refunds_fit c ix"
  shows "dispatch h tr sw e ix c \<noteq> Inl Panic \<and> exec h sw e i l \<noteq> Inl Panic"
  using returns_dispatch [OF assms] returns_exec [OF assms(1-3)] by (simp add: returns_def)

definition small_chain :: chain where
  "small_chain = \<lparr> ch_vaults = [V \<mapsto> \<lparr> ac_owner = PROGRAM_ID, ac_data = [], ac_lamports = 5 \<rparr>],
     ch_sessions = Map.empty, ch_claims = Map.empty, ch_backers = Map.empty \<rparr>"

theorem no_panic_witness:
  "dispatch (sample_host\<lparr>find_program_address := \<lambda>seeds p. Some (0, 255)\<rparr>)
     (\<lambda>n a b. Inr (a - n, b + n)) sample_swig (plain_env 1000) (MigrateV5ToV6 V AUTH AUTH 9) small_chain
     \<noteq> Inl Panic"
proof -
  let ?h = "sample_host\<lparr>find_program_address := \<lambda>seeds p. Some (0, 255)\<rparr>"
  have "bump_found ?h" "0 \<le> sint (now (plain_env 1000))"
    by (simp_all add: bump_found_def plain_env_def)
  moreover have "transfer_returns (\<lambda>n a b. Inr (a - n, b + n))" by (simp add: transfer_returns_def)
  moreover have "refunds_fit small_chain (MigrateV5ToV6 V AUTH AUTH 9)"
    by (simp add: refunds_fit_def refund_fits_def small_chain_def)
  ultimately show ?thesis using no_panic [OF _ sample_small] by blast
qed

text \<open>The balance that covers withdrawals, locks and registrations is read from any token account
  the wallet owns: no instruction looks at the mint, so a transaction behaves the same with every
  token account of any other mint.\<close>

lemma mint_unchecked: "exec h sw (remint m e) ix l = exec h sw e ix l"
proof (cases ix)
  case (SettleVoucher k sk a args)
  then show ?thesis by (cases sk) simp_all
qed simp_all

end
