(* ===== verification/Legacy_Fixtures.thy ===== *)
theory Legacy_Fixtures
  imports Migration_Laws Precompile
begin

text \<open>
  The unit tests of \<open>migrate_legacy_to_v6.rs\<close> hold of the model: the two accounts fetched from the
  main network decode to the values the tests expect, their images load in the current program, and
  damaged buffers are rejected. Each test function is a truth value, each \<open>assert\<close> a conjunct.
\<close>

section \<open>The fixtures\<close>

definition nibble :: "char \<Rightarrow> byte" where
  "nibble c = (if of_char c \<le> (57 :: byte) then of_char c - 48 else of_char c - 87)"

fun hx :: "string \<Rightarrow> byte list" where
  "hx (a # b # s) = (16 * nibble a + nibble b) # hx s"
| "hx _ = []"

definition FIX_183_HEX :: string where
  "FIX_183_HEX =
    ''d308e82b02987577fe03691f8c899a761203f31174ec1f789b9393fe8177cdd38a1f4b4d297cef53'' @
    ''bf409587284f51c1d68e96dbff735af6835728109830e4413777aeeb5e8ac8fc4cfd000000000000'' @
    ''0000000000000077d8550d7f3153eb775ecc9c3f77eb012440065752b79ff81d90468e52b49d5d48'' @
    ''bb31a5002088d18ad294dfec9296cb00000000000000000000000000000000000000000000000000'' @
    ''0000000000000000000000000000000000000000000000''"

definition FIX_151_HEX :: string where
  "FIX_151_HEX =
    ''d308e82b02987577fc03dc00f401612078a47793185c1ad873b6b42a1050c407f43d806611b71aa0'' @
    ''46920000000000000000000000000000000000000000000000000000000000000000805101000000'' @
    ''00000000000000cc49ff61fb72ac2c3c2e974ad1dab60e0000000000000000000000000000000000'' @
    ''00000000000000000000000000000000000000000000000000000000000000''"

definition FIX_183_SWIG :: string where
  "FIX_183_SWIG = ''B4hHHypBQ7LuEXSdT3e9sWGGbbywcGSocju1C8VD3NFE''"
definition FIX_183_AUTHORITY :: string where
  "FIX_183_AUTHORITY = ''3SWJTQ4FBDveFQGQbqd8pxyBxa2PKqkega4QzxgPMWMG''"
definition FIX_183_PASSKEY_HEX :: string where
  "FIX_183_PASSKEY_HEX = ''03691f8c899a761203f31174ec1f789b9393fe8177cdd38a1f4b4d297cef53bf40''"
definition FIX_183_UUID_HEX :: string where
  "FIX_183_UUID_HEX = ''77d8550d7f3153eb775ecc9c3f77eb01''"
definition FIX_151_PASSKEY_HEX :: string where
  "FIX_151_PASSKEY_HEX = ''03dc00f401612078a47793185c1ad873b6b42a1050c407f43d806611b71aa04692''"
definition FIX_151_UUID_HEX :: string where
  "FIX_151_UUID_HEX = ''cc49ff61fb72ac2c3c2e974ad1dab60e''"

text \<open>The same as bytes, and what they decode to.\<close>

definition FIX_183 :: "byte list" where
  "FIX_183 =
    [0xd3, 0x08, 0xe8, 0x2b, 0x02, 0x98, 0x75, 0x77, 0xfe, 0x03, 0x69, 0x1f, 0x8c, 0x89,
     0x9a, 0x76, 0x12, 0x03, 0xf3, 0x11, 0x74, 0xec, 0x1f, 0x78, 0x9b, 0x93, 0x93, 0xfe,
     0x81, 0x77, 0xcd, 0xd3, 0x8a, 0x1f, 0x4b, 0x4d, 0x29, 0x7c, 0xef, 0x53, 0xbf, 0x40,
     0x95, 0x87, 0x28, 0x4f, 0x51, 0xc1, 0xd6, 0x8e, 0x96, 0xdb, 0xff, 0x73, 0x5a, 0xf6,
     0x83, 0x57, 0x28, 0x10, 0x98, 0x30, 0xe4, 0x41, 0x37, 0x77, 0xae, 0xeb, 0x5e, 0x8a,
     0xc8, 0xfc, 0x4c, 0xfd, 0x00, 0x00, 0x00, 0x00, 0x00, 0x00, 0x00, 0x00, 0x00, 0x00,
     0x00, 0x00, 0x00, 0x77, 0xd8, 0x55, 0x0d, 0x7f, 0x31, 0x53, 0xeb, 0x77, 0x5e, 0xcc,
     0x9c, 0x3f, 0x77, 0xeb, 0x01, 0x24, 0x40, 0x06, 0x57, 0x52, 0xb7, 0x9f, 0xf8, 0x1d,
     0x90, 0x46, 0x8e, 0x52, 0xb4, 0x9d, 0x5d, 0x48, 0xbb, 0x31, 0xa5, 0x00, 0x20, 0x88,
     0xd1, 0x8a, 0xd2, 0x94, 0xdf, 0xec, 0x92, 0x96, 0xcb, 0x00, 0x00, 0x00, 0x00, 0x00,
     0x00, 0x00, 0x00, 0x00, 0x00, 0x00, 0x00, 0x00, 0x00, 0x00, 0x00, 0x00, 0x00, 0x00,
     0x00, 0x00, 0x00, 0x00, 0x00, 0x00, 0x00, 0x00, 0x00, 0x00, 0x00, 0x00, 0x00, 0x00,
     0x00, 0x00, 0x00, 0x00, 0x00, 0x00, 0x00, 0x00, 0x00, 0x00, 0x00, 0x00, 0x00, 0x00,
     0x00]"

definition FIX_183_DECODED :: legacy_vault where
  "FIX_183_DECODED = \<lparr> lg_bump = 254,
     lg_passkey_pubkey = arr
      [0x03, 0x69, 0x1f, 0x8c, 0x89, 0x9a, 0x76, 0x12, 0x03, 0xf3, 0x11, 0x74, 0xec, 0x1f,
       0x78, 0x9b, 0x93, 0x93, 0xfe, 0x81, 0x77, 0xcd, 0xd3, 0x8a, 0x1f, 0x4b, 0x4d, 0x29,
       0x7c, 0xef, 0x53, 0xbf, 0x40],
     lg_swig_address = arr
      [0x95, 0x87, 0x28, 0x4f, 0x51, 0xc1, 0xd6, 0x8e, 0x96, 0xdb, 0xff, 0x73, 0x5a, 0xf6,
       0x83, 0x57, 0x28, 0x10, 0x98, 0x30, 0xe4, 0x41, 0x37, 0x77, 0xae, 0xeb, 0x5e, 0x8a,
       0xc8, 0xfc, 0x4c, 0xfd],
     lg_cooling_off_seconds = 0, lg_pending_voucher_count = 0, lg_pending_withdrawal = None,
     lg_supabase_user_id = arr
      [0x77, 0xd8, 0x55, 0x0d, 0x7f, 0x31, 0x53, 0xeb, 0x77, 0x5e, 0xcc, 0x9c, 0x3f, 0x77,
       0xeb, 0x01],
     lg_stored_authority = Some (arr
      [0x24, 0x40, 0x06, 0x57, 0x52, 0xb7, 0x9f, 0xf8, 0x1d, 0x90, 0x46, 0x8e, 0x52, 0xb4,
       0x9d, 0x5d, 0x48, 0xbb, 0x31, 0xa5, 0x00, 0x20, 0x88, 0xd1, 0x8a, 0xd2, 0x94, 0xdf,
       0xec, 0x92, 0x96, 0xcb]) \<rparr>"

definition FIX_151 :: "byte list" where
  "FIX_151 =
    [0xd3, 0x08, 0xe8, 0x2b, 0x02, 0x98, 0x75, 0x77, 0xfc, 0x03, 0xdc, 0x00, 0xf4, 0x01,
     0x61, 0x20, 0x78, 0xa4, 0x77, 0x93, 0x18, 0x5c, 0x1a, 0xd8, 0x73, 0xb6, 0xb4, 0x2a,
     0x10, 0x50, 0xc4, 0x07, 0xf4, 0x3d, 0x80, 0x66, 0x11, 0xb7, 0x1a, 0xa0, 0x46, 0x92,
     0x00, 0x00, 0x00, 0x00, 0x00, 0x00, 0x00, 0x00, 0x00, 0x00, 0x00, 0x00, 0x00, 0x00,
     0x00, 0x00, 0x00, 0x00, 0x00, 0x00, 0x00, 0x00, 0x00, 0x00, 0x00, 0x00, 0x00, 0x00,
     0x00, 0x00, 0x00, 0x00, 0x80, 0x51, 0x01, 0x00, 0x00, 0x00, 0x00, 0x00, 0x00, 0x00,
     0x00, 0x00, 0x00, 0xcc, 0x49, 0xff, 0x61, 0xfb, 0x72, 0xac, 0x2c, 0x3c, 0x2e, 0x97,
     0x4a, 0xd1, 0xda, 0xb6, 0x0e, 0x00, 0x00, 0x00, 0x00, 0x00, 0x00, 0x00, 0x00, 0x00,
     0x00, 0x00, 0x00, 0x00, 0x00, 0x00, 0x00, 0x00, 0x00, 0x00, 0x00, 0x00, 0x00, 0x00,
     0x00, 0x00, 0x00, 0x00, 0x00, 0x00, 0x00, 0x00, 0x00, 0x00, 0x00, 0x00, 0x00, 0x00,
     0x00, 0x00, 0x00, 0x00, 0x00, 0x00, 0x00, 0x00, 0x00, 0x00, 0x00]"

definition FIX_151_DECODED :: legacy_vault where
  "FIX_151_DECODED = \<lparr> lg_bump = 252,
     lg_passkey_pubkey = arr
      [0x03, 0xdc, 0x00, 0xf4, 0x01, 0x61, 0x20, 0x78, 0xa4, 0x77, 0x93, 0x18, 0x5c, 0x1a,
     0xd8, 0x73, 0xb6, 0xb4, 0x2a, 0x10, 0x50, 0xc4, 0x07, 0xf4, 0x3d, 0x80, 0x66, 0x11,
     0xb7, 0x1a, 0xa0, 0x46, 0x92],
     lg_swig_address = 0, lg_cooling_off_seconds = 86400, lg_pending_voucher_count = 0,
     lg_pending_withdrawal = None,
     lg_supabase_user_id = arr
      [0xcc, 0x49, 0xff, 0x61, 0xfb, 0x72, 0xac, 0x2c, 0x3c, 0x2e, 0x97, 0x4a, 0xd1, 0xda,
     0xb6, 0x0e],
     lg_stored_authority = None \<rparr>"

lemma fixture_image:
  "FIX_183 = account_image (ser_legacy_vault FIX_183_DECODED @ replicate 48 0)"
  by (simp add: FIX_183_def account_image_def VAULT_DISCRIMINATOR_def ser_legacy_vault_def
      FIX_183_DECODED_def le_bytes_zero numeral_eq_Suc)

lemma cooling_bytes: "le_bytes 8 (86400 :: u64) = [0x80, 0x51, 1, 0, 0, 0, 0, 0]"
  by (simp add: le_bytes_numeral)

lemma fixture_image_151:
  "FIX_151 = account_image (ser_legacy_vault FIX_151_DECODED @ replicate 48 0)"
  unfolding ser_legacy_vault_def FIX_151_DECODED_def legacy_vault.select_convs cooling_bytes
  by (simp add: FIX_151_def account_image_def VAULT_DISCRIMINATOR_def le_bytes_zero numeral_eq_Suc)

lemma hx_183: "hx FIX_183_HEX = FIX_183"
  by (simp add: FIX_183_HEX_def FIX_183_def nibble_def)

lemma hx_151: "hx FIX_151_HEX = FIX_151"
  by (simp add: FIX_151_HEX_def FIX_151_def nibble_def)

lemma length_FIX [simp]: "length FIX_183 = 183" "length FIX_151 = 151"
  by (simp_all add: FIX_183_def FIX_151_def)

lemma legacy_length_FIX [simp]: "legacy_length FIX_183_DECODED = 183" "legacy_length FIX_151_DECODED = 151"
  by (simp_all add: legacy_length_def FIX_183_DECODED_def FIX_151_DECODED_def LEGACY_V15_LEN_def
      LEGACY_V1_LEN_def)

lemma decode_183: "decode_legacy_vault (hx FIX_183_HEX) = Inr FIX_183_DECODED"
  unfolding decode_legacy_vault_iff hx_183 using fixture_image by auto

lemma decode_151: "decode_legacy_vault (hx FIX_151_HEX) = Inr FIX_151_DECODED"
  unfolding decode_legacy_vault_iff hx_151 using fixture_image_151 by auto

lemma swig_183: "pubkey_of FIX_183_SWIG = lg_swig_address FIX_183_DECODED"
  by (simp add: pubkey_of_def FIX_183_SWIG_def base58_alphabet_def FIX_183_DECODED_def
      numeral_eq_Suc arr_def)

lemma authority_183: "Some (pubkey_of FIX_183_AUTHORITY) = lg_stored_authority FIX_183_DECODED"
  by (simp add: pubkey_of_def FIX_183_AUTHORITY_def base58_alphabet_def FIX_183_DECODED_def
      numeral_eq_Suc arr_def)

section \<open>The tests\<close>

text \<open>\<open>expect\<close> and \<open>unwrap\<close>: the result is there and satisfies the assertions.\<close>

definition passes :: "error + 'a \<Rightarrow> ('a \<Rightarrow> bool) \<Rightarrow> bool" where
  "passes r P \<longleftrightarrow> (case r of Inl _ \<Rightarrow> False | Inr x \<Rightarrow> P x)"

lemma passes_Inr [simp]: "passes (Inr x) P \<longleftrightarrow> P x"
  by (simp add: passes_def)

definition decode_real_183_fixture :: bool where
  "decode_real_183_fixture \<longleftrightarrow>
     length (hx FIX_183_HEX) = LEGACY_V15_LEN \<and>
     passes (decode_legacy_vault (hx FIX_183_HEX)) (\<lambda>d.
       lg_bump d = 254 \<and> to_list (lg_passkey_pubkey d) ! 0 = 0x03 \<and>
       to_list (lg_passkey_pubkey d) = hx FIX_183_PASSKEY_HEX \<and>
       lg_swig_address d = pubkey_of FIX_183_SWIG \<and> lg_cooling_off_seconds d = 0 \<and>
       lg_pending_voucher_count d = 0 \<and> lg_pending_withdrawal d = None \<and>
       to_list (lg_supabase_user_id d) = hx FIX_183_UUID_HEX \<and>
       lg_stored_authority d = Some (pubkey_of FIX_183_AUTHORITY))"

definition decode_real_151_fixture :: bool where
  "decode_real_151_fixture \<longleftrightarrow>
     length (hx FIX_151_HEX) = LEGACY_V1_LEN \<and>
     passes (decode_legacy_vault (hx FIX_151_HEX)) (\<lambda>d.
       lg_bump d = 252 \<and> to_list (lg_passkey_pubkey d) ! 0 = 0x03 \<and>
       to_list (lg_passkey_pubkey d) = hx FIX_151_PASSKEY_HEX \<and>
       lg_swig_address d = 0 \<and> lg_cooling_off_seconds d = 86400 \<and>
       lg_pending_voucher_count d = 0 \<and> lg_pending_withdrawal d = None \<and>
       to_list (lg_supabase_user_id d) = hx FIX_151_UUID_HEX \<and> lg_stored_authority d = None)"

definition reencode_183_roundtrips_through_v6_vault :: bool where
  "reencode_183_roundtrips_through_v6_vault \<longleftrightarrow>
     passes (decode_legacy_vault (hx FIX_183_HEX)) (\<lambda>d.
     passes (ok_or (lg_stored_authority d) Panic) (\<lambda>authority.
     passes (encode_v6_image d authority) (\<lambda>image.
       length image = 8 + VAULT_SPACE \<and> length image = 279 \<and>
       passes (try_deserialize_vault image) (\<lambda>v6.
         version v6 = VAULT_VERSION_V6 \<and> bump v6 = 254 \<and>
         to_list (passkey_pubkey v6) = hx FIX_183_PASSKEY_HEX \<and>
         swig_address v6 = pubkey_of FIX_183_SWIG \<and> cooling_off_seconds v6 = 0 \<and>
         pending_voucher_count v6 = 0 \<and> pending_withdrawal v6 = None \<and>
         Precompile.slice 0 16 (to_list (identity_claim v6)) = hx FIX_183_UUID_HEX \<and>
         Precompile.slice 16 32 (to_list (identity_claim v6)) = replicate 16 0 \<and>
         dexter_authority v6 = pubkey_of FIX_183_AUTHORITY \<and> live_session_count v6 = 0 \<and>
         outstanding_locked_amount v6 = 0 \<and> total_crystallized_amount v6 = 0 \<and>
         total_settled_amount v6 = 0 \<and> borrowed v6 = 0 \<and> standby_backer v6 = None \<and>
         standby_cap v6 = 0 \<and> borrow_recovery_at v6 = None))))"

definition reencode_151_stamps_admin_and_roundtrips :: bool where
  "reencode_151_stamps_admin_and_roundtrips \<longleftrightarrow>
     passes (decode_legacy_vault (hx FIX_151_HEX)) (\<lambda>d.
     lg_stored_authority d = None \<and>
     passes (encode_v6_image d LEGACY_MIGRATE_ADMIN) (\<lambda>image.
       length image = 8 + VAULT_SPACE \<and>
       passes (try_deserialize_vault image) (\<lambda>v6.
         version v6 = VAULT_VERSION_V6 \<and> bump v6 = 252 \<and>
         to_list (passkey_pubkey v6) = hx FIX_151_PASSKEY_HEX \<and>
         swig_address v6 = 0 \<and> cooling_off_seconds v6 = 86400 \<and>
         pending_voucher_count v6 = 0 \<and> pending_withdrawal v6 = None \<and>
         Precompile.slice 0 16 (to_list (identity_claim v6)) = hx FIX_151_UUID_HEX \<and>
         Precompile.slice 16 32 (to_list (identity_claim v6)) = replicate 16 0 \<and>
         dexter_authority v6 = LEGACY_MIGRATE_ADMIN \<and> live_session_count v6 = 0 \<and>
         borrowed v6 = 0 \<and> standby_backer v6 = None)))"

definition unpadded_payload_is_shorter_than_init_space :: bool where
  "unpadded_payload_is_shorter_than_init_space \<longleftrightarrow>
     passes (decode_legacy_vault (hx FIX_183_HEX)) (\<lambda>d.
     passes (encode_v6_image d LEGACY_MIGRATE_ADMIN) (\<lambda>image.
     passes (try_deserialize_vault image) (\<lambda>v6.
       length (VAULT_DISCRIMINATOR @ ser_vault v6) < 8 + VAULT_SPACE)))"

definition rejects_wrong_discriminator :: bool where
  "rejects_wrong_discriminator \<longleftrightarrow>
     (let buf = hx FIX_151_HEX in \<not> is_ok (decode_legacy_vault (buf[0 := buf ! 0 XOR 0xFF])))"

definition rejects_truncated_and_wrong_length_buffers :: bool where
  "rejects_truncated_and_wrong_length_buffers \<longleftrightarrow>
     (let full = hx FIX_183_HEX; modern = VAULT_DISCRIMINATOR @ replicate 271 0 in
      \<not> is_ok (decode_legacy_vault (take 150 full)) \<and>
      \<not> is_ok (decode_legacy_vault (take 8 full)) \<and> \<not> is_ok (decode_legacy_vault []) \<and>
      \<not> is_ok (decode_legacy_vault (take 182 full)) \<and>
      \<not> is_ok (decode_legacy_vault (take 152 full)) \<and> \<not> is_ok (decode_legacy_vault modern))"

definition synthetic_buffer :: "byte list" where
  "synthetic_buffer =
     (let base = hx FIX_183_HEX in
      take 86 base @ [1] @ le_bytes 8 (5000000 :: u64) @ to_list (pubkey_of FIX_183_AUTHORITY) @
      le_bytes 8 (1750000000 :: i64) @ Precompile.slice 87 103 base @ Precompile.slice 103 135 base)"

definition decodes_synthetic_some_withdrawal_with_shift :: bool where
  "decodes_synthetic_some_withdrawal_with_shift \<longleftrightarrow>
     length synthetic_buffer = LEGACY_V15_LEN \<and>
     passes (decode_legacy_vault synthetic_buffer) (\<lambda>d.
     passes (ok_or (lg_pending_withdrawal d) Panic) (\<lambda>w.
       pw_amount w = 5000000 \<and> pw_destination w = pubkey_of FIX_183_AUTHORITY \<and>
       pw_requested_at w = 1750000000 \<and>
       to_list (lg_supabase_user_id d) = hx FIX_183_UUID_HEX \<and>
       lg_stored_authority d = Some (pubkey_of FIX_183_AUTHORITY) \<and>
       passes (ok_or (lg_stored_authority d) Panic) (\<lambda>authority.
       passes (encode_v6_image d authority) (\<lambda>image.
       passes (try_deserialize_vault image) (\<lambda>v6.
       passes (ok_or (pending_withdrawal v6) Panic) (\<lambda>cw.
         pw_amount cw = 5000000 \<and> pw_destination cw = pubkey_of FIX_183_AUTHORITY \<and>
         pw_requested_at cw = 1750000000))))))"

definition rejects_junk_option_tag :: bool where
  "rejects_junk_option_tag \<longleftrightarrow> \<not> is_ok (decode_legacy_vault ((hx FIX_183_HEX)[86 := 7]))"

definition with_cooling :: "i64 \<Rightarrow> byte list" where
  "with_cooling c = (let buf = hx FIX_151_HEX in take 74 buf @ le_bytes 8 c @ drop 82 buf)"

definition cooling_off_clamps_into_u32 :: bool where
  "cooling_off_clamps_into_u32 \<longleftrightarrow>
     (let big = 4294967295 + 12345 :: i64 in
      passes (decode_legacy_vault (with_cooling big)) (\<lambda>d.
        lg_cooling_off_seconds d = big \<and>
        passes (encode_v6_image d LEGACY_MIGRATE_ADMIN) (\<lambda>image.
        passes (try_deserialize_vault image) (\<lambda>v6. cooling_off_seconds v6 = 4294967295))) \<and>
      passes (decode_legacy_vault (with_cooling (- 1))) (\<lambda>d.
        passes (encode_v6_image d LEGACY_MIGRATE_ADMIN) (\<lambda>image.
        passes (try_deserialize_vault image) (\<lambda>v6. cooling_off_seconds v6 = 0))))"

section \<open>They pass\<close>

lemma sel_183:
  "lg_bump FIX_183_DECODED = 254" "lg_cooling_off_seconds FIX_183_DECODED = 0"
  "lg_pending_voucher_count FIX_183_DECODED = 0" "lg_pending_withdrawal FIX_183_DECODED = None"
  "to_list (lg_passkey_pubkey FIX_183_DECODED) = hx FIX_183_PASSKEY_HEX"
  "to_list (lg_supabase_user_id FIX_183_DECODED) = hx FIX_183_UUID_HEX"
  by (simp_all add: FIX_183_DECODED_def FIX_183_PASSKEY_HEX_def FIX_183_UUID_HEX_def nibble_def)

lemma sel_151:
  "lg_bump FIX_151_DECODED = 252" "lg_cooling_off_seconds FIX_151_DECODED = 86400"
  "lg_pending_voucher_count FIX_151_DECODED = 0" "lg_pending_withdrawal FIX_151_DECODED = None"
  "lg_swig_address FIX_151_DECODED = 0" "lg_stored_authority FIX_151_DECODED = None"
  "to_list (lg_passkey_pubkey FIX_151_DECODED) = hx FIX_151_PASSKEY_HEX"
  "to_list (lg_supabase_user_id FIX_151_DECODED) = hx FIX_151_UUID_HEX"
  by (simp_all add: FIX_151_DECODED_def FIX_151_PASSKEY_HEX_def FIX_151_UUID_HEX_def nibble_def)

lemma hx_heads: "hx FIX_183_PASSKEY_HEX ! 0 = 3" "hx FIX_151_PASSKEY_HEX ! 0 = 3"
  by (simp_all add: FIX_183_PASSKEY_HEX_def FIX_151_PASSKEY_HEX_def nibble_def)

lemma length_uuids: "length (hx FIX_183_UUID_HEX) = 16" "length (hx FIX_151_UUID_HEX) = 16"
  by (simp_all add: FIX_183_UUID_HEX_def FIX_151_UUID_HEX_def)

lemmas fixture_values = decode_183 decode_151 sel_183 sel_151 hx_heads length_uuids swig_183
  authority_183 [symmetric] encode_v6_image_eq v6_of_legacy_def Precompile.slice_def

lemma decode_fixtures: "decode_real_183_fixture" "decode_real_151_fixture"
  by (simp_all add: decode_real_183_fixture_def decode_real_151_fixture_def fixture_values
      hx_183 [THEN arg_cong [where f = length]] hx_151 [THEN arg_cong [where f = length]]
      LEGACY_V15_LEN_def LEGACY_V1_LEN_def)

lemma clamp_small: "clamp_u32 0 = 0" "clamp_u32 86400 = 86400"
  by (simp_all add: clamp_u32_def)

lemma reencode_fixtures:
  "reencode_183_roundtrips_through_v6_vault" "reencode_151_stamps_admin_and_roundtrips"
  by (simp_all add: reencode_183_roundtrips_through_v6_vault_def
      reencode_151_stamps_admin_and_roundtrips_def fixture_values clamp_small space_defs)

lemma unpadded_fixture: "unpadded_payload_is_shorter_than_init_space"
  by (simp add: unpadded_payload_is_shorter_than_init_space_def fixture_values ser_vault_def space_defs)

lemma decode_length:
  "is_ok (decode_legacy_vault data) \<Longrightarrow> length data = 151 \<or> length data = 183"
  by (auto simp: is_ok_iff decode_legacy_vault_def result_simps LEGACY_V1_LEN_def LEGACY_V15_LEN_def)

lemma decode_discriminator: "is_ok (decode_legacy_vault data) \<Longrightarrow> take 8 data = VAULT_DISCRIMINATOR"
  by (auto simp: is_ok_iff decode_legacy_vault_def result_simps)

lemma wrong_discriminator_fixture: "rejects_wrong_discriminator"
proof -
  have "take 8 (FIX_151[0 := FIX_151 ! 0 XOR 0xFF]) \<noteq> VAULT_DISCRIMINATOR"
    by (simp add: FIX_151_def VAULT_DISCRIMINATOR_def)
  then show ?thesis
    using decode_discriminator by (auto simp: rejects_wrong_discriminator_def hx_151)
qed

lemma wrong_length_fixtures: "rejects_truncated_and_wrong_length_buffers"
  by (auto simp: rejects_truncated_and_wrong_length_buffers_def Let_def hx_183 dest!: decode_length)

text \<open>The byte after the fixed prefix is the tag of the pending withdrawal.\<close>

lemma decode_tag:
  assumes "decode_legacy_vault data = Inr d"
  shows "data ! 86 = 0 \<or> data ! 86 = 1"
proof -
  from assms obtain slack where "data = account_image (ser_legacy_vault d @ slack)"
    by (auto simp: decode_legacy_vault_iff)
  then show ?thesis
    by (cases "lg_pending_withdrawal d") (simp_all add: account_image_def ser_legacy_vault_def nth_append)
qed

lemma junk_tag_fixture: "rejects_junk_option_tag"
proof -
  have "(FIX_183[86 := 7]) ! 86 = 7" by simp
  then show ?thesis
    using decode_tag by (fastforce simp: rejects_junk_option_tag_def is_ok_iff hx_183)
qed

definition SYNTHETIC_DECODED :: legacy_vault where
  "SYNTHETIC_DECODED = FIX_183_DECODED\<lparr>lg_pending_withdrawal := Some \<lparr> pw_amount = 5000000,
     pw_destination = pubkey_of FIX_183_AUTHORITY, pw_requested_at = 1750000000 \<rparr>\<rparr>"

lemma synthetic_image: "synthetic_buffer = account_image (ser_legacy_vault SYNTHETIC_DECODED)"
proof -
  have prefix: "take 86 FIX_183 = VAULT_DISCRIMINATOR @ [lg_bump FIX_183_DECODED] @
      to_list (lg_passkey_pubkey FIX_183_DECODED) @ to_list (lg_swig_address FIX_183_DECODED) @
      le_bytes 8 (0 :: i64) @ le_bytes 4 (0 :: u32)"
    by (simp add: FIX_183_def FIX_183_DECODED_def VAULT_DISCRIMINATOR_def le_bytes_zero numeral_eq_Suc)
  have "Precompile.slice 87 103 FIX_183 = to_list (lg_supabase_user_id FIX_183_DECODED)"
    and "Precompile.slice 103 135 FIX_183 = to_list (the (lg_stored_authority FIX_183_DECODED))"
    by (simp_all add: Precompile.slice_def FIX_183_def FIX_183_DECODED_def)
  with prefix show ?thesis
    by (simp add: synthetic_buffer_def Let_def hx_183 account_image_def ser_legacy_vault_def
        SYNTHETIC_DECODED_def sel_183 authority_183 [symmetric] ser_pending_withdrawal_def)
qed

lemma synthetic_fixture: "decodes_synthetic_some_withdrawal_with_shift"
proof -
  have len: "length synthetic_buffer = 183"
    by (simp add: synthetic_buffer_def Let_def hx_183 Precompile.slice_def)
  have "decode_legacy_vault synthetic_buffer = Inr SYNTHETIC_DECODED"
    unfolding decode_legacy_vault_iff using synthetic_image len
    by (auto simp: legacy_length_def SYNTHETIC_DECODED_def authority_183 [symmetric]
        LEGACY_V15_LEN_def intro: exI [of _ "[]"])
  then show ?thesis
    by (simp add: decodes_synthetic_some_withdrawal_with_shift_def len LEGACY_V15_LEN_def
        fixture_values SYNTHETIC_DECODED_def)
qed

lemma decode_with_cooling:
  "decode_legacy_vault (with_cooling c) = Inr (FIX_151_DECODED\<lparr>lg_cooling_off_seconds := c\<rparr>)"
proof -
  have prefix: "take 74 FIX_151 = VAULT_DISCRIMINATOR @ [lg_bump FIX_151_DECODED] @
      to_list (lg_passkey_pubkey FIX_151_DECODED) @ to_list (lg_swig_address FIX_151_DECODED)"
    by (simp add: FIX_151_def FIX_151_DECODED_def VAULT_DISCRIMINATOR_def numeral_eq_Suc)
  have suffix: "drop 82 FIX_151 = le_bytes 4 (0 :: u32) @ [0] @
      to_list (lg_supabase_user_id FIX_151_DECODED) @ replicate 48 0"
    by (simp add: FIX_151_def FIX_151_DECODED_def le_bytes_zero numeral_eq_Suc)
  have "with_cooling c = account_image
      (ser_legacy_vault (FIX_151_DECODED\<lparr>lg_cooling_off_seconds := c\<rparr>) @ replicate 48 0)"
    by (simp add: with_cooling_def Let_def hx_151 prefix suffix account_image_def
        ser_legacy_vault_def sel_151)
  moreover have "length (with_cooling c) = 151"
    by (simp add: with_cooling_def Let_def hx_151)
  ultimately show ?thesis
    unfolding decode_legacy_vault_iff by (auto simp: legacy_length_def sel_151 LEGACY_V1_LEN_def)
qed

lemma clamp_fixture: "cooling_off_clamps_into_u32"
  by (simp add: cooling_off_clamps_into_u32_def Let_def decode_with_cooling encode_v6_image_eq
      v6_of_legacy_def clamp_u32_def)

end
