(* ===== verification/Migration_Properties.thy ===== *)
theory Migration_Properties
  imports Sample_Runs Legacy_Fixtures
begin

text \<open>Properties of the account formats and of the migrations between them.\<close>

section \<open>Formats\<close>

text \<open>C35: a deserializer accepts exactly the serialized value followed by anything, so every account
  reads back as what was written, with whatever padding, in one way only, and fits the space its
  account was created with.\<close>

theorem accounts_roundtrip:
  "(read_vault bs = Inr (v, r) \<longleftrightarrow> bs = ser_vault v @ r) \<and>
   (read_session_account bs = Inr (a, r) \<longleftrightarrow> bs = ser_session_account a @ r) \<and>
   (read_locked_claim bs = Inr (c, r) \<longleftrightarrow> bs = ser_locked_claim c @ r) \<and>
   (read_standby_backer bs = Inr (sb, r) \<longleftrightarrow> bs = ser_standby_backer sb @ r) \<and>
   try_deserialize_vault (account_image (ser_vault v) @ pad) = Inr v \<and>
   length (ser_vault v) \<le> VAULT_SPACE \<and> length (ser_session_account a) = SESSION_ACCOUNT_SPACE \<and>
   length (ser_locked_claim c) \<le> LOCKED_CLAIM_SPACE \<and>
   length (ser_standby_backer sb) = STANDBY_BACKER_SPACE"
  by (simp add: borsh length_ser_vault length_ser_locked_claim)

section \<open>Generations 3 to 6\<close>

text \<open>C32: a vault of generation 3 that went through the three migrations loads in the current program
  with every field it had; the accounting fields of the later generations are zero, its session was
  not live, and the account has the size of a current vault.\<close>

theorem migration_chain:
  assumes "migrate_v3_to_v4 h tr e3 acc3 a3 k3 p3 = Inr (acc4, q4)"
    and "migrate_v4_to_v5 h tr e4 acc4 a4 k4 p4 = Inr (acc5, q5)"
    and "migrate_v5_to_v6 h e5 acc5 a5 k5 p5 = Inr (acc6, q6)"
  shows "\<exists>v r v'. ac_data acc3 = account_image (ser_vault_v3 v) @ r \<and>
    try_deserialize_vault (ac_data acc6) = Inr v' \<and> length (ac_data acc6) = 279 \<and>
    version v' = 6 \<and> bump v' = w3_bump v \<and> passkey_pubkey v' = w3_passkey_pubkey v \<and>
    swig_address v' = w3_swig_address v \<and> cooling_off_seconds v' = w3_cooling_off_seconds v \<and>
    pending_voucher_count v' = w3_pending_voucher_count v \<and>
    pending_withdrawal v' = w3_pending_withdrawal v \<and> identity_claim v' = w3_identity_claim v \<and>
    dexter_authority v' = w3_dexter_authority v \<and> live_session_count v' = 0 \<and> fresh_books v' \<and>
    total_crystallized_amount v' = 0 \<and> total_settled_amount v' = 0 \<and>
    (w3_active_session v = None \<or>
      (\<exists>s. w3_active_session v = Some s \<and> sint (r3_expires_at s) \<le> sint (now e5))) \<and>
    lamports_kept acc5 p5 acc6 q6"
proof -
  from v5_to_v6_image [OF assms(3)] obtain v5 r5 where
    v5: "ac_data acc5 = account_image (ser_vault_v5 v5) @ r5"
      "ac_data acc6 = vault_image (v6_of_v5 0 v5)"
      "w5_active_session v5 = None \<or>
        (\<exists>s. w5_active_session v5 = Some s \<and> sint (sr_expires_at s) \<le> sint (now e5))"
      "lamports_kept acc5 p5 acc6 q6" by blast
  from v4_to_v5_readable [OF assms(2) v5(1)] obtain v4 r4 where
    v4: "ac_data acc4 = account_image (ser_vault_v4 v4) @ r4" "v5 = v5_of_v4 v4" by blast
  from v3_to_v4_readable [OF assms(1) v4(1)] obtain v r where
    v: "ac_data acc3 = account_image (ser_vault_v3 v) @ r" "v4 = v4_of_v3 v" by blast
  have eq: "v5 = v5_of_v4 (v4_of_v3 v)" using v4(2) v(2) by simp
  show ?thesis
    by (rule exI [of _ v], rule exI [of _ r], rule exI [of _ "v6_of_v5 0 v5"])
      (use v(1) v5 in \<open>auto simp: eq v6_of_v5_def v5_of_v4_def v4_of_v3_def fresh_books_def
        session_of_v3_def\<close>)
qed

definition W3 :: vault_v3 where
  "W3 = \<lparr> w3_version = 3, w3_bump = 254, w3_passkey_pubkey = PASSKEY, w3_swig_address = SWIG,
     w3_cooling_off_seconds = 60, w3_pending_voucher_count = 0, w3_pending_withdrawal = Some PW,
     w3_identity_claim = IDENTITY, w3_dexter_authority = AUTH, w3_active_session = None \<rparr>"

definition A3 :: raw_account where
  "A3 = \<lparr> ac_owner = PROGRAM_ID, ac_data = account_image (ser_vault_v3 W3), ac_lamports = 5000 \<rparr>"

definition sample_transfer :: transfer where
  "sample_transfer n a b =
     (case (checked_sub a n, checked_add b n) of
        (Some a', Some b') \<Rightarrow> Inr (a', b') | _ \<Rightarrow> Inl (ProgramError InvalidArgument))"

lemma sample_transfer_law: "transfer_law sample_transfer"
  by (auto simp: transfer_law_def sample_transfer_def word_ops split: option.splits)

definition overwrite :: "nat \<Rightarrow> byte list \<Rightarrow> byte list \<Rightarrow> byte list" where
  "overwrite n out data = out @ drop (length out) (resize n data)"

definition A4 :: raw_account where
  "A4 = A3\<lparr>ac_data := overwrite (8 + VAULT_V4_SPACE)
     (account_image (ser_vault_v4 (v4_of_v3 W3))) (ac_data A3)\<rparr>"

definition A5 :: raw_account where
  "A5 = A4\<lparr>ac_data := overwrite (8 + VAULT_V5_SPACE)
     (account_image (ser_vault_v5 (v5_of_v4 (v4_of_v3 W3)))) (ac_data A4)\<rparr>"

definition A6 :: raw_account where
  "A6 = A5\<lparr>ac_data := vault_image (v6_of_v5 0 (v5_of_v4 (v4_of_v3 W3))), ac_lamports := 279\<rparr>"

lemma A3_sel [simp]: "ac_owner A3 = PROGRAM_ID" "ac_lamports A3 = 5000" "length (ac_data A3) = 197"
  by (simp_all add: A3_def ser_vault_v3_def W3_def PENDING_WITHDRAWAL_SPACE_def)

lemma length_overwrite: "length out \<le> n \<Longrightarrow> length (overwrite n out data) = n"
  by (simp add: overwrite_def)

lemma A4_sel [simp]: "ac_owner A4 = PROGRAM_ID" "ac_lamports A4 = 5000" "length (ac_data A4) = 341"
  using layout_lengths(2) [of "v4_of_v3 W3"] by (simp_all add: A4_def length_overwrite space_defs)

lemma A5_sel [simp]: "ac_owner A5 = PROGRAM_ID" "ac_lamports A5 = 5000" "length (ac_data A5) = 399"
  using layout_lengths(3) [of "v5_of_v4 (v4_of_v3 W3)"]
  by (simp_all add: A5_def length_overwrite space_defs)

lemma W3_sel [simp]: "w3_version W3 = 3" "w3_dexter_authority W3 = AUTH"
  "w3_active_session W3 = None" "w3_swig_address W3 = SWIG"
  "w3_pending_withdrawal W3 = Some PW" "w3_cooling_off_seconds W3 = 60"
  by (simp_all add: W3_def)

lemma sample_rent [simp]: "rent_minimum_balance sample_host n = word_of_nat n"
  by (simp add: sample_host_def)

lemma sample_v3_to_v4:
  "migrate_v3_to_v4 sample_host sample_transfer (plain_env 1000) A3 AUTH AUTH 9 = Inr (A4, 9)"
proof -
  have "grow_account sample_host sample_transfer (8 + VAULT_V4_SPACE) A3 9 =
      Inr (A3\<lparr>ac_data := resize (8 + VAULT_V4_SPACE) (ac_data A3)\<rparr>, 9)"
    by (rule grow_account_funded) (simp_all add: space_defs)
  then show ?thesis unfolding migrate_v3_to_v4_eq_Inr
    by (intro conjI exI [of _ W3] exI [of _ "[]"]
        exI [of _ "A3\<lparr>ac_data := resize (8 + VAULT_V4_SPACE) (ac_data A3)\<rparr>"])
      (simp_all add: A4_def overwrite_def, simp add: A3_def)
qed

lemma sample_v4_to_v5:
  "migrate_v4_to_v5 sample_host sample_transfer (plain_env 1000) A4 AUTH AUTH 9 = Inr (A5, 9)"
proof -
  have "grow_account sample_host sample_transfer (8 + VAULT_V5_SPACE) A4 9 =
      Inr (A4\<lparr>ac_data := resize (8 + VAULT_V5_SPACE) (ac_data A4)\<rparr>, 9)"
    by (rule grow_account_funded) (simp_all add: space_defs)
  then show ?thesis unfolding migrate_v4_to_v5_eq_Inr
    by (intro conjI exI [of _ "v4_of_v3 W3"] exI
        exI [of _ "A4\<lparr>ac_data := resize (8 + VAULT_V5_SPACE) (ac_data A4)\<rparr>"])
      (simp_all add: A5_def overwrite_def v4_of_v3_def, simp add: A4_def overwrite_def v4_of_v3_def)
qed

lemma sample_v5_to_v6:
  "migrate_v5_to_v6 sample_host (plain_env 1000) A5 AUTH AUTH 9 = Inr (A6, 4730)"
proof -
  have "ac_data A5 = account_image (ser_vault_v5 (v5_of_v4 (v4_of_v3 W3))) @
      drop (length (account_image (ser_vault_v5 (v5_of_v4 (v4_of_v3 W3)))))
        (resize (8 + VAULT_V5_SPACE) (ac_data A4))"
    by (simp add: A5_def overwrite_def)
  moreover have "refund_rent sample_host 279
      (A5\<lparr>ac_data := vault_image (v6_of_v5 0 (v5_of_v4 (v4_of_v3 W3)))\<rparr>) 9 = Inr (A6, 4730)"
    by (simp add: refund_rent_eq_Inr A6_def)
  moreover have "279 \<le> length (ac_data A5)" by simp
  moreover have "w5_version (v5_of_v4 w) = 5"
    "w5_active_session (v5_of_v4 (v4_of_v3 W3)) = None"
    "w5_dexter_authority (v5_of_v4 (v4_of_v3 W3)) = AUTH" for w
    by (simp_all add: v5_of_v4_def v4_of_v3_def)
  ultimately show ?thesis unfolding migrate_v5_to_v6_eq_Inr env_simps A5_sel(1)
    by (intro conjI) (auto simp only: list.set insert_iff)
qed

theorem migration_chain_witness:
  "\<exists>v'. try_deserialize_vault (ac_data A6) = Inr v' \<and> length (ac_data A6) = 279 \<and> version v' = 6 \<and>
     swig_address v' = SWIG \<and> pending_withdrawal v' = Some PW \<and> cooling_off_seconds v' = 60 \<and>
     lamports_kept A5 9 A6 4730"
proof -
  from migration_chain [OF sample_v3_to_v4 sample_v4_to_v5 sample_v5_to_v6] obtain v r v' where
    v: "ac_data A3 = account_image (ser_vault_v3 v) @ r"
    and v': "try_deserialize_vault (ac_data A6) = Inr v'" "length (ac_data A6) = 279"
      "version v' = 6" "swig_address v' = w3_swig_address v"
      "cooling_off_seconds v' = w3_cooling_off_seconds v"
      "pending_withdrawal v' = w3_pending_withdrawal v" "lamports_kept A5 9 A6 4730" by blast
  have "read_vault_v3 (ser_vault_v3 W3) = Inr (v, r)"
    using v by (simp add: A3_def account_image_def borsh)
  moreover have "read_vault_v3 (ser_vault_v3 W3) = Inr (W3, [])" by (simp add: borsh)
  ultimately have "v = W3" by simp
  with v' show ?thesis by auto
qed

text \<open>C33: the migration of a vault with a live session leaves a vault of generation 6 that counts one
  session and keeps every other field of generation 5, its meters included, and a session account that
  carries the registration byte for byte, at the address every later instruction re-derives from it
  (under the law that a found address is created by its seeds and bump).\<close>

theorem migration_carries_session:
  assumes "find_create_law h"
    and "migrate_v5_to_v6_with_session h e vk acc auth sk existing cp pk p = Inr (acc', sa, p')"
  shows "\<exists>v r v'. ac_data acc = account_image (ser_vault_v5 v) @ r \<and>
    try_deserialize_vault (ac_data acc') = Inr v' \<and> length (ac_data acc') = 279 \<and>
    version v' = 6 \<and> live_session_count v' = 1 \<and> bump v' = w5_bump v \<and>
    passkey_pubkey v' = w5_passkey_pubkey v \<and> swig_address v' = w5_swig_address v \<and>
    cooling_off_seconds v' = w5_cooling_off_seconds v \<and>
    pending_voucher_count v' = w5_pending_voucher_count v \<and>
    pending_withdrawal v' = w5_pending_withdrawal v \<and> identity_claim v' = w5_identity_claim v \<and>
    dexter_authority v' = w5_dexter_authority v \<and>
    outstanding_locked_amount v' = w5_outstanding_locked_amount v \<and>
    total_crystallized_amount v' = w5_total_crystallized_amount v \<and>
    total_settled_amount v' = w5_total_settled_amount v \<and>
    borrowed v' = w5_borrowed v \<and> standby_backer v' = w5_standby_backer v \<and>
    standby_cap v' = w5_standby_cap v \<and> borrow_recovery_at v' = w5_borrow_recovery_at v \<and>
    w5_active_session v = Some (sa_session sa) \<and> sa_version sa = 1 \<and> live_at (now e) sa \<and>
    sr_allowed_counterparty (sa_session sa) = cp \<and> session_at h vk sk sa \<and>
    lamports_kept acc p acc' p'"
proof -
  from v5_to_v6_session_image [OF assms(2)] obtain v r b s where
    v: "ac_data acc = account_image (ser_vault_v5 v) @ r"
      "ac_data acc' = vault_image (v6_of_v5 1 v)" "w5_active_session v = Some s"
      "sint (now e) < sint (sr_expires_at s)" "sr_allowed_counterparty s = cp"
      "find_program_address h (session_seeds vk cp) PROGRAM_ID = Some (sk, b)"
      "sa = carried_session vk b s" "lamports_kept acc p acc' p'" by blast
  have "create_program_address h (session_seeds vk cp @ [[b]]) PROGRAM_ID = Some sk"
    using assms(1) v(6) unfolding find_create_law_def by blast
  with v show ?thesis
    by (intro exI [of _ v] exI [of _ r] exI [of _ "v6_of_v5 1 v"])
      (simp add: v6_of_v5_def carried_session_def session_at_def live_at_def)
qed

definition W5 :: vault_v5 where
  "W5 = (v5_of_v4 (v4_of_v3 W3))\<lparr>w5_active_session := Some (sa_session S0)\<rparr>"

definition B5 :: raw_account where
  "B5 = \<lparr> ac_owner = PROGRAM_ID, ac_data = account_image (ser_vault_v5 W5), ac_lamports = 279 \<rparr>"

definition B6 :: raw_account where "B6 = B5\<lparr>ac_data := vault_image (v6_of_v5 1 W5)\<rparr>"

lemma sample_v5_to_v6_session:
  "migrate_v5_to_v6_with_session sample_host (plain_env 1000) V B5 AUTH SESS None SELLER AUTH 9 =
     Inr (B6, carried_session V 255 (sa_session S0), 9)"
proof -
  have "refund_rent sample_host 279 (B5\<lparr>ac_data := vault_image (v6_of_v5 1 W5)\<rparr>) 9 = Inr (B6, 9)"
    by (simp add: refund_rent_def B5_def B6_def)
  then show ?thesis unfolding migrate_v5_to_v6_with_session_eq_Inr
    by (intro conjI exI [of _ W5] exI [of _ "[]"] exI [of _ "255 :: u8"]
        exI [of _ "sa_session S0"])
      (simp_all add: B5_def W5_def v5_of_v4_def v4_of_v3_def sample_finds ser_vault_v5_def
        length_ser_option PENDING_WITHDRAWAL_SPACE_def SESSION_REGISTRATION_SPACE_def)
qed

theorem migration_carries_session_witness:
  "session_at sample_host V SESS (carried_session V 255 (sa_session S0)) \<and>
   live_at 1000 (carried_session V 255 (sa_session S0)) \<and> lamports_kept B5 9 B6 9"
  using migration_carries_session [OF _ sample_v5_to_v6_session] sample_laws
  by (auto simp: pda_laws_def)

section \<open>Before the version byte\<close>

text \<open>C34: a legacy vault is migrated only by the authority it recorded, or by the admin when it recorded
  none, and then loads in the current program with its passkey, swig, pending vouchers, withdrawal and
  identity, its cooling-off period clamped to 32 bits, its books empty and its totals zero; it is rent
  exempt and, when a transfer moves its amount, no lamport is lost.\<close>

theorem legacy_migration:
  assumes "transfer_law tr" and "migrate_legacy_to_v6 h tr e acc auth pk p = Inr (acc', p')"
  shows "\<exists>d v'. decode_legacy_vault (ac_data acc) = Inr d \<and> auth \<in> set (signers e) \<and>
    auth = (case lg_stored_authority d of Some k \<Rightarrow> k | None \<Rightarrow> LEGACY_MIGRATE_ADMIN) \<and>
    try_deserialize_vault (ac_data acc') = Inr v' \<and> length (ac_data acc') = 279 \<and>
    version v' = 6 \<and> bump v' = lg_bump d \<and> passkey_pubkey v' = lg_passkey_pubkey d \<and>
    swig_address v' = lg_swig_address d \<and> dexter_authority v' = auth \<and>
    pending_voucher_count v' = lg_pending_voucher_count d \<and>
    pending_withdrawal v' = lg_pending_withdrawal d \<and>
    to_list (identity_claim v') = to_list (lg_supabase_user_id d) @ replicate 16 0 \<and>
    int (unat (cooling_off_seconds v')) =
      min (2 ^ 32 - 1) (max 0 (sint (lg_cooling_off_seconds d))) \<and> fresh_books v' \<and>
    total_crystallized_amount v' = 0 \<and> total_settled_amount v' = 0 \<and>
    lamports_kept acc p acc' p' \<and>
    unat (ac_lamports acc') =
      max (unat (ac_lamports acc)) (unat (rent_minimum_balance h 279))"
proof -
  from assms(2) obtain d slack a1 where
    d: "length (ac_data acc) = legacy_length d"
      "ac_data acc = account_image (ser_legacy_vault d @ slack)" "auth = legacy_authority d"
    and s: "auth \<in> set (signers e)" and t: "top_up h tr 279 acc p = Inr (a1, p')"
    and acc': "acc' = a1\<lparr>ac_data := vault_image (v6_of_legacy d auth)\<rparr>"
    unfolding migrate_legacy_to_v6_eq_Inr by blast
  have "decode_legacy_vault (ac_data acc) = Inr d"
    unfolding decode_legacy_vault_iff using d(1,2) by blast
  with d(3) s top_up_lamports [OF assms(1) t] show ?thesis
    by (intro exI [of _ d] exI [of _ "v6_of_legacy d auth"])
      (simp add: acc' legacy_authority_def v6_of_legacy_def fresh_books_def
        unat_clamp_u32 [simplified] lamports_kept_def)
qed

text \<open>The 183-byte mainnet account of the unit tests.\<close>

definition A0 :: raw_account where
  "A0 = \<lparr> ac_owner = PROGRAM_ID, ac_data = FIX_183, ac_lamports = 100 \<rparr>"

definition fixture_authority :: pubkey where
  "fixture_authority = legacy_authority FIX_183_DECODED"

definition fixture_env :: tx_env where
  "fixture_env = (plain_env 1000)\<lparr>signers := [fixture_authority]\<rparr>"

definition A0' :: raw_account where
  "A0' = \<lparr> ac_owner = PROGRAM_ID,
     ac_data = vault_image (v6_of_legacy FIX_183_DECODED fixture_authority), ac_lamports = 279 \<rparr>"

lemma sample_legacy:
  "migrate_legacy_to_v6 sample_host sample_transfer fixture_env A0 fixture_authority
     fixture_authority 1000 = Inr (A0', 821)"
proof -
  have "top_up sample_host sample_transfer 279 A0 1000 = Inr (A0\<lparr>ac_lamports := 279\<rparr>, 821)"
    by (simp add: top_up_def A0_def sample_transfer_def checked_sub_def checked_add_def)
  moreover have "length FIX_183 = legacy_length FIX_183_DECODED"
    by (simp add: FIX_183_def legacy_length_def FIX_183_DECODED_def LEGACY_V15_LEN_def)
  ultimately show ?thesis unfolding migrate_legacy_to_v6_eq_Inr
    by (intro conjI exI [of _ FIX_183_DECODED] exI [of _ "replicate 48 0"]
        exI [of _ "A0\<lparr>ac_lamports := 279\<rparr>"])
      (simp_all add: A0_def A0'_def fixture_env_def fixture_authority_def fixture_image)
qed

theorem legacy_migration_witness:
  "\<exists>v'. try_deserialize_vault (ac_data A0') = Inr v' \<and> version v' = 6 \<and>
     dexter_authority v' = fixture_authority \<and> lamports_kept A0 1000 A0' 821"
  using legacy_migration [OF sample_transfer_law sample_legacy] by blast

section \<open>Generation 2\<close>

text \<open>C36: the first versioned migration never resizes the account, because the size it asks for is that
  of the sixth generation. A vault of generation 2 (in the layout the source's comment gives,
  \<open>standard_v2\<close>) with a free slot is left readable as its generation-3 image; one with both a
  withdrawal and a session is left in a state that none of the six migrations accepts.\<close>

theorem v2_account_stranded:
  assumes "standard_v2 acc v n"
    and "migrate_v2_to_v3 h tr e acc auth pk p = Inr (acc', p')"
  shows "length (ac_data acc') = 289 \<and>
    (w2_pending_withdrawal v = None \<or> w2_active_session v = None \<longrightarrow>
       (\<exists>r. read_vault_v3 (drop 8 (ac_data acc')) = Inr (v3_of_v2 v, r))) \<and>
    (w2_pending_withdrawal v \<noteq> None \<and> w2_active_session v \<noteq> None \<longrightarrow>
       \<not> is_ok (migrate_legacy_to_v6 h tr e1 acc' a1 k1 q1) \<and>
       \<not> is_ok (migrate_v2_to_v3 h tr e2 acc' a2 k2 q2) \<and>
       \<not> is_ok (migrate_v3_to_v4 h tr e3 acc' a3 k3 q3) \<and>
       \<not> is_ok (migrate_v4_to_v5 h tr e4 acc' a4 k4 q4) \<and>
       \<not> is_ok (migrate_v5_to_v6 h e5 acc' a5 k5 q5) \<and>
       \<not> is_ok (migrate_v5_to_v6_with_session h e6 vk acc' a6 sk existing cp k6 q6))"
proof -
  let ?b = "bump_v3 v"
  from assms(2) have acc': "ac_data acc' = account_image (ser_vault_v2 ?b @ replicate n 0)"
    unfolding migrate_v2_to_v3_standard [OF assms(1)] by simp
  have same: "w2_active_session ?b = w2_active_session v" "v3_of_v2 ?b = v3_of_v2 v"
    "w2_version ?b = VAULT_VERSION_V3" "length (ser_vault_v2 ?b) = length (ser_vault_v2 v)"
    by (simp_all add: bump_v3_def v3_of_v2_def ser_vault_v2_def)
  have len: "length (ac_data acc') = 289"
    using assms(1) by (auto simp: acc' same(4) standard_v2_def space_defs)
  have body: "drop 8 (ac_data acc') = ser_vault_v2 ?b @ replicate n 0"
    by (simp add: acc' account_image_def)
  have ver: "check_vault_bytes x (ac_data acc') = Inl (VaultError UnsupportedVaultVersion)"
    if "x \<noteq> VAULT_VERSION_V3" for x
    using that
    by (simp add: check_vault_bytes_def acc' account_image_def ser_vault_v2_def same(3) nth_append)
  have wrong: "VAULT_VERSION_V2 \<noteq> VAULT_VERSION_V3" "VAULT_VERSION_V4 \<noteq> VAULT_VERSION_V3"
    "VAULT_VERSION_V5 \<noteq> VAULT_VERSION_V3" by (simp_all add: version_defs)
  have readable: "\<exists>r. read_vault_v3 (drop 8 (ac_data acc')) = Inr (v3_of_v2 v, r)"
    if "w2_pending_withdrawal v = None \<or> w2_active_session v = None"
  proof -
    have "w2_active_session ?b = None \<or> 16 \<le> n"
      using that standard_v2_slack [OF assms(1)] same(1) by auto
    with read_v3_of_v2 [OF same(3)] show ?thesis unfolding body same(2) by blast
  qed
  have stuck: "read_vault_v3 (drop 8 (ac_data acc')) = Inl (ProgramError BorshIoError)"
    if "w2_pending_withdrawal v \<noteq> None" "w2_active_session v \<noteq> None"
    using that standard_v2_slack [OF assms(1)] read_v3_runs_out [of ?b] same(1)
    unfolding body by auto
  show ?thesis
    using len ver [OF wrong(1)] ver [OF wrong(2)] ver [OF wrong(3)] readable stuck
    by (auto simp: is_ok_iff migrate_v3_to_v4_def migrate_v2_to_v3_def migrate_legacy_to_v6_def
        migrate_v4_to_v5_def migrate_v5_to_v6_def migrate_v5_to_v6_with_session_def
        decode_legacy_vault_def LEGACY_V1_LEN_def LEGACY_V15_LEN_def bind_res_eq_Inr require_eq_Inr)
qed

definition W2 :: vault_v2 where
  "W2 = \<lparr> w2_version = 2, w2_bump = 254, w2_passkey_pubkey = PASSKEY, w2_swig_address = SWIG,
     w2_cooling_off_seconds = 60, w2_pending_voucher_count = 0, w2_pending_withdrawal = Some PW,
     w2_identity_claim = IDENTITY, w2_dexter_authority = AUTH,
     w2_active_session = Some \<lparr> r2_session_pubkey = SKEY, r2_max_amount = 400,
       r2_expires_at = 5000, r2_allowed_counterparty = SELLER, r2_nonce = 1, r2_spent = 0 \<rparr> \<rparr>"

definition A2 :: raw_account where
  "A2 = \<lparr> ac_owner = PROGRAM_ID, ac_data = account_image (ser_vault_v2 W2), ac_lamports = 289 \<rparr>"

definition A2' :: raw_account where
  "A2' = A2\<lparr>ac_data := account_image (ser_vault_v2 (bump_v3 W2))\<rparr>"

lemma A2_standard: "standard_v2 A2 W2 0"
  by (simp add: standard_v2_def A2_def W2_def ser_vault_v2_def ser_session_registration_v2_def
      space_defs)

lemma sample_v2_to_v3:
  "migrate_v2_to_v3 sample_host sample_transfer (plain_env 1000) A2 AUTH AUTH 9 = Inr (A2', 9)"
  unfolding migrate_v2_to_v3_standard [OF A2_standard] by (simp add: A2'_def W2_def)

theorem v2_account_stranded_witness:
  "length (ac_data A2') = 289 \<and>
   \<not> is_ok (migrate_v3_to_v4 sample_host sample_transfer (plain_env 1000) A2' AUTH AUTH 9) \<and>
   \<not> is_ok (migrate_v2_to_v3 sample_host sample_transfer (plain_env 1000) A2' AUTH AUTH 9) \<and>
   \<not> is_ok (migrate_v5_to_v6 sample_host (plain_env 1000) A2' AUTH AUTH 9)"
  using v2_account_stranded [OF A2_standard sample_v2_to_v3] by (auto simp: W2_def)

end
