(* ===== verification/Generations.thy ===== *)
theory Generations
  imports Chain
begin

text \<open>
  The books of the ledger across the generations of the vault account: whatever order the migrations
  and the current instructions run in, the counters and totals agree with the accounts. A migration is
  a step of the bookkeeping machine, except the one that carries a live session over.
\<close>

section \<open>Sessions kept inside an old vault account\<close>

definition old_session :: "raw_account \<Rightarrow> session_registration option" where
  "old_session a =
     (if ac_data a ! 8 = VAULT_VERSION_V2 \<or> ac_data a ! 8 = VAULT_VERSION_V3 then
        (case read_vault_v3 (drop 8 (ac_data a)) of
           Inl _ \<Rightarrow> None | Inr (v, _) \<Rightarrow> map_option session_of_v3 (w3_active_session v))
      else if ac_data a ! 8 = VAULT_VERSION_V4 then
        (case read_vault_v4 (drop 8 (ac_data a)) of Inl _ \<Rightarrow> None | Inr (v, _) \<Rightarrow> w4_active_session v)
      else if ac_data a ! 8 = VAULT_VERSION_V5 then
        (case read_vault_v5 (drop 8 (ac_data a)) of Inl _ \<Rightarrow> None | Inr (v, _) \<Rightarrow> w5_active_session v)
      else None)"

text \<open>The meters of the session are within their caps, and in an account too short for a versioned
  layout the byte that would be the version, the bump of the address, is none: bumps start at 255.\<close>

definition account_ok :: "raw_account \<Rightarrow> bool" where
  "account_ok a \<longleftrightarrow>
     (case old_session a of None \<Rightarrow> True | Some s \<Rightarrow> session_sound s) \<and>
     (9 \<le> length (ac_data a) \<and> length (ac_data a) < 279 \<longrightarrow> VAULT_VERSION_V6 < ac_data a ! 8)"

lemma old_session_image:
  "ac_data a = account_image (ser_vault_v3 v3) @ r \<Longrightarrow> w3_version v3 = 2 \<or> w3_version v3 = 3 \<Longrightarrow>
     old_session a = map_option session_of_v3 (w3_active_session v3)"
  "ac_data a = account_image (ser_vault_v4 v4) @ r \<Longrightarrow> w4_version v4 = 4 \<Longrightarrow>
     old_session a = w4_active_session v4"
  "ac_data a = account_image (ser_vault_v5 v5) @ r \<Longrightarrow> w5_version v5 = 5 \<Longrightarrow>
     old_session a = w5_active_session v5"
proof -
  have "read_vault_v3 (ser_vault_v3 v3 @ r) = Inr (v3, r)" by (simp add: borsh)
  then show "ac_data a = account_image (ser_vault_v3 v3) @ r \<Longrightarrow>
      w3_version v3 = 2 \<or> w3_version v3 = 3 \<Longrightarrow>
      old_session a = map_option session_of_v3 (w3_active_session v3)"
    by (auto simp: old_session_def simp del: take_append drop_append)
qed (simp_all add: old_session_def vault_v4_codec.rd_ser vault_v5_codec.rd_ser
    del: take_append drop_append)

lemma account_ok_usable:
  assumes "usable a"
  shows "account_ok a"
proof -
  obtain v where load: "anchor_load a = Some v"
    and v: "version v = 6 \<or> version v = 5 \<and> live_session_count v = 0"
    using modern_usable [OF assms] by blast
  then obtain r where d: "ac_data a = account_image (ser_vault v) @ r" by (auto simp: anchor_load_iff)
  have "old_session a = None"
  proof (cases "version v = 6")
    case True
    then show ?thesis by (simp add: old_session_def d del: take_append drop_append)
  next
    case False
    with v have five: "version v = 5" "live_session_count v = 0" by auto
    then show ?thesis
      using old_session_image(3) [of a "v5_of_v6 v" r] d sessionless_bytes(1) [OF five(2)]
      by (simp add: v5_of_v6_def)
  qed
  then show ?thesis using assms by (simp add: account_ok_def usable_def split: option.splits)
qed

lemma long_enough:
  assumes "account_ok a" and "9 \<le> length (ac_data a)" and "ac_data a ! 8 \<le> 6"
  shows "279 \<le> length (ac_data a)"
  using assms by (auto simp: account_ok_def)

lemma old_images_long:
  assumes "account_ok a"
  shows "ac_data a = account_image (ser_vault_v3 v3) @ r \<Longrightarrow> w3_version v3 = 3 \<Longrightarrow> 279 \<le> length (ac_data a)"
    and "ac_data a = account_image (ser_vault_v4 v4) @ r \<Longrightarrow> w4_version v4 = 4 \<Longrightarrow> 279 \<le> length (ac_data a)"
    and "ac_data a = account_image (ser_vault_v5 v5) @ r \<Longrightarrow> w5_version v5 = 5 \<Longrightarrow> 279 \<le> length (ac_data a)"
proof -
  have "9 \<le> length (account_image (ser_vault_v3 v3) @ r)"
    "9 \<le> length (account_image (ser_vault_v4 v4) @ r)"
    "9 \<le> length (account_image (ser_vault_v5 v5) @ r)"
    by (simp_all add: ser_vault_v3_def ser_vault_v4_def ser_vault_v5_def)
  then show "ac_data a = account_image (ser_vault_v3 v3) @ r \<Longrightarrow> w3_version v3 = 3 \<Longrightarrow> 279 \<le> length (ac_data a)"
    and "ac_data a = account_image (ser_vault_v4 v4) @ r \<Longrightarrow> w4_version v4 = 4 \<Longrightarrow> 279 \<le> length (ac_data a)"
    and "ac_data a = account_image (ser_vault_v5 v5) @ r \<Longrightarrow> w5_version v5 = 5 \<Longrightarrow> 279 \<le> length (ac_data a)"
    using long_enough [OF assms] by (simp_all del: length_append)
qed

section \<open>What each migration does to the books\<close>

text \<open>Either the books of the account stay, or a vault with empty books appears.\<close>

definition books_moved :: "raw_account \<Rightarrow> raw_account \<Rightarrow> bool" where
  "books_moved a a' \<longleftrightarrow> account_ok a' \<and>
     (modern a' = modern a \<or> modern a = None \<and> (\<exists>v. modern a' = Some v \<and> fresh_books v))"

lemma moved_v2_to_v3:
  assumes "migrate_v2_to_v3 h tr e a auth pk p = Inr (a', p')" and ok: "account_ok a"
  shows "books_moved a a'"
proof -
  from assms(1) have cv: "check_vault_bytes VAULT_VERSION_V2 (ac_data a) = Inr ()"
    and own: "ac_owner a = PROGRAM_ID"
    by (auto simp: migrate_v2_to_v3_def result_simps)
  then have len: "9 \<le> length (ac_data a)" and two: "ac_data a ! 8 = 2"
    by (simp_all add: check_vault_bytes_def result_simps)
  have long: "279 \<le> length (ac_data a)" using long_enough [OF ok len] two by simp
  then have "grow_account h tr (8 + VAULT_SPACE) a p = Inr (a, p)"
    by (simp add: grow_account_def space_defs)
  with assms(1) have a': "a' = a\<lparr>ac_data := (ac_data a)[8 := 3]\<rparr>"
    by (auto simp: migrate_v2_to_v3_def result_simps)
  have three: "ac_data a' ! 8 = 3" using len by (simp add: a')
  have none: "modern a = None" "modern a' = None"
    using two three by (simp_all add: modern_def)
  define bs where "bs = drop 9 (ac_data a)"
  have d: "drop 8 (ac_data a) = 2 # bs"
    using len two Cons_nth_drop_Suc [of 8 "ac_data a"] by (simp add: bs_def)
  have d': "drop 8 (ac_data a') = 3 # bs"
    using len three Cons_nth_drop_Suc [of 8 "ac_data a'"] by (simp add: bs_def a')
  have same: "\<exists>v'. read_vault_v3 (2 # bs) = Inr (v', r) \<and> w3_active_session v' = w3_active_session v"
    if "read_vault_v3 (3 # bs) = Inr (v, r)" for v r
  proof (intro exI [of _ "v\<lparr>w3_version := 2\<rparr>"])
    show "read_vault_v3 (2 # bs) = Inr (v\<lparr>w3_version := 2\<rparr>, r) \<and>
        w3_active_session (v\<lparr>w3_version := 2\<rparr>) = w3_active_session v"
      using that by (simp add: borsh ser_vault_v3_def)
  qed
  have "old_session a' = Some s \<Longrightarrow> old_session a = Some s" for s
    using same two three by (fastforce simp: old_session_def d d' split: sum.splits)
  then have "account_ok a'"
    using ok long by (auto simp: account_ok_def a' split: option.splits)
  with none show ?thesis by (simp add: books_moved_def)
qed

lemma moved_v3_to_v4:
  assumes "migrate_v3_to_v4 h tr e a auth pk p = Inr (a', p')" and ok: "account_ok a"
  shows "books_moved a a'"
proof -
  from assms(1) obtain v r a1 where own: "ac_owner a = PROGRAM_ID"
    and d: "ac_data a = account_image (ser_vault_v3 v) @ r" "w3_version v = 3"
    and g: "grow_account h tr (8 + VAULT_V4_SPACE) a p = Inr (a1, p')"
    and a': "a' = a1\<lparr>ac_data := account_image (ser_vault_v4 (v4_of_v3 v)) @
      drop (length (account_image (ser_vault_v4 (v4_of_v3 v)))) (ac_data a1)\<rparr>"
    unfolding migrate_v3_to_v4_eq_Inr by blast
  have long: "279 \<le> length (ac_data a')"
    using grow_account_frame(1) [OF g] grown_fits [OF g layout_lengths(2)]
    by (simp add: a' space_defs del: length_account_image)
  have own': "ac_owner a' = PROGRAM_ID" using grow_account_frame(3) [OF g] own by (simp add: a')
  have "modern a = None"
    using modern_image(4) [OF own _ d] modern_short [of a] by (meson not_le)
  moreover have "modern a' = Some (v6_of_v5 0 (v5_of_v4 (v4_of_v3 v)))"
    by (rule modern_image(3) [OF own' long]) (simp_all add: a' v4_of_v3_def)
  moreover have "old_session a' = old_session a"
    using old_session_image(1) [OF d(1)] d(2) old_session_image(2) [of a' "v4_of_v3 v"]
    by (simp add: a' v4_of_v3_def)
  moreover have "fresh_books (v6_of_v5 0 (v5_of_v4 (v4_of_v3 v)))"
    by (simp add: fresh_books_def v6_of_v5_def v5_of_v4_def v4_of_v3_def)
  ultimately show ?thesis using ok long by (simp add: books_moved_def account_ok_def)
qed

lemma moved_v4_to_v5:
  assumes "migrate_v4_to_v5 h tr e a auth pk p = Inr (a', p')" and ok: "account_ok a"
  shows "books_moved a a'"
proof -
  from assms(1) obtain v r a1 where own: "ac_owner a = PROGRAM_ID"
    and d: "ac_data a = account_image (ser_vault_v4 v) @ r" "w4_version v = 4"
    and g: "grow_account h tr (8 + VAULT_V5_SPACE) a p = Inr (a1, p')"
    and a': "a' = a1\<lparr>ac_data := account_image (ser_vault_v5 (v5_of_v4 v)) @
      drop (length (account_image (ser_vault_v5 (v5_of_v4 v)))) (ac_data a1)\<rparr>"
    unfolding migrate_v4_to_v5_eq_Inr by blast
  have long: "279 \<le> length (ac_data a')"
    using grow_account_frame(1) [OF g] grown_fits [OF g layout_lengths(3)]
    by (simp add: a' space_defs del: length_account_image)
  have own': "ac_owner a' = PROGRAM_ID" using grow_account_frame(3) [OF g] own by (simp add: a')
  have "modern a = Some (v6_of_v5 0 (v5_of_v4 v))"
    by (rule modern_image(3) [OF own old_images_long(2) [OF ok d] d])
  moreover have "modern a' = Some (v6_of_v5 0 (v5_of_v4 v))"
    by (rule modern_image(2) [OF own' long]) (simp_all add: a' v5_of_v4_def)
  moreover have "old_session a' = old_session a"
    using old_session_image(2) [OF d] old_session_image(3) [of a' "v5_of_v4 v"]
    by (simp add: a' v5_of_v4_def)
  ultimately show ?thesis using ok long by (simp add: books_moved_def account_ok_def)
qed

text \<open>A padded image of a current vault.\<close>

lemma image_account:
  assumes "ac_owner a = PROGRAM_ID" and "ac_data a = vault_image w" and "version w = 6"
  shows "account_ok a" and "modern a = Some w"
proof -
  obtain n where d: "ac_data a = account_image (ser_vault w) @ replicate n 0"
    using vault_image_pad [of w] assms(2) by auto
  have "279 \<le> length (ac_data a)" using assms(2) by simp
  from modern_loaded [OF assms(1) this d] assms(3) account_ok_usable
  show "account_ok a" and "modern a = Some w" by auto
qed

lemma refunded_account:
  assumes "refund_rent h n (a\<lparr>ac_data := vault_image w\<rparr>) p = Inr (a', p')"
    and "ac_owner a = PROGRAM_ID" and "version w = 6"
  shows "account_ok a'" and "modern a' = Some w"
proof -
  have "ac_data a' = vault_image w" using refund_rent_data [OF assms(1)] by simp
  moreover have "ac_owner a' = PROGRAM_ID"
    using assms(1,2) by (auto simp: refund_rent_def Let_def result_simps split: if_splits)
  ultimately show "account_ok a'" and "modern a' = Some w" using image_account assms(3) by blast+
qed

lemma moved_v5_to_v6:
  assumes "migrate_v5_to_v6 h e a auth pk p = Inr (a', p')" and ok: "account_ok a"
  shows "books_moved a a'"
proof -
  from assms(1) obtain v r where own: "ac_owner a = PROGRAM_ID"
    and d: "ac_data a = account_image (ser_vault_v5 v) @ r" "w5_version v = 5"
    and long: "279 \<le> length (ac_data a)"
    and rf: "refund_rent h 279 (a\<lparr>ac_data := vault_image (v6_of_v5 0 v)\<rparr>) p = Inr (a', p')"
    unfolding migrate_v5_to_v6_eq_Inr by blast
  have "version (v6_of_v5 0 v) = 6" by (simp add: v6_of_v5_def)
  from refunded_account [OF rf own this] show ?thesis
    using modern_image(2) [OF own long d] by (simp add: books_moved_def)
qed

lemma moved_legacy:
  assumes "migrate_legacy_to_v6 h tr e a auth pk p = Inr (a', p')"
  shows "books_moved a a'"
proof -
  from assms obtain d a1 where own: "ac_owner a = PROGRAM_ID"
    and len: "length (ac_data a) = legacy_length d"
    and t: "top_up h tr 279 a p = Inr (a1, p')"
    and a': "a' = a1\<lparr>ac_data := vault_image (v6_of_legacy d auth)\<rparr>"
    unfolding migrate_legacy_to_v6_eq_Inr by blast
  let ?w = "v6_of_legacy d auth"
  have "ac_owner a' = PROGRAM_ID" using top_up_frame(2) [OF t] own by (simp add: a')
  then have "account_ok a'" "modern a' = Some ?w"
    using image_account [of a' ?w] by (simp_all add: a' v6_of_legacy_def)
  moreover have "modern a = None"
    using len by (intro modern_short)
      (simp add: legacy_length_def LEGACY_V1_LEN_def LEGACY_V15_LEN_def split: option.splits)
  moreover have "fresh_books ?w" by (simp add: fresh_books_def v6_of_legacy_def)
  ultimately show ?thesis by (simp add: books_moved_def)
qed

section \<open>The chain\<close>

text \<open>The invariants of the typed ledger together.\<close>

definition ledger_books :: "host \<Rightarrow> ledger \<Rightarrow> bool" where
  "ledger_books h l \<longleftrightarrow>
     claims_inv l \<and> credit_inv l \<and> meters_inv l \<and> reserve_inv h l \<and> sessions_inv h l"

lemma ledger_books_book:
  assumes "book h True l l'" and "pda_laws h" and "ledger_books h l"
  shows "ledger_books h l'"
  using assms claims_inv_book credit_inv_book meters_inv_book reserve_inv_book sessions_inv_book
  unfolding ledger_books_def by blast

definition books_agree :: "host \<Rightarrow> chain \<Rightarrow> bool" where
  "books_agree h c \<longleftrightarrow>
     (\<forall>k a. ch_vaults c k = Some a \<longrightarrow> account_ok a) \<and> ledger_books h (view c)"

lemma view_put:
  "view (c\<lparr>ch_vaults := (ch_vaults c)(k \<mapsto> a')\<rparr>) = (view c)\<lparr>vaults := (vaults (view c))(k := modern a')\<rparr>"
  by (auto intro!: ledger_eqI)

lemma books_moved_step:
  assumes "books_moved a a'" and "ch_vaults c k = Some a" and "books_agree h c" and "pda_laws h"
  shows "books_agree h (c\<lparr>ch_vaults := (ch_vaults c)(k \<mapsto> a')\<rparr>)"
proof -
  let ?c = "c\<lparr>ch_vaults := (ch_vaults c)(k \<mapsto> a')\<rparr>"
  have at: "vaults (view c) k = modern a" using assms(2) by simp
  have "book h True (view c) (view ?c)"
  proof (cases "modern a' = modern a")
    case True
    then have "view ?c = view c" unfolding view_put True at [symmetric] by (simp del: view_sel)
    then show ?thesis by (simp add: book.unchanged)
  next
    case False
    then obtain v where "modern a = None" "modern a' = Some v" "fresh_books v"
      using assms(1) by (auto simp: books_moved_def)
    then show ?thesis
      using book.vault_born [of "view c" k v h True] at unfolding view_put by (simp add: put_vault_def)
  qed
  then show ?thesis
    using ledger_books_book assms by (auto simp: books_agree_def books_moved_def)
qed

text \<open>A live session moves out of the vault: one more session account, and the vault counts it.\<close>

lemma carried_books:
  assumes books: "ledger_books h l" and laws: "pda_laws h" and v: "vaults l k = Some v"
    and zero: "live_session_count v = 0" and none: "sessions l sk = None"
    and at: "find_program_address h (session_seeds k (sr_allowed_counterparty s)) PROGRAM_ID = Some (sk, b)"
    and nz: "sr_allowed_counterparty s \<noteq> 0" and sound: "session_sound s"
  shows "ledger_books h (put_session (put_vault l k (v\<lparr>live_session_count := 1\<rparr>)) sk (carried_session k b s))"
    (is "ledger_books h ?l")
proof -
  from books have inv: "claims_inv l" "credit_inv l" "meters_inv l" "reserve_inv h l" "sessions_inv h l"
    by (simp_all add: ledger_books_def)
  have "claims_inv ?l"
    by (rule claims_inv_frame [OF inv(1)]) (use v in \<open>auto simp: put_defs split: if_splits\<close>)
  moreover have "credit_inv ?l"
    by (rule credit_inv_write [OF inv(2), of _ k "v\<lparr>live_session_count := 1\<rparr>"])
      (use credit_invD [OF inv(2) v] in \<open>simp_all add: put_defs\<close>)
  moreover have "meters_inv ?l"
    using inv(3) sound by (auto simp: meters_inv_def put_defs carried_session_def)
  moreover have "reserve_inv h ?l"
    by (rule reserve_inv_vault [OF inv(4), of _ k "v\<lparr>live_session_count := 1\<rparr>"])
      (use v in \<open>auto simp: put_defs\<close>)
  moreover have "create_program_address h (session_seeds k (sr_allowed_counterparty s) @ [[b]])
      PROGRAM_ID = Some sk"
    using laws at by (simp add: pda_laws_def find_create_law_def)
  then have "session_placed h sk (carried_session k b s)"
    using nz by (auto simp: session_placed_def carried_session_def)
  then have "sessions_inv h ?l"
    by (intro sessions_inv_write [OF inv(5) v, where sk = sk and a = "carried_session k b s" and
          v' = "v\<lparr>live_session_count := 1\<rparr>"])
      (use none zero in \<open>auto simp: put_defs carried_session_def registered_weight_def weight_at_def\<close>)
  ultimately show ?thesis by (simp add: ledger_books_def)
qed

lemma carried_step:
  assumes "migrate_v5_to_v6_with_session h e k a auth sk (ch_sessions c sk) cp pk p = Inr (a', sa, p')"
    and "ch_vaults c k = Some a" and "books_agree h c" and laws: "pda_laws h" and "cp \<noteq> 0"
  shows "books_agree h (c\<lparr>ch_vaults := (ch_vaults c)(k \<mapsto> a'), ch_sessions := (ch_sessions c)(sk \<mapsto> sa)\<rparr>)"
    (is "books_agree h ?c")
proof -
  from assms(1) obtain v r b s where own: "ac_owner a = PROGRAM_ID"
    and d: "ac_data a = account_image (ser_vault_v5 v) @ r" "w5_version v = 5"
    and at: "find_program_address h (session_seeds k cp) PROGRAM_ID = Some (sk, b)"
    and s: "w5_active_session v = Some s" "sr_allowed_counterparty s = cp"
    and sa: "sa = carried_session k b s" and none: "ch_sessions c sk = None"
    and long: "279 \<le> length (ac_data a)"
    and rf: "refund_rent h 279 (a\<lparr>ac_data := vault_image (v6_of_v5 1 v)\<rparr>) p = Inr (a', p')"
    unfolding migrate_v5_to_v6_with_session_eq_Inr by blast
  have ok: "account_ok a" and books: "ledger_books h (view c)"
    using assms(2,3) by (auto simp: books_agree_def)
  have "version (v6_of_v5 1 v) = 6" by (simp add: v6_of_v5_def)
  note new = refunded_account [OF rf own this]
  have one: "v6_of_v5 1 v = (v6_of_v5 0 v)\<lparr>live_session_count := 1\<rparr>"
    by (simp add: v6_of_v5_def)
  have at_k: "vaults (view c) k = Some (v6_of_v5 0 v)"
    using modern_image(2) [OF own long d] assms(2) by simp
  have "session_sound s"
    using ok old_session_image(3) [OF d] s by (simp add: account_ok_def)
  then have "ledger_books h (put_session (put_vault (view c) k (v6_of_v5 1 v)) sk sa)"
    unfolding one sa
    by (intro carried_books [OF books laws at_k])
      (use none at s assms(5) in \<open>simp_all add: v6_of_v5_def\<close>)
  moreover have "view ?c = put_session (put_vault (view c) k (v6_of_v5 1 v)) sk sa"
    using new by (auto simp: put_defs intro!: ledger_eqI)
  ultimately show ?thesis
    using assms(3) new by (simp add: books_agree_def)
qed

lemma on_account_books:
  assumes "on_account k run c = Inr c'"
    and "\<And>a a' p. run a = Inr (a', p) \<Longrightarrow> account_ok a \<Longrightarrow> books_moved a a'"
    and "books_agree h c" and "pda_laws h"
  shows "books_agree h c'"
proof -
  from assms(1) obtain a a' p where a: "ch_vaults c k = Some a" "run a = Inr (a', p)"
    and c': "c' = c\<lparr>ch_vaults := (ch_vaults c)(k \<mapsto> a')\<rparr>"
    by (auto simp: result_simps)
  have "account_ok a" using assms(3) a(1) by (auto simp: books_agree_def)
  from books_moved_step [OF assms(2) [OF a(2) this] a(1) assms(3,4)] show ?thesis by (simp add: c')
qed

section \<open>Runs\<close>

text \<open>Current instructions name usable accounts and register sessions for real counterparties.\<close>

fun admissible :: "chain \<Rightarrow> program_instruction \<Rightarrow> bool" where
  "admissible c (Current ix) \<longleftrightarrow> names_usable c ix \<and> nonzero_counterparty ix"
| "admissible c (MigrateV5ToV6WithSession _ _ _ counterparty _ _) \<longleftrightarrow> counterparty \<noteq> 0"
| "admissible c _ \<longleftrightarrow> True"

lemma dispatch_books:
  assumes "dispatch h tr sw e ix c = Inr c'" and "admissible c ix" and laws: "pda_laws h"
    and agree: "books_agree h c"
  shows "books_agree h c'"
proof (cases ix)
  case (Current i)
  then have run: "run_current h sw e i c = Inr c'" and nc: "names_usable c i"
    and nz: "nonzero_counterparty i" using assms(1,2) by simp_all
  have "book h True (view c) (view c')"
    using exec_books [OF run_current_refines(1) [OF run nc]] nz by blast
  then have "ledger_books h (view c')"
    using ledger_books_book laws agree by (auto simp: books_agree_def)
  moreover have "account_ok a" if "ch_vaults c' k = Some a" for k a
    using run_current_refines(2) [OF run nc, of k] that agree account_ok_usable
    by (auto simp: books_agree_def)
  ultimately show ?thesis by (simp add: books_agree_def)
next
  case (MigrateV5ToV6WithSession k auth sk cp pk p)
  then show ?thesis
    using assms(1,2) carried_step [OF _ _ agree laws] by (auto simp: result_simps)
next
  case (MigrateV2ToV3 k auth pk p)
  with assms(1) show ?thesis
    by (auto elim!: on_account_books [OF _ _ agree laws] moved_v2_to_v3)
next
  case (MigrateV3ToV4 k auth pk p)
  with assms(1) show ?thesis
    by (auto elim!: on_account_books [OF _ _ agree laws] moved_v3_to_v4)
next
  case (MigrateV4ToV5 k auth pk p)
  with assms(1) show ?thesis
    by (auto elim!: on_account_books [OF _ _ agree laws] moved_v4_to_v5)
next
  case (MigrateV5ToV6 k auth pk p)
  with assms(1) show ?thesis
    by (auto elim!: on_account_books [OF _ _ agree laws] moved_v5_to_v6)
next
  case (MigrateLegacyToV6 k auth pk p)
  with assms(1) show ?thesis
    by (auto elim!: on_account_books [OF _ _ agree laws] moved_legacy)
qed

inductive chain_step :: "host \<Rightarrow> transfer \<Rightarrow> swig_world \<Rightarrow> chain \<Rightarrow> chain \<Rightarrow> bool" for h tr sw where
  "\<lbrakk> admissible c ix; dispatch h tr sw e ix c = Inr c' \<rbrakk> \<Longrightarrow> chain_step h tr sw c c'"

inductive_cases chain_stepE: "chain_step h tr sw c c'"

lemma chain_books:
  assumes "(chain_step h tr sw)\<^sup>*\<^sup>* c c'" and "pda_laws h" and "books_agree h c"
  shows "books_agree h c'"
  using assms by (induction rule: rtranclp_induct) (auto elim!: chain_stepE intro: dispatch_books)

text \<open>What an upgrade finds: vault accounts of older programs, their sessions within the meters, nothing
  locked, borrowed or promised, and no other account.\<close>

definition before_upgrade :: "chain \<Rightarrow> bool" where
  "before_upgrade c \<longleftrightarrow>
     finite (dom (ch_vaults c)) \<and> ch_sessions c = (\<lambda>_. None) \<and> ch_claims c = (\<lambda>_. None) \<and>
     ch_backers c = (\<lambda>_. None) \<and>
     (\<forall>k a. ch_vaults c k = Some a \<longrightarrow> account_ok a \<and>
        (\<forall>v. modern a = Some v \<longrightarrow> fresh_books v))"

lemma before_upgrade_books:
  assumes "before_upgrade c"
  shows "books_agree h c"
proof -
  have fresh: "fresh_books v" if "vaults (view c) k = Some v" for k v
    using assms that by (auto simp: before_upgrade_def bind_eq_Some_conv)
  have "dom (vaults (view c)) \<subseteq> dom (ch_vaults c)" by (auto simp: bind_eq_Some_conv)
  then have fin: "finite (dom (vaults (view c)))"
    using assms finite_subset by (auto simp: before_upgrade_def)
  have rest: "sessions (view c) = (\<lambda>_. None)" "claims (view c) = (\<lambda>_. None)"
    "backers (view c) = (\<lambda>_. None)"
    using assms by (simp_all add: before_upgrade_def)
  have "ledger_books h (view c)"
    using fresh fin unfolding ledger_books_def claims_inv_def credit_inv_def meters_inv_def
      reserve_inv_def sessions_inv_def rest
    by (auto simp: fresh_books_def credit_ok_def pending_total_def registered_total_def rest
        simp del: view_sel)
  then show ?thesis using assms by (simp add: books_agree_def before_upgrade_def)
qed

section \<open>Accounts that are not usable\<close>

text \<open>What the current struct reads where a generation-5 vault keeps its session: the key's bytes for
  the four totals, the cap and expiry for the credit fields.\<close>

definition misread :: "vault_v5 \<Rightarrow> session_registration \<Rightarrow> vault" where
  "misread v s =
     (let key = to_list (sr_session_pubkey s) in
      (v6_of_v5 1 v)\<lparr>version := w5_version v,
        outstanding_locked_amount := le_word (take 8 key),
        total_crystallized_amount := le_word (take 8 (drop 8 key)),
        total_settled_amount := le_word (take 8 (drop 16 key)),
        borrowed := le_word (drop 24 key), standby_backer := None,
        standby_cap := le_word (drop 1 (le_bytes 8 (sr_max_amount s)) @ take 1 (le_bytes 8 (sr_expires_at s))),
        borrow_recovery_at := None\<rparr>)"

lemma misread_bytes:
  assumes "w5_active_session v = Some s"
    and "le_bytes 8 (sr_max_amount s) ! 0 = 0" and "le_bytes 8 (sr_expires_at s) ! 1 = 0"
  shows "\<exists>r. ser_vault_v5 v = ser_vault (misread v s) @ r"
proof -
  define key where "key = to_list (sr_session_pubkey s)"
  define m where "m = le_bytes 8 (sr_max_amount s)"
  define x where "x = le_bytes 8 (sr_expires_at s)"
  have len: "length key = 32" "length m = 8" "length x = 8" by (simp_all add: key_def m_def x_def)
  have split: "drop 8 key = take 8 (drop 8 key) @ drop 16 key" "drop 16 key = take 8 (drop 16 key) @ drop 24 key"
    using append_take_drop_id [of 8 "drop 8 key"] append_take_drop_id [of 8 "drop 16 key"] by simp_all
  have totals: "key = le_bytes 8 (outstanding_locked_amount (misread v s)) @
      le_bytes 8 (total_crystallized_amount (misread v s)) @
      le_bytes 8 (total_settled_amount (misread v s)) @ le_bytes 8 (borrowed (misread v s))"
    using append_take_drop_id [of 8 key] split
    by (simp add: misread_def Let_def key_def [symmetric] le_bytes_le_word len)
  have m: "m = 0 # drop 1 m" using Cons_nth_drop_Suc [of 0 m] assms(2) len by (simp add: m_def)
  have x: "x = take 1 x @ 0 # drop 2 x"
    using id_take_nth_drop [of 1 x] assms(3) len by (simp add: x_def numeral_2_eq_2)
  have cap: "le_bytes 8 (standby_cap (misread v s)) = drop 1 m @ take 1 x"
    by (simp add: misread_def Let_def m_def [symmetric] x_def [symmetric] le_bytes_le_word len)
  have rest: "standby_backer (misread v s) = None" "borrow_recovery_at (misread v s) = None"
    by (simp_all add: misread_def Let_def)
  let ?books = "\<lambda>r. le_bytes 8 (outstanding_locked_amount (misread v s)) @
      le_bytes 8 (total_crystallized_amount (misread v s)) @
      le_bytes 8 (total_settled_amount (misread v s)) @ le_bytes 8 (borrowed (misread v s)) @
      ser_option to_list (standby_backer (misread v s)) @ le_bytes 8 (standby_cap (misread v s)) @
      ser_option (le_bytes 8) (borrow_recovery_at (misread v s)) @ r"
  have "\<exists>r. ser_session_registration s = ?books r"
    unfolding rest cap ser_session_registration_def key_def [symmetric] m_def [symmetric] x_def [symmetric]
    by (subst m, subst x, subst totals) simp
  then obtain r where r: "ser_session_registration s = ?books r" by blast
  have same: "version (misread v s) = w5_version v" "bump (misread v s) = w5_bump v"
    "passkey_pubkey (misread v s) = w5_passkey_pubkey v" "swig_address (misread v s) = w5_swig_address v"
    "cooling_off_seconds (misread v s) = w5_cooling_off_seconds v"
    "pending_voucher_count (misread v s) = w5_pending_voucher_count v"
    "pending_withdrawal (misread v s) = w5_pending_withdrawal v"
    "identity_claim (misread v s) = w5_identity_claim v"
    "dexter_authority (misread v s) = w5_dexter_authority v" "live_session_count (misread v s) = 1"
    by (simp_all add: misread_def Let_def v6_of_v5_def)
  show ?thesis
    unfolding ser_vault_v5_def ser_vault_def assms(1) ser_option.simps r same by simp
qed

end
