(* ===== verification/Generation_Properties.thy ===== *)
theory Generation_Properties
  imports Migration_Properties Generations
begin

text \<open>Properties of the program over vault accounts of all generations.\<close>

section \<open>The books\<close>

text \<open>C31: along every run of admissible steps from accounts whose books agree, and under the address
  laws, every usable vault reserves the sum of its pending claims, counts its registered sessions, and
  owes no more than its standby cap. Admissible are all six migrations and the current instructions on
  usable accounts, in any order, as long as sessions are registered or carried over for counterparties
  other than the default key; left out are the accounts of generation 5 with a session, on which the
  current instructions misread the bytes (C38), until they are migrated. The books of what an upgrade
  finds agree when nothing is locked or borrowed yet (\<open>before_upgrade_books\<close>).\<close>

theorem books_across_generations:
  assumes "pda_laws h" and "books_agree h c" and "(chain_step h tr sw)\<^sup>*\<^sup>* c c'"
    and "ch_vaults c' k = Some a" and "usable a" and "anchor_load a = Some v"
  shows "unat (outstanding_locked_amount v) = pending_total (view c') k \<and>
    unat (live_session_count v) = card (registered_keys (view c') k) \<and>
    borrowed v \<le> standby_cap v"
proof -
  have books: "ledger_books h (view c')"
    using chain_books [OF assms(3,1,2)] by (simp add: books_agree_def)
  then have inv: "claims_inv (view c')" "credit_inv (view c')" "sessions_inv h (view c')"
    by (simp_all add: ledger_books_def)
  have v: "vaults (view c') k = Some (six v)"
    using modern_usable [OF assms(5)] assms(4,6) by auto
  have "credit_ok (six v)" by (rule credit_invD [OF inv(2) v])
  then show ?thesis
    using claims_invD(4) [OF inv(1) v] sessions_invD(4) [OF inv(3) v]
      registered_total_card(1) [OF sessions_invD(1) [OF inv(3)]]
    by (simp add: credit_ok_def del: view_sel)
qed

definition one_vault :: "raw_account \<Rightarrow> chain" where
  "one_vault a = \<lparr> ch_vaults = [V \<mapsto> a], ch_sessions = \<lambda>_. None, ch_claims = \<lambda>_. None,
     ch_backers = \<lambda>_. None \<rparr>"

definition CARRIED :: chain where
  "CARRIED = (one_vault B6)\<lparr>ch_sessions := [SESS \<mapsto> carried_session V 255 (sa_session S0)]\<rparr>"

lemma B5_data: "ac_owner B5 = PROGRAM_ID" "ac_data B5 = account_image (ser_vault_v5 W5) @ []"
  "w5_version W5 = 5" "w5_active_session W5 = Some (sa_session S0)"
  by (simp_all add: B5_def W5_def v5_of_v4_def)

lemma B5_before: "before_upgrade (one_vault B5)"
proof -
  have long: "279 \<le> length (ac_data B5)"
    using sample_v5_to_v6_session unfolding migrate_v5_to_v6_with_session_eq_Inr by blast
  have "modern B5 = Some (v6_of_v5 0 W5)"
    by (rule modern_image(2) [OF B5_data(1) long B5_data(2,3)])
  moreover have "fresh_books (v6_of_v5 0 W5)"
    by (simp add: fresh_books_def v6_of_v5_def W5_def v5_of_v4_def v4_of_v3_def)
  moreover have "session_sound (sa_session S0)" by (simp add: S0_def)
  then have "account_ok B5"
    using old_session_image(3) [OF B5_data(2,3)] B5_data(4) long by (simp add: account_ok_def)
  ultimately show ?thesis by (simp add: before_upgrade_def one_vault_def)
qed

lemma B6_loaded: "usable B6" "anchor_load B6 = Some (v6_of_v5 1 W5)"
proof -
  have "ac_owner B6 = PROGRAM_ID" "ac_data B6 = vault_image (v6_of_v5 1 W5)"
    by (simp_all add: B6_def B5_def)
  moreover obtain n where "vault_image (v6_of_v5 1 W5) =
      account_image (ser_vault (v6_of_v5 1 W5)) @ replicate n 0" using vault_image_pad by blast
  ultimately show "anchor_load B6 = Some (v6_of_v5 1 W5)" by (auto simp: anchor_load_iff)
  then show "usable B6" by (simp add: usable_def v6_of_v5_def B6_def)
qed

lemma sample_carries:
  "chain_step sample_host sample_transfer sample_swig (one_vault B5) CARRIED"
proof (rule chain_step.intros)
  show "admissible (one_vault B5) (MigrateV5ToV6WithSession V AUTH SESS SELLER AUTH 9)"
    by (simp add: SELLER_def)
  show "dispatch sample_host sample_transfer sample_swig (plain_env 1000)
      (MigrateV5ToV6WithSession V AUTH SESS SELLER AUTH 9) (one_vault B5) = Inr CARRIED"
    using sample_v5_to_v6_session by (simp add: one_vault_def CARRIED_def)
qed

theorem books_across_generations_witness: "card (registered_keys (view CARRIED) V) = 1"
  using books_across_generations [OF sample_laws before_upgrade_books [OF B5_before]
      r_into_rtranclp [of "chain_step sample_host sample_transfer sample_swig"],
      OF sample_carries, of V B6] B6_loaded
  by (simp add: CARRIED_def one_vault_def v6_of_v5_def)

section \<open>Bytes and ledger\<close>

text \<open>C37: on a usable account, of the current generation or of generation 5 without a session, loading
  the bytes, running an instruction and writing the struct back is the instruction of the typed ledger,
  and no other vault account changes.\<close>

theorem usable_accounts_refine:
  assumes "dispatch h tr sw e (Current ix) c = Inr c'" and "names_usable c ix"
  shows "exec h sw e ix (view c) = Inr (view c') \<and>
    (named_vault ix = Some k \<or> ch_vaults c' k = ch_vaults c k)"
  using run_current_refines(1) run_current_frame assms by fastforce

text \<open>A withdrawal from the only vault of a chain.\<close>

lemma finalize_bytes:
  assumes "anchor_load a = Some w" and "279 \<le> length (ac_data a)"
    and "finalize_withdrawal h e w accs args = Inr w'"
  shows "\<exists>a'. anchor_store w' a = Inr a' \<and>
    dispatch h tr sw e (Current (FinalizeWithdrawal V accs args)) (one_vault a) = Inr (one_vault a')"
proof -
  have fits: "length (account_image (ser_vault w')) \<le> length (ac_data a)"
    using length_ser_vault [of w'] assms(2) by (simp add: space_defs)
  then obtain a' where a': "anchor_store w' a = Inr a'"
    unfolding anchor_store_def write_image_eq_Inr by blast
  have "vaults (loaded (one_vault a)) V = Some w" using assms(1) by (simp add: one_vault_def)
  with assms(3) have "exec h sw e (FinalizeWithdrawal V accs args) (loaded (one_vault a)) =
      Inr (put_vault (loaded (one_vault a)) V w')"
    by (simp add: on_vault_def load_def del: view_sel)
  with a' have "dispatch h tr sw e (Current (FinalizeWithdrawal V accs args)) (one_vault a) =
      Inr (one_vault a')"
    by (simp add: run_current_def put_vault_def store_vault_def one_vault_def)
  with a' show ?thesis by blast
qed

definition finalize_env :: tx_env where
  "finalize_env = passkey_env (OpFinalizeWithdrawal 300 SELLER) 1100"

lemma finalize_vault:
  assumes "passkey_pubkey w = PASSKEY" and "swig_address w = SWIG" and "cooling_off_seconds w = 60"
    and "pending_voucher_count w = 0" and "pending_withdrawal w = Some PW"
    and "any_supported_version (version w)" and "outstanding_locked_amount w = 0" and "borrowed w = 0"
  shows "finalize_withdrawal sample_host finalize_env w finalize_accs finalize_args =
    Inr (w\<lparr>pending_withdrawal := None\<rparr>)"
  using assms sample_authorized [of "OpFinalizeWithdrawal 300 SELLER" 1100]
  by (simp add: finalize_withdrawal_eq_Inr withdrawal_gate_def finalize_accs_def finalize_args_def
      PW_def finalize_env_def)

definition U5 :: vault where
  "U5 = (v6_of_v5 0 (v5_of_v4 (v4_of_v3 W3)))\<lparr>version := 5\<rparr>"

lemma A5_loaded: "anchor_load A5 = Some U5" "usable A5"
proof -
  have same: "w5_version (v5_of_v4 w) = 5" "v5_of_v6 U5 = v5_of_v4 (v4_of_v3 W3)" for w
    by (simp_all add: U5_def v5_of_v6_def v6_of_v5_def v5_of_v4_def v4_of_v3_def)
  have "live_session_count U5 = 0" by (simp add: U5_def v6_of_v5_def)
  then have "ser_vault U5 = ser_vault_v5 (v5_of_v4 (v4_of_v3 W3))"
    using sessionless_bytes(1) [of U5] same(2) by simp
  then show "anchor_load A5 = Some U5"
    by (auto simp: anchor_load_iff) (simp add: A5_def overwrite_def)
  then show "usable A5" by (simp add: usable_def U5_def v6_of_v5_def)
qed

theorem usable_accounts_refine_witness:
  "\<exists>a. exec sample_host sample_swig finalize_env (FinalizeWithdrawal V finalize_accs finalize_args)
    (view (one_vault A5)) = Inr (view (one_vault a))"
proof -
  have "finalize_withdrawal sample_host finalize_env U5 finalize_accs finalize_args =
      Inr (U5\<lparr>pending_withdrawal := None\<rparr>)"
    by (rule finalize_vault) (simp_all add: U5_def v6_of_v5_def v5_of_v4_def v4_of_v3_def W3_def
        any_supported_version_def)
  from finalize_bytes [OF A5_loaded(1) _ this, of sample_transfer sample_swig]
  obtain a' where run: "dispatch sample_host sample_transfer sample_swig finalize_env
      (Current (FinalizeWithdrawal V finalize_accs finalize_args)) (one_vault A5) = Inr (one_vault a')"
    by auto
  have "names_usable (one_vault A5) (FinalizeWithdrawal V finalize_accs finalize_args)"
    using A5_loaded(2) by (simp add: names_usable_def one_vault_def)
  from usable_accounts_refine [OF run this] show ?thesis by blast
qed

section \<open>Where the layouts are confused\<close>

text \<open>C38: a generation-5 vault with a session is not rejected. When the low byte of the session's cap
  and the second byte of its expiry are zero, the current struct reads over it: the first and last
  eight bytes of the session key, which the buyer chose, count as the locked claims and the loan, and
  the instructions that accept version 5 go by these.\<close>

theorem session_key_read_as_totals:
  assumes "w5_version v = 5" and "w5_active_session v = Some s"
    and "le_bytes 8 (sr_max_amount s) ! 0 = 0" and "le_bytes 8 (sr_expires_at s) ! 1 = 0"
    and "ac_owner a = PROGRAM_ID" and "ac_data a = account_image (ser_vault_v5 v) @ r"
  shows "\<exists>w. anchor_load a = Some w \<and> any_supported_version (version w) \<and> credit_version (version w) \<and>
    passkey_pubkey w = w5_passkey_pubkey v \<and> swig_address w = w5_swig_address v \<and>
    cooling_off_seconds w = w5_cooling_off_seconds v \<and>
    pending_voucher_count w = w5_pending_voucher_count v \<and>
    pending_withdrawal w = w5_pending_withdrawal v \<and>
    outstanding_locked_amount w = le_word (take 8 (to_list (sr_session_pubkey s))) \<and>
    borrowed w = le_word (drop 24 (to_list (sr_session_pubkey s)))"
proof -
  obtain q where "ser_vault_v5 v = ser_vault (misread v s) @ q"
    using misread_bytes [OF assms(2-4)] by blast
  then have "ac_data a = account_image (ser_vault (misread v s)) @ q @ r"
    using assms(6) by (simp add: account_image_def)
  then have "anchor_load a = Some (misread v s)" using assms(5) anchor_load_iff by blast
  then show ?thesis using assms(1)
    by (intro exI [of _ "misread v s"])
      (simp add: misread_def Let_def v6_of_v5_def any_supported_version_def credit_version_def)
qed

text \<open>900 are locked and the wallet holds 1000; with a session whose key is all zeros 300 are released.\<close>

definition ZS :: session_registration where
  "ZS = \<lparr> sr_session_pubkey = 0, sr_max_amount = 512, sr_expires_at = 200,
     sr_allowed_counterparty = SELLER, sr_nonce = 1, sr_spent = 0, sr_current_outstanding = 0,
     sr_max_revolving_capacity = 500, sr_crystallized_cumulative = 0, sr_last_locked_sequence = 0 \<rparr>"

definition Z5 :: vault_v5 where
  "Z5 = (v5_of_v4 (v4_of_v3 W3))\<lparr>w5_outstanding_locked_amount := 900, w5_active_session := Some ZS\<rparr>"

definition Z5_ACCOUNT :: raw_account where
  "Z5_ACCOUNT = \<lparr> ac_owner = PROGRAM_ID, ac_data = account_image (ser_vault_v5 Z5) @ replicate 300 0,
     ac_lamports = 5000 \<rparr>"

lemma ZS_bytes: "le_bytes 8 (sr_max_amount ZS) ! 0 = 0" "le_bytes 8 (sr_expires_at ZS) ! 1 = 0"
  by (simp_all add: ZS_def le_bytes_numeral)

lemma le_word_zeros: "le_word (replicate n 0) = 0"
  by (induction n) simp_all

lemma ZS_totals: "le_word (take 8 (to_list (sr_session_pubkey ZS))) = (0 :: u64)"
  "le_word (drop 24 (to_list (sr_session_pubkey ZS))) = (0 :: u64)"
  by (simp_all only: ZS_def session_registration.select_convs to_list_zero take_replicate
      drop_replicate le_word_zeros)

lemma Z5_sel [simp]: "w5_version Z5 = 5" "w5_outstanding_locked_amount Z5 = 900"
  "w5_passkey_pubkey Z5 = PASSKEY" "w5_swig_address Z5 = SWIG" "w5_cooling_off_seconds Z5 = 60"
  "w5_pending_voucher_count Z5 = 0" "w5_pending_withdrawal Z5 = Some PW"
  "w5_active_session Z5 = Some ZS"
  by (simp_all add: Z5_def v5_of_v4_def v4_of_v3_def W3_def)

theorem session_key_read_as_totals_witness:
  "w5_outstanding_locked_amount Z5 = 900 \<and>
   (\<exists>c'. dispatch sample_host sample_transfer sample_swig finalize_env
      (Current (FinalizeWithdrawal V finalize_accs finalize_args)) (one_vault Z5_ACCOUNT) = Inr c')"
proof -
  have acc: "ac_owner Z5_ACCOUNT = PROGRAM_ID"
    "ac_data Z5_ACCOUNT = account_image (ser_vault_v5 Z5) @ replicate 300 0"
    by (simp_all add: Z5_ACCOUNT_def)
  from session_key_read_as_totals [OF Z5_sel(1,8) ZS_bytes acc, unfolded Z5_sel ZS_totals]
  obtain w where w: "anchor_load Z5_ACCOUNT = Some w" "any_supported_version (version w)"
    "passkey_pubkey w = PASSKEY" "swig_address w = SWIG" "cooling_off_seconds w = 60"
    "pending_voucher_count w = 0" "pending_withdrawal w = Some PW"
    "outstanding_locked_amount w = 0" "borrowed w = 0" by blast
  have "279 \<le> length (ac_data Z5_ACCOUNT)" by (simp add: acc(2))
  from finalize_bytes [OF w(1) this finalize_vault [OF w(3-7,2,8,9)], of sample_transfer sample_swig]
  show ?thesis using Z5_sel(2) by blast
qed

end
