(* ===== verification/Spec2Isabelle.thy ===== *)
theory Spec2Isabelle
  imports Ledger_Properties Voucher_Properties Passkey_Properties Account_Properties
    Generation_Properties
begin

text \<open>
  A verification development for the Solana program dexter-vault
  (\<open>programs/dexter-vault/src\<close>, Rust with Anchor).

  \<^bold>\<open>The program.\<close> A vault belongs to a buyer, who controls it by a WebAuthn passkey, and is bound to
  a Swig wallet that holds USDC. The program moves no tokens: each instruction checks and records
  what a following Swig transfer relies on. A buyer requests, finalizes and unblocks withdrawals;
  registers session keys, which may sign vouchers up to a cap; a session's vouchers are settled
  (\<open>settle_tab_voucher\<close>) or locked into claims (\<open>lock_voucher\<close>) that their holder settles later or the
  buyer recovers; a financier promises credit to vaults out of a committed reserve, and a vault draws,
  repays or defaults. Old account layouts are migrated by instructions of their own.

  \<^bold>\<open>The theories and what they model.\<close>
  \<^item> \<open>Vault_Prelude\<close>, \<open>Byte_Arrays\<close>, \<open>Map_Sums\<close>: results with early return, integers at their width
    with checked and saturating operations, \<open>[u8; N]\<close>, little-endian bytes, totals over maps.
  \<^item> \<open>Vault_Types\<close>: \<open>state.rs\<close>, \<open>constants.rs\<close>: the account structs as records, the errors.
  \<^item> \<open>Host\<close>: what the program takes from outside: hash, address derivation, rent (record \<open>host\<close>), and
    clock, signers, instructions sysvar and token accounts of a transaction (record \<open>tx_env\<close>).
  \<^item> \<open>Precompile\<close>, \<open>Webauthn\<close>: \<open>verify/ed25519.rs\<close>, \<open>verify/webauthn.rs\<close>. \<open>Passkey_Messages\<close>: the
    messages that the handlers build, one constructor of \<open>passkey_op\<close> per operation.
  \<^item> \<open>Vault_Admin\<close>, \<open>Withdrawal\<close>, \<open>Sessions\<close>, \<open>Tabs\<close>, \<open>Locked_Claims\<close>, \<open>Credit\<close>: the handlers of
    \<open>instructions/*.rs\<close>. For an instruction \<open>foo\<close>, \<open>foo_handler\<close> is the body of the Rust handler and
    \<open>foo\<close> puts the constraints of its accounts struct before it, in Anchor's order.
  \<^item> \<open>Swig_Atomic\<close>: \<open>swig_compat.rs\<close> and \<open>set_swig_atomic.rs\<close>, byte by byte.
  \<^item> \<open>Ledger\<close>: \<open>lib.rs\<close>: the accounts the program owns, the instruction set and \<open>exec\<close>; runs are
    \<open>ledger_step\<close> and \<open>reachable\<close>, fixed sequences of transactions \<open>exec_all\<close>.
  \<^item> \<open>Borsh\<close>, \<open>Layouts\<close>, \<open>Migrations\<close>: the byte formats of every generation and the six migrations
    over raw account bytes and lamports.
  \<^item> \<open>Chain\<close>: \<open>lib.rs\<close> again, all thirty entry points over vault accounts as bytes of any generation
    (\<open>dispatch\<close>), with Anchor's load before and store after a current instruction.

  \<^bold>\<open>The specifications and what the lemmas show.\<close>
  \<^item> \<open>Books\<close> has the bookkeeping machine \<open>book\<close>: fourteen rules over the accounting fields, with no
    passkeys, signatures or messages; the life of a claim is given by rules of its own (\<open>claim_step\<close>).
    Every current instruction is one of its steps (C5), and the invariants of \<open>Ledger_Invariants\<close> are
    proved over it: counters and totals agree with the accounts (C6 to C8), meters and loans stay within
    their caps (C9, C10), claims are well formed (C11, C12). C1 and C7 are about runs in which no
    session is registered for the default counterparty, the others about every run of \<open>exec\<close>.
  \<^item> \<open>Admission\<close>: the overcommit gate of \<open>register_session_key\<close> reaches its aim on the ledger (C1).
  \<^item> \<open>Control\<close>: who consents to which change of a vault (C2, C3, C26), that a voucher's range is spent
    once until the session is registered again (C13), and that a loan is not seized before the window of
    its first draw is over (C28).
  \<^item> \<open>Swig_Atomic\<close>: the calls to the Swig program byte by byte, and that the builders produce them (C29).
  \<^item> \<open>Panic_Freedom\<close>: no arithmetic overflow, index or failed search aborts one of the thirty entry
    points (C30).
  \<^item> \<open>Migration_Laws\<close>: when each migration succeeds and what it leaves (C32 to C36).
  \<^item> \<open>Version_Five\<close>, \<open>Chain\<close>, \<open>Generations\<close>: on usable accounts the bytes refine the ledger (C37), and
    the books agree along every run of migrations and instructions (C31): the view of an account is
    the vault the migrations make of it, so that a migration is a step of \<open>book\<close> (the one that carries
    a live session over adds that session). The current instructions of such a run act on usable
    accounts; the accounts of generation 5 with a session are left out, which is where C38 applies.
  \<^item> \<open>Legacy_Fixtures\<close>: the unit tests of \<open>migrate_legacy_to_v6.rs\<close>, over the two accounts they quote
    from the main network, as truth values that are proved to hold in the model.
  \<^item> \<open>Sample\<close>, \<open>Sample_Runs\<close>: a concrete world in which the properties with hypotheses are exercised.
  \<^item> The \<open>*_Properties\<close> theories and this one state the properties, C1 to C40. C36 and C38 to C40
    are about where the checks of the program end, and so are the lemmas \<open>overcommit_bypass\<close>,
    \<open>mint_unchecked\<close>, \<open>force_release_again\<close> and \<open>lock_counts_settled_range\<close>.

  \<^bold>\<open>Interfaces.\<close> \<open>borsh_codec\<close> (a serializer and its deserializer), \<open>passkey_gated\<close> (an instruction that
  needs a ceremony), \<open>voucher_spend\<close> and \<open>voucher_pair\<close> (the two consumers of vouchers and that they
  exclude each other), \<open>ledger_invariant\<close> (an invariant of \<open>exec\<close> and its consequences for runs); each
  is interpreted on the definitions of the program.

  \<^bold>\<open>Assumed of code outside the repository\<close>, as hypotheses of the theorems that need it: an address
  that was found is created by the same seeds and the bump (\<open>find_create_law\<close>), different seeds give
  different addresses (\<open>address_injective\<close>), a transfer moves its amount (\<open>transfer_law\<close>), the layouts
  of the Swig crate have their declared lengths (\<open>swig_layout\<close>, \<open>small_layout\<close>), the search for an
  address succeeds (\<open>bump_found\<close>), a failed transfer is an error (\<open>transfer_returns\<close>) and refunded
  lamports fit in a balance (\<open>refunds_fit\<close>), SHA-256 does not collide on two given messages.

  \<^bold>\<open>Termination.\<close> There is no fuel. The loops are structural recursions over the bytes or accounts they
  walk, except the two scanning loops of \<open>extract_challenge_from_client_data\<close>, which recurse over an
  index with a measure and are also given as the \<open>while\<close> loops of the source (C19).

  \<^bold>\<open>Not modelled.\<close> The Swig, SPL Token and System programs and the Solana runtime beyond the parameters
  above; the rent of the accounts that Anchor creates, and their owner check outside \<open>Chain\<close> (a ledger
  holds only accounts of the program); the balances of payers between transactions (a migration is given
  its payer's lamports); the \<open>mut\<close> flags except those of the siblings the overcommit gate checks;
  compute limits, logs and events; the TypeScript clients, scripts and integration tests.
  Generation 2 of the vault has no struct left in the source; its layout is a hypothesis of C36
  (\<open>standard_v2\<close>).
\<close>

section \<open>Properties that span the components\<close>

text \<open>C1: in a run of the current instructions whose registrations name a counterparty other than the
  default key, and under the address laws, a registration passes as its siblings all the other
  registered sessions of the vault, the token account it shows is owned by the wallet of the vault's
  swig, and after it the caps of the live sessions and the outstanding claims fit in that account's
  balance. (Registrations of the default counterparty escape this, lemma \<open>overcommit_bypass\<close>.)\<close>

theorem registration_covered:
  assumes "pda_laws h" and "reachable h sw nonzero_counterparty l"
    and "exec h sw e (RegisterSessionKey accs args) l = Inr l'"
    and "vaults l' (rg_vault accs) = Some v'"
  shows "\<exists>ata. tokens e (rg_usdc_ata accs) = Some ata \<and>
    seeds_canonical h (swig_wallet_seeds (swig_address v')) SWIG_PROGRAM_ID (ta_owner ata) \<and>
    live_total l' (rg_vault accs) (now e) + unat (outstanding_locked_amount v')
      \<le> unat (ta_amount ata) \<and>
    sib_key ` set (siblings_of l (rg_siblings accs)) =
      registered_keys l (rg_vault accs) - {rg_session accs}"
proof -
  from register_wallet [OF assms(3,4)] obtain ata where
    "tokens e (rg_usdc_ata accs) = Some ata"
    "seeds_canonical h (swig_wallet_seeds (swig_address v')) SWIG_PROGRAM_ID (ta_owner ata)"
    by blast
  with register_admission [OF reachable_sessions [OF assms(1,2)] assms(1,3) this(1) assms(4)]
  show ?thesis by blast
qed

theorem registration_covered_witness:
  "live_total L8 V 1500 + 100 \<le> 1000 \<and> registered_keys L4 V - {SESS2} = {SESS}"
  using registration_covered [OF sample_laws sample_reachable(4) sample_register2, of
      "V3\<lparr>live_session_count := 2\<rparr>"]
  by (simp add: L8_def siblings_of_def)

text \<open>C2: none of the twenty-four current instructions (the six migrations are the subject of C32 to
  C36) deletes a vault or changes its version, identity or cooling-off period; its passkey changes only
  with a ceremony of the current passkey over the new one, its swig only from unset and with a ceremony
  over the new address, its authority only with the current authority's signature, and its pending
  withdrawal only with a ceremony over what is requested or released.\<close>

theorem vault_control:
  assumes "exec h sw e ix l = Inr l'" and "vaults l k = Some v"
  shows "\<exists>v'. vaults l' k = Some v' \<and> version v' = version v \<and>
    identity_claim v' = identity_claim v \<and> cooling_off_seconds v' = cooling_off_seconds v \<and>
    (passkey_pubkey v' \<noteq> passkey_pubkey v \<longrightarrow>
       passkey_signs h e v (OpRotatePasskey (passkey_pubkey v'))) \<and>
    (swig_address v' \<noteq> swig_address v \<longrightarrow>
       swig_address v = 0 \<and> passkey_signs h e v (OpSetSwig (swig_address v'))) \<and>
    (dexter_authority v' \<noteq> dexter_authority v \<longrightarrow>
       dexter_authority v \<in> set (signers e) \<and> dexter_authority v' \<noteq> 0) \<and>
    (pending_withdrawal v' \<noteq> pending_withdrawal v \<longrightarrow>
       withdrawal_consent h e v (pending_withdrawal v'))"
  using exec_controlled [OF assms(1)] assms(2) unfolding controlled_def control_step_def by blast

theorem vault_control_witness:
  "passkey_signs sample_host (passkey_env (OpSetSwig SWIG) 1000) V0 (OpSetSwig SWIG)"
proof -
  have "vaults L1 V = Some V0" by (simp add: L1_def)
  from vault_control [OF sample_set_swig this] show ?thesis
    by (auto simp: L2_def V1_def V0_def SWIG_def)
qed

text \<open>C3: an instruction the passkey gates succeeds only with a ceremony of the vault's passkey over the
  message of exactly that operation with exactly its parameters: the previous instruction is a
  P-256 precompile call showing the vault's key and the ceremony's bytes, and the challenge in the
  client data is the hash of the message.\<close>

theorem passkey_gates_hold:
  assumes "exec h sw e ix l = Inr l'" and "needs_passkey ix"
  shows "\<exists>k x cdj ad v pre enc. passkey_demand ix l = Some (k, x, cdj, ad) \<and> vaults l k = Some v \<and>
    37 \<le> length ad \<and> previous_instruction (sysvar e) = Some pre \<and>
    ti_program_id pre = SECP256R1_VERIFY_PROGRAM_ID \<and>
    shows_key_and_message 33 (ti_data pre) (to_list (passkey_pubkey v))
      (ad @ to_list (sha256 h cdj)) \<and>
    challenge_field cdj enc \<and> base64url_decode enc = Inr (to_list (sha256 h (op_message x)))"
proof -
  from gated_demand [OF assms] obtain k x cdj ad where
    d: "passkey_demand ix l = Some (k, x, cdj, ad)" by blast
  from exec_authorized [OF assms(1) this] d show ?thesis
    unfolding authorized_by_def passkey_authorized_def by blast
qed

theorem passkey_gates_hold_witness:
  "\<exists>enc. challenge_field (client_of (OpSetSwig SWIG)) enc \<and>
     base64url_decode enc = Inr (to_list (sample_hash (op_message (OpSetSwig SWIG))))"
  using passkey_gates_hold [OF sample_set_swig] by (auto simp: swig_args_def)

text \<open>C4: on every reachable ledger a withdrawal that is released leaves the wallet enough for all the
  pending claims of the vault and for its loan, had been requested for the amount that is released,
  and its cooling-off is over.\<close>

theorem withdrawal_keeps_reserve:
  assumes "reachable h sw allowed l"
    and "exec h sw e (FinalizeWithdrawal k accs args) l = Inr l'"
  shows "\<exists>v p ata. vaults l k = Some v \<and> pending_withdrawal v = Some p \<and>
    tokens e (fw_usdc_ata accs) = Some ata \<and> ta_owner ata = fw_swig_wallet accs \<and>
    unat (pw_amount p) + pending_total l k + unat (borrowed v) \<le> unat (ta_amount ata) \<and>
    pending_voucher_count v = 0 \<and>
    (cooling_off_seconds v = 0 \<or>
       sint (pw_requested_at p) + uint (cooling_off_seconds v) \<le> sint (now e)) \<and>
    passkey_signs h e v (OpFinalizeWithdrawal (pw_amount p) (pw_destination p))"
proof -
  from assms(2) obtain v p ata where v: "vaults l k = Some v"
    and p: "pending_withdrawal v = Some p" "tokens e (fw_usdc_ata accs) = Some ata"
      "ta_owner ata = fw_swig_wallet accs" and g: "withdrawal_gate h e v p ata args"
    by (auto simp: result_simps finalize_withdrawal_eq_Inr)
  have "unat (outstanding_locked_amount v) = pending_total l k"
    by (rule claims_invD(4) [OF claims_books.inv_reachable [OF reachable_any [OF assms(1)]] v])
  with v p g show ?thesis
    by (intro exI [of _ v] exI [of _ p] exI [of _ ata])
      (auto simp: withdrawal_gate_def passkey_signs_def)
qed

theorem withdrawal_keeps_reserve_witness: "300 + pending_total L9 V \<le> 1000"
proof -
  have "reachable sample_host sample_swig (\<lambda>_. True) L9"
    by (rule reach_exec [OF sample_reachable_all(4) _ sample_request]) simp
  from withdrawal_keeps_reserve [OF this sample_finalize] show ?thesis
    by (auto simp: L9_def PW_def finalize_accs_def)
qed

text \<open>C5: a run of the current instructions is a run of the bookkeeping machine \<open>book\<close>: every instruction
  is one of its rules over the accounting fields, which mention no passkey, signature or message and
  give the life of a claim by rules of their own (\<open>claim_step\<close>). (The migrations are added in C31.)\<close>

theorem exec_refines_book:
  assumes "(ledger_step h sw allowed)\<^sup>*\<^sup>* l l'"
    and "nz \<longrightarrow> (\<forall>ix. allowed ix \<longrightarrow> nonzero_counterparty ix)"
  shows "(book h nz)\<^sup>*\<^sup>* l l'"
  using assms(1)
proof (induction rule: rtranclp_induct)
  case (step l1 l2)
  from step.hyps(2) obtain e ix where "allowed ix" "exec h sw e ix l1 = Inr l2"
    by (auto elim: ledger_stepE)
  with assms(2) have "book h nz l1 l2" by (intro exec_books) blast+
  with step.IH show ?case by (rule rtranclp.rtrancl_into_rtrancl)
qed simp

theorem exec_refines_book_witness: "(book sample_host True)\<^sup>*\<^sup>* L3 L4"
proof -
  have "nonzero_counterparty (LockVoucher lock_accs lock_args)"
    by (simp add: nonzero_counterparty_def)
  then have "ledger_step sample_host sample_swig nonzero_counterparty L3 L4"
    by (rule ledger_step.intros [OF _ sample_lock])
  then show ?thesis using exec_refines_book [OF r_into_rtranclp, of _ _ nonzero_counterparty] by blast
qed

end
